(* ===== verification/HG_Prelude.thy ===== *)
theory HG_Prelude
  imports Main "HOL-Library.Word"
begin

text \<open>
  Shared ground of the development: machine integers, C strings and the parts of the C standard
  library the program uses (decimal conversion and \<^verbatim>\<open>snprintf\<close>, \<^verbatim>\<open>strcasecmp\<close>,
  bounded copies), bounds-checked writes into a C array, and the named collections of rewrite rules
  that the component theories add to.

  A C string is a \<^typ>\<open>string\<close> without its terminating NUL.  A call
  \<^verbatim>\<open>snprintf(buf, cap, fmt, ...)\<close> is written \<open>snprintf cap (sprintf pieces)\<close>, where the
  pieces are the literal segments of the format and its arguments in order; the result is the
  returned length and the text the buffer holds afterwards (for a capacity of at least one).
\<close>

named_theorems fmt_defs "definitions of the text formatting functions"
named_theorems store_defs "definitions of the operations on stores and states"
named_theorems len_bounds "upper bounds on the length of generated text"

type_synonym i64 = "64 word"
type_synonym i32 = "32 word"

section \<open>C strings\<close>

abbreviation NUL :: char where "NUL \<equiv> CHR 0x00"

definition crlf :: string where "crlf = [CHR 0x0D, CHR 0x0A]"

definition cstr :: "string \<Rightarrow> string" where
  "cstr s = takeWhile (\<lambda>c. c \<noteq> NUL) s"

definition nul_free :: "string \<Rightarrow> bool" where
  "nul_free s \<longleftrightarrow> NUL \<notin> set s"

text \<open>\<open>copy_cap\<close> is a bounded copy that always terminates its result:
  \<^verbatim>\<open>snprintf(dst, cap, "%s", src)\<close>, or \<^verbatim>\<open>strncpy(dst, src, cap)\<close> followed by
  \<^verbatim>\<open>dst[cap - 1] = 0\<close>.\<close>

definition copy_cap :: "nat \<Rightarrow> string \<Rightarrow> string" where
  "copy_cap cap s = take (cap - 1) s"

text \<open>A pointer argument that may be NULL is an option; most callees replace NULL by a literal.\<close>

definition or_default :: "string option \<Rightarrow> string \<Rightarrow> string" where
  "or_default p d = (case p of None \<Rightarrow> d | Some s \<Rightarrow> s)"

text \<open>\<^verbatim>\<open>tolower\<close> in the C locale and equality under \<^verbatim>\<open>strcasecmp\<close>.\<close>

definition to_lower :: "char \<Rightarrow> char" where
  "to_lower c = (let n = of_char c :: nat in if 65 \<le> n \<and> n \<le> 90 then char_of (n + 32) else c)"

definition case_eq :: "string \<Rightarrow> string \<Rightarrow> bool" where
  "case_eq a b \<longleftrightarrow> map to_lower a = map to_lower b"

lemma length_crlf [simp]: "length crlf = 2"
  by (simp add: crlf_def)

lemma length_cstr: "length (cstr s) \<le> length s"
  by (simp add: cstr_def length_takeWhile_le)

lemma nul_free_cstr [simp]: "nul_free (cstr s)"
  by (auto simp: nul_free_def cstr_def dest: set_takeWhileD)

lemma cstr_id [simp]: "nul_free s \<Longrightarrow> cstr s = s"
  by (auto simp: nul_free_def cstr_def takeWhile_eq_all_conv)

lemma nul_free_Nil [simp]: "nul_free []"
  by (simp add: nul_free_def)

lemma nul_free_Cons [simp]: "nul_free (c # s) \<longleftrightarrow> c \<noteq> NUL \<and> nul_free s"
  by (auto simp: nul_free_def)

lemma nul_free_append [simp]: "nul_free (s @ t) \<longleftrightarrow> nul_free s \<and> nul_free t"
  by (auto simp: nul_free_def)

lemma nul_free_take [simp]: "nul_free s \<Longrightarrow> nul_free (take n s)"
  by (auto simp: nul_free_def dest: in_set_takeD)

lemma length_copy_cap [len_bounds]: "length (copy_cap cap s) \<le> cap - 1"
  by (simp add: copy_cap_def)

lemma copy_cap_less: "0 < cap \<Longrightarrow> length (copy_cap cap s) < cap"
  by (auto simp: copy_cap_def)

lemma copy_cap_id: "length s < cap \<Longrightarrow> copy_cap cap s = s"
  by (simp add: copy_cap_def)

lemma copy_cap_idem [simp]: "copy_cap cap (copy_cap cap s) = copy_cap cap s"
  by (simp add: copy_cap_def)

lemma copy_cap_Nil [simp]: "copy_cap cap [] = []"
  by (simp add: copy_cap_def)

lemma nul_free_copy_cap [simp]: "nul_free s \<Longrightarrow> nul_free (copy_cap cap s)"
  by (simp add: copy_cap_def)

lemma case_eq_refl [simp]: "case_eq a a"
  by (simp add: case_eq_def)

lemma case_eq_sym: "case_eq a b \<Longrightarrow> case_eq b a"
  by (simp add: case_eq_def)

lemma case_eq_trans: "case_eq a b \<Longrightarrow> case_eq b c \<Longrightarrow> case_eq a c"
  by (simp add: case_eq_def)

section \<open>Decimal conversion\<close>

definition digit_char :: "nat \<Rightarrow> char" where
  "digit_char d = char_of (48 + d)"

fun nat_dec :: "nat \<Rightarrow> string" where
  "nat_dec n = (if n < 10 then [digit_char n] else nat_dec (n div 10) @ [digit_char (n mod 10)])"

declare nat_dec.simps [simp del]

definition int_dec :: "int \<Rightarrow> string" where
  "int_dec i = (if i < 0 then CHR ''-'' # nat_dec (nat (- i)) else nat_dec (nat i))"

lemma nat_dec_nonempty [simp]: "nat_dec n \<noteq> []"
  by (subst nat_dec.simps) simp

lemma int_dec_nonempty [simp]: "int_dec i \<noteq> []"
  by (simp add: int_dec_def)

lemma length_nat_dec: "n < 10 ^ Suc k \<Longrightarrow> length (nat_dec n) \<le> Suc k"
proof (induction n arbitrary: k rule: nat_dec.induct)
  case (1 n)
  show ?case
  proof (cases "n < 10")
    case True
    then show ?thesis by (subst nat_dec.simps) simp
  next
    case False
    with "1.prems" obtain j where k: "k = Suc j" by (cases k) auto
    with "1.prems" have "n div 10 < 10 ^ Suc j" by (simp add: less_mult_imp_div_less mult.commute)
    with "1.IH" False have "length (nat_dec (n div 10)) \<le> Suc j" by blast
    with False k show ?thesis by (subst nat_dec.simps) simp
  qed
qed

lemma length_int_dec:
  assumes "- (10 ^ Suc k) < i" and "i < 10 ^ Suc k"
  shows "length (int_dec i) \<le> k + 2"
proof -
  have pos: "nat i < 10 ^ Suc k" if "0 \<le> i"
    using assms(2) that by (simp add: nat_less_iff)
  have neg: "nat (- i) < 10 ^ Suc k" if "i < 0"
    using assms(1) that by (simp add: nat_less_iff)
  show ?thesis
    using length_nat_dec [OF pos] length_nat_dec [OF neg] by (auto simp: int_dec_def)
qed

lemma length_int_dec_i64 [len_bounds]: "length (int_dec (sint (w :: i64))) \<le> 20"
proof -
  have "- (10 ^ Suc 18) < sint w" "sint w < 10 ^ Suc 18"
    using sint_greater_eq [of w] sint_less [of w] by simp_all
  from length_int_dec [OF this] show ?thesis by simp
qed

lemma length_int_dec_i32 [len_bounds]: "length (int_dec (sint (w :: i32))) \<le> 11"
proof -
  have "- (10 ^ Suc 9) < sint w" "sint w < 10 ^ Suc 9"
    using sint_greater_eq [of w] sint_less [of w] by simp_all
  from length_int_dec [OF this] show ?thesis by simp
qed

text \<open>Reading a decimal back: the inverse that the round trips of the event serialiser use.\<close>

definition is_digit :: "char \<Rightarrow> bool" where
  "is_digit c \<longleftrightarrow> 48 \<le> (of_char c :: nat) \<and> (of_char c :: nat) \<le> 57"

definition digit_val :: "char \<Rightarrow> nat" where
  "digit_val c = of_char c - 48"

definition dec_val :: "string \<Rightarrow> nat" where
  "dec_val s = foldl (\<lambda>n c. 10 * n + digit_val c) 0 s"

lemma of_char_digit_char: "d < 10 \<Longrightarrow> of_char (digit_char d) = (48 + d :: nat)"
  by (simp add: digit_char_def)

lemma is_digit_digit_char [simp]: "d < 10 \<Longrightarrow> is_digit (digit_char d)"
  by (simp add: is_digit_def of_char_digit_char)

lemma digit_val_digit_char [simp]: "d < 10 \<Longrightarrow> digit_val (digit_char d) = d"
  by (simp add: digit_val_def of_char_digit_char)

lemma nat_dec_digits: "\<forall>c \<in> set (nat_dec n). is_digit c"
proof (induction n rule: nat_dec.induct)
  case (1 n)
  then show ?case by (subst nat_dec.simps) auto
qed

lemma dec_val_nat_dec [simp]: "dec_val (nat_dec n) = n"
proof (induction n rule: nat_dec.induct)
  case (1 n)
  show ?case
  proof (cases "n < 10")
    case True
    then show ?thesis by (subst nat_dec.simps) (simp add: dec_val_def)
  next
    case False
    with "1.IH" have "dec_val (nat_dec (n div 10)) = n div 10" by blast
    with False show ?thesis by (subst nat_dec.simps) (simp add: dec_val_def)
  qed
qed

lemma nul_free_nat_dec [simp]: "nul_free (nat_dec n)"
  using nat_dec_digits [of n] by (auto simp: nul_free_def is_digit_def)

lemma nul_free_int_dec [simp]: "nul_free (int_dec i)"
  by (simp add: int_dec_def)

section \<open>snprintf\<close>

datatype piece = L string | S string | I int

fun piece_text :: "piece \<Rightarrow> string" where
  "piece_text (L s) = s"
| "piece_text (S s) = s"
| "piece_text (I i) = int_dec i"

definition sprintf :: "piece list \<Rightarrow> string" where
  "sprintf ps = concat (map piece_text ps)"

type_synonym fmt_result = "int \<times> string"

definition snprintf :: "nat \<Rightarrow> string \<Rightarrow> fmt_result" where
  "snprintf cap s = (int (length s), take (cap - 1) s)"

lemma sprintf_Nil [simp]: "sprintf [] = []"
  by (simp add: sprintf_def)

lemma sprintf_Cons [simp]: "sprintf (p # ps) = piece_text p @ sprintf ps"
  by (simp add: sprintf_def)

lemma snprintf_fits: "length s < cap \<Longrightarrow> snprintf cap s = (int (length s), s)"
  by (simp add: snprintf_def)

lemma fst_snprintf [simp]: "fst (snprintf cap s) = int (length s)"
  by (simp add: snprintf_def)

lemma snprintf_text_less: "0 < cap \<Longrightarrow> length (snd (snprintf cap s)) < cap"
  by (auto simp: snprintf_def)

text \<open>\<open>fmt_bool\<close> is the conditional \<^verbatim>\<open>x ? "true" : "false"\<close> of the event templates.\<close>

definition fmt_bool :: "bool \<Rightarrow> string" where
  "fmt_bool b = (if b then ''true'' else ''false'')"

lemma length_fmt_bool [len_bounds]: "length (fmt_bool b) \<le> 5"
  by (simp add: fmt_bool_def)

text \<open>The precision-and-width conversion \<^verbatim>\<open>%-W.Ps\<close>.\<close>

definition pad_right :: "nat \<Rightarrow> nat \<Rightarrow> string \<Rightarrow> string" where
  "pad_right w p s = take p s @ replicate (w - length (take p s)) (CHR '' '')"

lemma length_pad_right: "length (pad_right w p s) = max w (min (length s) p)"
  by (simp add: pad_right_def)

section \<open>Bounds-checked memory\<close>

text \<open>An access outside a C array, through a pointer to no object, or through a register that the last call may have
  changed, and a \<^verbatim>\<open>memcpy\<close> between overlapping ranges, are values of their own, not truncated
  accesses.\<close>

datatype mem_error = Out_of_bounds nat nat | Bad_address nat | Stray_address nat | Overlapping nat

definition ebind :: "'e + 'a \<Rightarrow> ('a \<Rightarrow> 'e + 'b) \<Rightarrow> 'e + 'b" where
  "ebind m f = (case m of Inl e \<Rightarrow> Inl e | Inr a \<Rightarrow> f a)"

lemma ebind_simps [simp]: "ebind (Inl e) f = Inl e" "ebind (Inr a) f = f a"
  by (simp_all add: ebind_def)

lemma ebind_eq_Inr [simp]: "ebind m f = Inr b \<longleftrightarrow> (\<exists>a. m = Inr a \<and> f a = Inr b)"
  by (cases m) auto

definition write_at :: "string \<Rightarrow> nat \<Rightarrow> string \<Rightarrow> mem_error + string" where
  "write_at buf o' bs =
     (if o' + length bs \<le> length buf then Inr (take o' buf @ bs @ drop (o' + length bs) buf)
      else Inl (Out_of_bounds (o' + length bs) (length buf)))"

lemma write_at_length: "write_at buf o' bs = Inr buf' \<Longrightarrow> length buf' = length buf"
  by (auto simp: write_at_def split: if_splits)

lemma write_at_prefix:
  assumes "write_at buf o' bs = Inr buf'"
  shows "take (o' + length bs) buf' = take o' buf @ bs"
proof -
  from assms have "o' + length bs \<le> length buf"
    and "buf' = take o' buf @ bs @ drop (o' + length bs) buf"
    by (auto simp: write_at_def split: if_splits)
  then show ?thesis by simp
qed

end
