(* ===== verification/Session.thy ===== *)
theory Session
  imports HG_Prelude
begin

text \<open>
  The per-connection block: \<^verbatim>\<open>include/hg_session.h\<close> (the C view) and
  \<^verbatim>\<open>include/state.inc\<close> (the assembly view) lay out one block of
  \<^verbatim>\<open>HG_SESSION_SIZE\<close> bytes.  The record \<open>session\<close> is its content, field by field;
  the two offset tables are kept as data and proved to agree and to be disjoint.
\<close>

section \<open>The block as a record\<close>

text \<open>
  Integer cells are 64-bit words read as signed.  String cells hold a C string.  The outbox
  (\<^verbatim>\<open>SESSION_OUT\<close> with \<^verbatim>\<open>SESSION_OUT_LEN\<close>) is the list of its live bytes, and
  so is the reassembly buffer \<^verbatim>\<open>SESSION_RX\<close> under a non-negative
  \<^verbatim>\<open>SESSION_RX_LEN\<close>: bytes beyond the length cell are never read.
\<close>

type_synonym addr = nat

record session =
  s_state :: i64
  s_name :: string
  s_race :: string
  s_room :: i64
  s_hp :: i64
  s_max_hp :: i64
  s_level :: i64
  s_xp :: i64
  s_gold :: i64
  s_morality :: i64
  s_addiction :: i64
  s_ashsworn :: i64
  s_strayed :: i64
  s_redeemed :: i64
  s_resisted :: i64
  s_poisoned :: i64
  s_faction :: string
  s_position :: string
  s_title :: string
  s_eq_weapon :: string
  s_eq_head :: string
  s_eq_body :: string
  s_eq_hands :: string
  s_eq_feet :: string
  s_inv_count :: i64
  s_inventory :: "string list"
  s_target :: i64
  s_in_combat :: i64
  s_trait_ready :: i64
  s_treat_ready :: i64
  s_reply_to :: string
  s_mkt_resolved :: i64
  s_last_gridcast_id :: i64
  s_last_freed :: string
  s_wsi :: addr
  s_last_tick :: i64
  s_close :: i64
  s_out :: string
  s_rx_len :: i64
  s_rx :: string
  s_secret_hash :: string
  s_keeper_authed :: i64
  s_pass_mode :: i64

definition OUT_CAP :: nat where "OUT_CAP = 16384"
definition RX_CAP :: nat where "RX_CAP = 256"
definition MAX_SESSIONS :: nat where "MAX_SESSIONS = 32"

text \<open>The block after \<^verbatim>\<open>memset(session, 0, SESSION_SIZE)\<close>.\<close>

definition zero_session :: session where
  "zero_session = \<lparr>s_state = 0, s_name = [], s_race = [], s_room = 0, s_hp = 0, s_max_hp = 0, s_level = 0,
     s_xp = 0, s_gold = 0, s_morality = 0, s_addiction = 0, s_ashsworn = 0, s_strayed = 0, s_redeemed = 0,
     s_resisted = 0, s_poisoned = 0, s_faction = [], s_position = [], s_title = [], s_eq_weapon = [],
     s_eq_head = [], s_eq_body = [], s_eq_hands = [], s_eq_feet = [], s_inv_count = 0,
     s_inventory = replicate 16 [], s_target = 0, s_in_combat = 0, s_trait_ready = 0, s_treat_ready = 0,
     s_reply_to = [], s_mkt_resolved = 0, s_last_gridcast_id = 0, s_last_freed = [], s_wsi = 0,
     s_last_tick = 0, s_close = 0, s_out = [], s_rx_len = 0, s_rx = [], s_secret_hash = [],
     s_keeper_authed = 0, s_pass_mode = 0\<rparr>"

text \<open>Every string cell holds a terminated string of at most its width less one.\<close>

definition cell_ok :: "nat \<Rightarrow> string \<Rightarrow> bool" where
  "cell_ok width s \<longleftrightarrow> nul_free s \<and> length s < width"

definition cells_ok :: "session \<Rightarrow> bool" where
  "cells_ok s \<longleftrightarrow>
     cell_ok 40 (s_name s) \<and> cell_ok 16 (s_race s) \<and> cell_ok 16 (s_faction s) \<and>
     cell_ok 16 (s_position s) \<and> cell_ok 48 (s_title s) \<and>
     cell_ok 16 (s_eq_weapon s) \<and> cell_ok 16 (s_eq_head s) \<and> cell_ok 16 (s_eq_body s) \<and>
     cell_ok 16 (s_eq_hands s) \<and> cell_ok 16 (s_eq_feet s) \<and>
     cell_ok 40 (s_reply_to s) \<and> cell_ok 40 (s_last_freed s) \<and> cell_ok 72 (s_secret_hash s)"

definition out_ok :: "session \<Rightarrow> bool" where
  "out_ok s \<longleftrightarrow> length (s_out s) \<le> OUT_CAP"

lemma cell_ok_Nil [simp]: "0 < w \<Longrightarrow> cell_ok w []"
  by (simp add: cell_ok_def)

lemma cell_ok_copy_cap [simp]: "0 < w \<Longrightarrow> nul_free s \<Longrightarrow> cell_ok w (copy_cap w s)"
  by (simp add: cell_ok_def copy_cap_less)

lemma cell_okD: "cell_ok w s \<Longrightarrow> length s < w" "cell_ok w s \<Longrightarrow> nul_free s"
  by (simp_all add: cell_ok_def)

lemma cells_ok_zero [simp]: "cells_ok zero_session"
  by (simp add: cells_ok_def zero_session_def)

lemma out_ok_zero [simp]: "out_ok zero_session"
  by (simp add: out_ok_def zero_session_def)

section \<open>The two layouts\<close>

text \<open>The offsets of \<^verbatim>\<open>hg_session.h\<close>, without the \<^verbatim>\<open>HG_SESSION_\<close> prefix.\<close>

definition hg_session_h :: "(string \<times> nat) list" where
  "hg_session_h =
    [(''STATE'', 0), (''NAME'', 8), (''RACE'', 48), (''ROOM'', 64), (''HP'', 72), (''MAX_HP'', 80),
     (''LEVEL'', 88), (''XP'', 96), (''GOLD'', 104), (''MORALITY'', 112), (''ADDICTION'', 120),
     (''ASHSWORN'', 128), (''STRAYED'', 136), (''REDEEMED'', 144), (''RESISTED'', 152),
     (''POISONED'', 160), (''FACTION'', 168), (''POSITION'', 184), (''TITLE'', 200),
     (''EQ_WEAPON'', 248), (''EQ_HEAD'', 264), (''EQ_BODY'', 280), (''EQ_HANDS'', 296),
     (''EQ_FEET'', 312), (''INV_COUNT'', 328), (''INVENTORY'', 336), (''TARGET'', 592),
     (''IN_COMBAT'', 600), (''TRAIT_READY'', 608), (''TREAT_READY'', 616), (''REPLY_TO'', 624),
     (''MKT_RESOLVED'', 664), (''LAST_GRIDCAST_ID'', 672), (''LAST_FREED'', 680), (''WSI'', 720),
     (''LAST_TICK'', 728), (''OUT_LEN'', 736), (''CLOSE'', 744), (''OUT'', 752), (''RX_LEN'', 17136),
     (''RX'', 17144), (''SECRET_HASH'', 17400), (''KEEPER_AUTHED'', 17472), (''PASS_MODE'', 17480),
     (''SIZE'', 17488)]"

text \<open>The offsets of \<^verbatim>\<open>state.inc\<close> with the width its comments and capacities give each
  cell (a quad word where no width is written).\<close>

definition state_inc :: "(string \<times> nat \<times> nat) list" where
  "state_inc =
    [(''STATE'', 0, 8), (''NAME'', 8, 40), (''RACE'', 48, 16), (''ROOM'', 64, 8), (''HP'', 72, 8),
     (''MAX_HP'', 80, 8), (''LEVEL'', 88, 8), (''XP'', 96, 8), (''GOLD'', 104, 8), (''MORALITY'', 112, 8),
     (''ADDICTION'', 120, 8), (''ASHSWORN'', 128, 8), (''STRAYED'', 136, 8), (''REDEEMED'', 144, 8),
     (''RESISTED'', 152, 8), (''POISONED'', 160, 8), (''FACTION'', 168, 16), (''POSITION'', 184, 16),
     (''TITLE'', 200, 48), (''EQ_WEAPON'', 248, 16), (''EQ_HEAD'', 264, 16), (''EQ_BODY'', 280, 16),
     (''EQ_HANDS'', 296, 16), (''EQ_FEET'', 312, 16), (''INV_COUNT'', 328, 8), (''INVENTORY'', 336, 16 * 16),
     (''TARGET'', 592, 8), (''IN_COMBAT'', 600, 8), (''TRAIT_READY'', 608, 8), (''TREAT_READY'', 616, 8),
     (''REPLY_TO'', 624, 40), (''MKT_RESOLVED'', 664, 8), (''LAST_GRIDCAST_ID'', 672, 8),
     (''LAST_FREED'', 680, 40), (''WSI'', 720, 8), (''LAST_TICK'', 728, 8), (''OUT_LEN'', 736, 8),
     (''CLOSE'', 744, 8), (''OUT'', 752, 16384), (''RX_LEN'', 17136, 8), (''RX'', 17144, 256),
     (''SECRET_HASH'', 17400, 72), (''KEEPER_AUTHED'', 17472, 8), (''PASS_MODE'', 17480, 8),
     (''SIZE'', 17488, 0)]"

text \<open>Cells in ascending order, each ending where the next one starts or before.\<close>

fun cells_disjoint :: "(string \<times> nat \<times> nat) list \<Rightarrow> bool" where
  "cells_disjoint [] = True"
| "cells_disjoint [c] = True"
| "cells_disjoint ((n, a, w) # (m, b, v) # cs) = (a + w \<le> b \<and> cells_disjoint ((m, b, v) # cs))"

text \<open>The C header and the assembly include give every session cell the same offset, and with the
  widths of the include no two cells overlap and all lie inside the block (its size is the last entry):
  a write through one name, in either language, never changes another cell.\<close>

lemma session_layouts_agree:
  "hg_session_h = map (\<lambda>(n, a, w). (n, a)) state_inc \<and> cells_disjoint state_inc"
  by (simp add: hg_session_h_def state_inc_def)

end
