(* ===== verification/Json_Escape.thy ===== *)
theory Json_Escape
  imports HG_Prelude
begin

text \<open>
  \<^verbatim>\<open>hg_json_escape\<close> of \<^verbatim>\<open>ffi/format.c\<close>: the bounded, all-or-nothing copy of a C string
  into a JSON string body, with its reference \<open>json_esc\<close> (no capacity) and the reader
  \<open>json_unesc\<close> that inverts it.
\<close>

section \<open>The escape of one byte\<close>

abbreviation DQUOTE :: char where "DQUOTE \<equiv> CHR 0x22"
abbreviation BSLASH :: char where "BSLASH \<equiv> CHR 0x5C"

definition hex_digit :: "nat \<Rightarrow> char" where
  "hex_digit d = (if d < 10 then char_of (48 + d) else char_of (87 + d))"

text \<open>\<^verbatim>\<open>\u%04x\<close> of a byte below 0x20.\<close>

definition u00_escape :: "nat \<Rightarrow> string" where
  "u00_escape n = [BSLASH, CHR ''u'', CHR ''0'', CHR ''0'', hex_digit (n div 16), hex_digit (n mod 16)]"

definition esc_rep :: "char \<Rightarrow> string option" where
  "esc_rep c =
     (if c = DQUOTE then Some [BSLASH, DQUOTE]
      else if c = BSLASH then Some [BSLASH, BSLASH]
      else if c = CHR 0x08 then Some [BSLASH, CHR ''b'']
      else if c = CHR 0x0C then Some [BSLASH, CHR ''f'']
      else if c = CHR 0x0A then Some [BSLASH, CHR ''n'']
      else if c = CHR 0x0D then Some [BSLASH, CHR ''r'']
      else if c = CHR 0x09 then Some [BSLASH, CHR ''t'']
      else if (of_char c :: nat) < 32 then Some (u00_escape (of_char c))
      else None)"

section \<open>The loop of hg_json_escape\<close>

text \<open>\<open>out\<close> is \<^verbatim>\<open>dst[0..o)\<close>; a failure leaves the empty string and returns -1.\<close>

fun escape_loop :: "nat \<Rightarrow> string \<Rightarrow> string \<Rightarrow> fmt_result" where
  "escape_loop cap out [] = (int (length out), out)"
| "escape_loop cap out (c # cs) =
     (if c = NUL then (int (length out), out)
      else case esc_rep c of
        Some rep \<Rightarrow>
          if length out + length rep + 1 > cap then (-1, []) else escape_loop cap (out @ rep) cs
      | None \<Rightarrow>
          if length out + 2 > cap then (-1, []) else escape_loop cap (out @ [c]) cs)"

definition hg_json_escape :: "nat \<Rightarrow> string option \<Rightarrow> fmt_result" where
  "hg_json_escape cap src =
     (if cap = 0 then (-1, []) else escape_loop cap [] (or_default src []))"

section \<open>Reference\<close>

definition esc_char :: "char \<Rightarrow> string" where
  "esc_char c = (case esc_rep c of Some rep \<Rightarrow> rep | None \<Rightarrow> [c])"

definition json_esc :: "string \<Rightarrow> string" where
  "json_esc s = concat (map esc_char s)"

lemma json_esc_Nil [simp]: "json_esc [] = []"
  by (simp add: json_esc_def)

lemma json_esc_Cons [simp]: "json_esc (c # s) = esc_char c @ json_esc s"
  by (simp add: json_esc_def)

lemma json_esc_append [simp]: "json_esc (s @ t) = json_esc s @ json_esc t"
  by (simp add: json_esc_def)

lemma length_esc_char: "1 \<le> length (esc_char c)" "length (esc_char c) \<le> 6"
  by (simp_all add: esc_char_def esc_rep_def u00_escape_def)

lemma length_json_esc_ge: "length s \<le> length (json_esc s)"
proof (induction s)
  case (Cons c s)
  then show ?case using length_esc_char(1) [of c] by simp
qed simp

lemma length_json_esc_le: "length (json_esc s) \<le> 6 * length s"
proof (induction s)
  case (Cons c s)
  then show ?case using length_esc_char(2) [of c] by simp
qed simp

text \<open>Both branches of the loop body test the same bound: the escape of the byte and the NUL fit.\<close>

lemma escape_loop_step:
  "c \<noteq> NUL \<Longrightarrow> escape_loop cap out (c # cs) =
     (if length out + length (esc_char c) < cap then escape_loop cap (out @ esc_char c) cs else (-1, []))"
  by (simp add: esc_char_def split: option.splits)

lemma escape_loop_spec:
  "length out < cap \<Longrightarrow> escape_loop cap out s =
     (if length out + length (json_esc (cstr s)) < cap
      then (int (length (out @ json_esc (cstr s))), out @ json_esc (cstr s)) else (-1, []))"
proof (induction s arbitrary: out)
  case Nil
  then show ?case by (simp add: cstr_def)
next
  case (Cons c s)
  show ?case
  proof (cases "c = NUL")
    case True
    with Cons.prems show ?thesis by (simp add: cstr_def)
  next
    case False
    then have cs: "cstr (c # s) = c # cstr s" by (simp add: cstr_def)
    show ?thesis
    proof (cases "length out + length (esc_char c) < cap")
      case True
      with Cons.IH [of "out @ esc_char c"] show ?thesis
        by (simp add: escape_loop_step [OF False] cs add.assoc del: escape_loop.simps)
    next
      case no: False
      then show ?thesis by (simp add: escape_loop_step [OF False] cs del: escape_loop.simps)
    qed
  qed
qed

lemma hg_json_escape_spec:
  "0 < cap \<Longrightarrow> hg_json_escape cap src =
     (let e = json_esc (cstr (or_default src []))
      in if length e < cap then (int (length e), e) else (-1, []))"
  by (simp add: hg_json_escape_def escape_loop_spec Let_def)

lemma hg_json_escape_fits:
  "nul_free s \<Longrightarrow> length (json_esc s) < cap \<Longrightarrow>
     hg_json_escape cap (Some s) = (int (length (json_esc s)), json_esc s)"
  using hg_json_escape_spec [of cap "Some s"] by (simp add: or_default_def Let_def)

lemma length_hg_json_escape [len_bounds]: "length (snd (hg_json_escape cap src)) \<le> cap - 1"
proof (cases "cap = 0")
  case True
  then show ?thesis by (simp add: hg_json_escape_def)
next
  case False
  then show ?thesis using hg_json_escape_spec [of cap src] by (auto simp: Let_def)
qed

section \<open>Plain text needs no escape\<close>

definition json_plain :: "string \<Rightarrow> bool" where
  "json_plain s \<longleftrightarrow> (\<forall>c \<in> set s. esc_rep c = None)"

lemma json_esc_plain [simp]: "json_plain s \<Longrightarrow> json_esc s = s"
  by (induction s) (auto simp: json_plain_def esc_char_def)

lemma json_plain_Nil [simp]: "json_plain []"
  by (simp add: json_plain_def)

lemma json_plain_append [simp]: "json_plain (s @ t) \<longleftrightarrow> json_plain s \<and> json_plain t"
  by (auto simp: json_plain_def)

lemma json_plain_Cons [simp]: "json_plain (c # s) \<longleftrightarrow> esc_rep c = None \<and> json_plain s"
  by (auto simp: json_plain_def)

lemma json_plain_nul_free: "json_plain s \<Longrightarrow> nul_free s"
  by (auto simp: json_plain_def nul_free_def esc_rep_def)

lemma json_plain_take [simp]: "json_plain s \<Longrightarrow> json_plain (take n s)"
  by (auto simp: json_plain_def dest: in_set_takeD)

section \<open>Reading a JSON string body back\<close>

definition hex_val :: "char \<Rightarrow> nat option" where
  "hex_val c = (let n = of_char c :: nat in
     if 48 \<le> n \<and> n \<le> 57 then Some (n - 48)
     else if 97 \<le> n \<and> n \<le> 102 then Some (n - 87)
     else if 65 \<le> n \<and> n \<le> 70 then Some (n - 55) else None)"

definition hex4 :: "char \<Rightarrow> char \<Rightarrow> char \<Rightarrow> char \<Rightarrow> nat option" where
  "hex4 a b c d = (case (hex_val a, hex_val b, hex_val c, hex_val d) of
     (Some w, Some x, Some y, Some z) \<Rightarrow> Some (4096 * w + 256 * x + 16 * y + z) | _ \<Rightarrow> None)"

definition simple_unesc :: "char \<Rightarrow> char option" where
  "simple_unesc e =
     (if e = DQUOTE then Some DQUOTE else if e = BSLASH then Some BSLASH
      else if e = CHR ''/'' then Some (CHR ''/'')
      else if e = CHR ''b'' then Some (CHR 0x08) else if e = CHR ''f'' then Some (CHR 0x0C)
      else if e = CHR ''n'' then Some (CHR 0x0A) else if e = CHR ''r'' then Some (CHR 0x0D)
      else if e = CHR ''t'' then Some (CHR 0x09) else None)"

text \<open>The reader of RFC 8259 string bodies over bytes: it stops at the closing quote, refuses raw
  control bytes and unknown escapes, and reads only those \<^verbatim>\<open>\u\<close> escapes that denote one byte.\<close>

fun json_unesc :: "string \<Rightarrow> (string \<times> string) option" where
  "json_unesc [] = None"
| "json_unesc (c # cs) =
     (if c = DQUOTE then Some ([], cs)
      else if c = BSLASH then
        (case cs of
           [] \<Rightarrow> None
         | e # r \<Rightarrow>
             if e = CHR ''u'' then
               (case r of
                  h1 # h2 # h3 # h4 # r' \<Rightarrow>
                    (case hex4 h1 h2 h3 h4 of
                       None \<Rightarrow> None
                     | Some v \<Rightarrow> if v < 256 then map_option (apfst ((#) (char_of v))) (json_unesc r') else None)
                | _ \<Rightarrow> None)
             else (case simple_unesc e of
                     None \<Rightarrow> None
                   | Some x \<Rightarrow> map_option (apfst ((#) x)) (json_unesc r)))
      else if (of_char c :: nat) < 32 then None
      else map_option (apfst ((#) c)) (json_unesc cs))"

lemma hex_val_hex_digit [simp]: "d < 16 \<Longrightarrow> hex_val (hex_digit d) = Some d"
  by (auto simp: hex_val_def hex_digit_def Let_def)

lemma hex4_u00:
  assumes "n < 256"
  shows "hex4 (CHR ''0'') (CHR ''0'') (hex_digit (n div 16)) (hex_digit (n mod 16)) = Some n"
proof -
  from assms have "n div 16 < 16" by simp
  moreover have "hex_val (CHR ''0'') = Some 0" by (simp add: hex_val_def)
  ultimately show ?thesis by (simp add: hex4_def)
qed

lemma esc_rep_cases:
  assumes "esc_rep c = Some rep"
  obtains (short) e where "e \<noteq> CHR ''u''" "rep = [BSLASH, e]" "simple_unesc e = Some c"
  | (unicode) "(of_char c :: nat) < 32" "rep = u00_escape (of_char c)"
proof -
  have "(\<exists>e. e \<noteq> CHR ''u'' \<and> rep = [BSLASH, e] \<and> simple_unesc e = Some c)
      \<or> ((of_char c :: nat) < 32 \<and> rep = u00_escape (of_char c))"
    using assms by (simp add: esc_rep_def split: if_splits) (force simp: simple_unesc_def)+
  then show thesis using that by blast
qed

lemma json_unesc_simple:
  "e \<noteq> CHR ''u'' \<Longrightarrow> simple_unesc e = Some x \<Longrightarrow>
     json_unesc (BSLASH # e # t) = map_option (apfst ((#) x)) (json_unesc t)"
  by simp

lemma json_unesc_u00:
  "n < 256 \<Longrightarrow> json_unesc (u00_escape n @ t) = map_option (apfst ((#) (char_of n))) (json_unesc t)"
  by (simp add: u00_escape_def hex4_u00)

lemma json_unesc_plain:
  assumes "esc_rep c = None"
  shows "json_unesc (c # t) = map_option (apfst ((#) c)) (json_unesc t)"
proof -
  from assms have "c \<noteq> DQUOTE" "c \<noteq> BSLASH" "\<not> (of_char c :: nat) < 32"
    by (simp_all add: esc_rep_def split: if_splits)
  then show ?thesis by simp
qed

lemma json_unesc_esc_char:
  "json_unesc (esc_char c @ t) = map_option (apfst ((#) c)) (json_unesc t)"
proof (cases "esc_rep c")
  case None
  then show ?thesis by (simp add: esc_char_def json_unesc_plain del: json_unesc.simps)
next
  case (Some rep)
  then show ?thesis
  proof (cases rule: esc_rep_cases)
    case (short e)
    with Some show ?thesis
      by (simp add: esc_char_def json_unesc_simple del: json_unesc.simps)
  next
    case unicode
    with Some show ?thesis
      by (simp add: esc_char_def json_unesc_u00 del: json_unesc.simps)
  qed
qed

lemma json_unesc_json_esc:
  "json_unesc (json_esc s @ DQUOTE # rest) = Some (s, rest)"
proof (induction s)
  case Nil
  show ?case by simp
next
  case (Cons c s)
  then show ?case by (simp add: json_unesc_esc_char del: json_unesc.simps)
qed

declare json_unesc.simps [simp del]

lemma json_esc_inj: "json_esc s = json_esc t \<Longrightarrow> s = t"
  by (metis json_unesc_json_esc option.inject prod.inject)

end
