(* ===== verification/Json.thy ===== *)
theory Json
  imports Json_Escape
begin

text \<open>
  The abstract side of the event protocol: JSON values, their compact rendering (the shape every
  \<^verbatim>\<open>@event\<close> template of \<^verbatim>\<open>ffi/format.c\<close> and every table builder aims at: no spaces,
  fields in order, strings escaped as \<^verbatim>\<open>hg_json_escape\<close> does), the event line
  \<^verbatim>\<open>@event <name> <json>\r\n\<close>, and a reader, with the round trip between the two.
  The format functions of the program are proved equal to \<open>event_line\<close> of a value, so that
  the round trip applies to what they emit.
\<close>

section \<open>Values and rendering\<close>

datatype jval =
    JNull
  | JStr string
  | JInt int
  | JBool bool
  | JArr "jval list"
  | JObj "(string \<times> jval) list"

definition jquote :: "string \<Rightarrow> string" where
  "jquote s = DQUOTE # json_esc s @ [DQUOTE]"

definition commas :: "string list \<Rightarrow> string" where
  "commas xs = (case xs of [] \<Rightarrow> [] | y # ys \<Rightarrow> y @ concat (map (\<lambda>z. CHR '','' # z) ys))"

fun render :: "jval \<Rightarrow> string" where
  "render JNull = ''null''"
| "render (JStr s) = jquote s"
| "render (JInt i) = int_dec i"
| "render (JBool b) = fmt_bool b"
| "render (JArr vs) = CHR ''['' # commas (map render vs) @ [CHR '']'']"
| "render (JObj fs) = CHR ''{'' # commas (map (\<lambda>(k, v). jquote k @ CHR '':'' # render v) fs) @ [CHR ''}'']"

definition event_line :: "string \<Rightarrow> jval \<Rightarrow> string" where
  "event_line name v = ''@event '' @ name @ '' '' @ render v @ crlf"

lemma commas_Nil [simp]: "commas [] = []"
  by (simp add: commas_def)

lemma commas_single [simp]: "commas [x] = x"
  by (simp add: commas_def)

lemma commas_Cons2: "commas (x # y # zs) = x @ CHR '','' # commas (y # zs)"
  by (simp add: commas_def)

lemma commas_Cons: "xs \<noteq> [] \<Longrightarrow> commas (x # xs) = x @ CHR '','' # commas xs"
  by (cases xs) (simp_all add: commas_def)

lemma commas_snoc: "xs \<noteq> [] \<Longrightarrow> commas (xs @ [y]) = commas xs @ CHR '','' # y"
  by (cases xs) (simp_all add: commas_def)

lemma length_commas_append: "length (commas xs) \<le> length (commas (xs @ ys))"
  by (cases xs) (simp_all add: commas_def)

section \<open>The reader\<close>

definition parse_int :: "string \<Rightarrow> (int \<times> string) option" where
  "parse_int s =
     (let (neg, t) = (case s of c # r \<Rightarrow> if c = CHR ''-'' then (True, r) else (False, s) | [] \<Rightarrow> (False, s));
          ds = takeWhile is_digit t
      in if ds = [] then None
         else Some (if neg then - int (dec_val ds) else int (dec_val ds), dropWhile is_digit t))"

text \<open>The reader recurses on a fuel that its top level takes from the length of the text:
  \<open>need\<close> below bounds the fuel a rendered value takes by its length.\<close>

fun parse_val :: "nat \<Rightarrow> string \<Rightarrow> (jval \<times> string) option"
and parse_elems :: "nat \<Rightarrow> string \<Rightarrow> (jval list \<times> string) option"
and parse_fields :: "nat \<Rightarrow> string \<Rightarrow> ((string \<times> jval) list \<times> string) option" where
  "parse_val 0 s = None"
| "parse_val (Suc n) s =
     (case s of
        [] \<Rightarrow> None
      | c # r \<Rightarrow>
          if c = DQUOTE then map_option (apfst JStr) (json_unesc r)
          else if c = CHR ''['' then
            (if r \<noteq> [] \<and> hd r = CHR '']'' then Some (JArr [], tl r)
             else map_option (apfst JArr) (parse_elems n r))
          else if c = CHR ''{'' then
            (if r \<noteq> [] \<and> hd r = CHR ''}'' then Some (JObj [], tl r)
             else map_option (apfst JObj) (parse_fields n r))
          else if take 4 s = ''true'' then Some (JBool True, drop 4 s)
          else if take 5 s = ''false'' then Some (JBool False, drop 5 s)
          else if take 4 s = ''null'' then Some (JNull, drop 4 s)
          else map_option (apfst JInt) (parse_int s))"
| "parse_elems 0 s = None"
| "parse_elems (Suc n) s =
     (case parse_val n s of
        None \<Rightarrow> None
      | Some (v, r) \<Rightarrow>
          (case r of
             [] \<Rightarrow> None
           | c # r' \<Rightarrow> if c = CHR '','' then map_option (apfst ((#) v)) (parse_elems n r')
                       else if c = CHR '']'' then Some ([v], r') else None))"
| "parse_fields 0 s = None"
| "parse_fields (Suc n) s =
     (case s of
        [] \<Rightarrow> None
      | q # r0 \<Rightarrow>
          if q \<noteq> DQUOTE then None
          else (case json_unesc r0 of
             None \<Rightarrow> None
           | Some (k, r1) \<Rightarrow>
               (case r1 of
                  [] \<Rightarrow> None
                | d # r2 \<Rightarrow>
                    if d \<noteq> CHR '':'' then None
                    else (case parse_val n r2 of
                       None \<Rightarrow> None
                     | Some (v, r) \<Rightarrow>
                         (case r of
                            [] \<Rightarrow> None
                          | c # r' \<Rightarrow>
                              if c = CHR '','' then map_option (apfst ((#) (k, v))) (parse_fields n r')
                              else if c = CHR ''}'' then Some ([(k, v)], r') else None)))))"

definition json_parse :: "string \<Rightarrow> jval option" where
  "json_parse s = (case parse_val (Suc (length s)) s of
     Some (v, r) \<Rightarrow> if r = [] then Some v else None | None \<Rightarrow> None)"

text \<open>A client's view of an event line: the event's name is the word after the marker.\<close>

definition parse_event :: "string \<Rightarrow> (string \<times> jval) option" where
  "parse_event s =
     (if take 7 s = ''@event '' \<and> drop (length s - 2) s = crlf then
        (let t = take (length s - 9) (drop 7 s);
             name = takeWhile (\<lambda>c. c \<noteq> CHR '' '') t;
             body = drop (Suc (length name)) t
         in map_option (Pair name) (json_parse body))
      else None)"

section \<open>Round trip\<close>

fun need :: "jval \<Rightarrow> nat" where
  "need JNull = 1"
| "need (JStr s) = 1"
| "need (JInt i) = 1"
| "need (JBool b) = 1"
| "need (JArr vs) = Suc (sum_list (map (\<lambda>v. Suc (need v)) vs))"
| "need (JObj fs) = Suc (sum_list (map (\<lambda>(k, v). Suc (need v)) fs))"

definition ends_number :: "string \<Rightarrow> bool" where
  "ends_number r \<longleftrightarrow> r = [] \<or> \<not> is_digit (hd r)"

lemma ends_number_simps [simp]:
  "ends_number []" "ends_number (CHR '','' # r)" "ends_number (CHR '']'' # r)" "ends_number (CHR ''}'' # r)"
  "ends_number (CHR 0x0D # r)"
  by (simp_all add: ends_number_def is_digit_def)

lemma takeWhile_digits:
  "\<forall>c \<in> set ds. is_digit c \<Longrightarrow> ends_number r \<Longrightarrow>
     takeWhile is_digit (ds @ r) = ds \<and> dropWhile is_digit (ds @ r) = r"
  by (cases r) (auto simp: ends_number_def takeWhile_append2 dropWhile_append2)

lemma hd_nat_dec: "nat_dec n = c # cs \<Longrightarrow> is_digit c"
  using nat_dec_digits [of n] by auto

lemma parse_int_minus:
  "parse_int (CHR ''-'' # t) = (if takeWhile is_digit t = [] then None
     else Some (- int (dec_val (takeWhile is_digit t)), dropWhile is_digit t))"
  by (simp add: parse_int_def)

lemma parse_int_plus:
  "c \<noteq> CHR ''-'' \<Longrightarrow> parse_int (c # t) = (if takeWhile is_digit (c # t) = [] then None
     else Some (int (dec_val (takeWhile is_digit (c # t))), dropWhile is_digit (c # t)))"
  unfolding parse_int_def by (simp only: list.case if_False prod.case Let_def)

lemma parse_int_dec:
  assumes "ends_number r"
  shows "parse_int (int_dec i @ r) = Some (i, r)"
proof (cases "i < 0")
  case True
  with takeWhile_digits [OF nat_dec_digits assms, of "nat (- i)"] show ?thesis
    by (simp add: parse_int_minus int_dec_def)
next
  case False
  obtain c cs where c: "nat_dec (nat i) = c # cs"
    using nat_dec_nonempty by (cases "nat_dec (nat i)") blast+
  then have "c \<noteq> CHR ''-''" using hd_nat_dec by (fastforce simp: is_digit_def)
  with parse_int_plus [of c "cs @ r"] takeWhile_digits [OF nat_dec_digits assms, of "nat i"]
  have "parse_int (nat_dec (nat i) @ r) = Some (int (dec_val (nat_dec (nat i))), r)"
    unfolding c append_Cons [symmetric] by (simp only: list.distinct if_False simp_thms)
  with False show ?thesis by (simp add: int_dec_def)
qed

lemma hd_int_dec: "int_dec i = c # cs \<Longrightarrow> is_digit c \<or> c = CHR ''-''"
  by (auto simp: int_dec_def split: if_splits dest: hd_nat_dec)

lemma parse_val_int:
  assumes "ends_number r"
  shows "parse_val (Suc n) (int_dec i @ r) = Some (JInt i, r)"
proof -
  obtain c cs where c: "int_dec i = c # cs" by (cases "int_dec i") simp_all
  from hd_int_dec [OF c] have "c \<noteq> DQUOTE" "c \<noteq> CHR ''[''" "c \<noteq> CHR ''{''" "c \<noteq> CHR ''t''" "c \<noteq> CHR ''f''"
    "c \<noteq> CHR ''n''"
    by (auto simp: is_digit_def)
  with c parse_int_dec [OF assms, of i] show ?thesis by simp
qed

lemma render_nonempty: "render v \<noteq> []"
  by (cases v) (simp_all add: jquote_def fmt_bool_def)

lemma hd_render: "hd (render v) \<noteq> CHR '']''" "hd (render v) \<noteq> CHR ''}''"
proof -
  have "hd (int_dec i) \<noteq> CHR '']'' \<and> hd (int_dec i) \<noteq> CHR ''}''" for i
    using hd_int_dec [of i] by (cases "int_dec i") (fastforce simp: is_digit_def)+
  then show "hd (render v) \<noteq> CHR '']''" "hd (render v) \<noteq> CHR ''}''"
    by (cases v; simp add: jquote_def fmt_bool_def)+
qed

lemma parse_val_str: "parse_val (Suc n) (jquote s @ r) = Some (JStr s, r)"
  by (simp add: jquote_def json_unesc_json_esc)

lemma parse_val_bool: "parse_val (Suc n) (fmt_bool b @ r) = Some (JBool b, r)"
  by (simp add: fmt_bool_def)

lemma parse_val_null: "parse_val (Suc n) (''null'' @ r) = Some (JNull, r)"
  by simp

lemma parse_val_arr:
  "r \<noteq> [] \<Longrightarrow> hd r \<noteq> CHR '']'' \<Longrightarrow>
     parse_val (Suc n) (CHR ''['' # r) = map_option (apfst JArr) (parse_elems n r)"
  by simp

lemma parse_val_obj:
  "r \<noteq> [] \<Longrightarrow> hd r \<noteq> CHR ''}'' \<Longrightarrow>
     parse_val (Suc n) (CHR ''{'' # r) = map_option (apfst JObj) (parse_fields n r)"
  by simp

lemma parse_val_empty:
  "parse_val (Suc n) (''[]'' @ r) = Some (JArr [], r)"
  "parse_val (Suc n) (''{}'' @ r) = Some (JObj [], r)"
  by simp_all

declare parse_val.simps [simp del]

lemma parse_elems_render:
  assumes "\<And>v n r. v \<in> set vs \<Longrightarrow> need v \<le> n \<Longrightarrow> ends_number r \<Longrightarrow>
      parse_val n (render v @ r) = Some (v, r)"
    and "vs \<noteq> []" and "sum_list (map (\<lambda>v. Suc (need v)) vs) \<le> n"
  shows "parse_elems n (commas (map render vs) @ CHR '']'' # r) = Some (vs, r)"
  using assms
proof (induction vs arbitrary: n)
  case Nil
  then show ?case by simp
next
  case (Cons v vs)
  from Cons.prems(3) obtain m where n: "n = Suc m" and v: "need v \<le> m"
    and vs: "sum_list (map (\<lambda>v. Suc (need v)) vs) \<le> m"
    by (cases n) auto
  have pv: "parse_val m (render v @ t) = Some (v, t)" if "ends_number t" for t
    using Cons.prems(1) v that by simp
  show ?case
  proof (cases vs)
    case Nil
    with n pv show ?thesis by simp
  next
    case (Cons w ws)
    have "parse_elems m (commas (map render vs) @ CHR '']'' # r) = Some (vs, r)"
      using Cons.IH [OF Cons.prems(1) _ vs] Cons by simp
    with Cons n pv show ?thesis by (simp add: commas_Cons2)
  qed
qed

lemma parse_fields_render:
  assumes "\<And>k v n r. (k, v) \<in> set fs \<Longrightarrow> need v \<le> n \<Longrightarrow> ends_number r \<Longrightarrow>
      parse_val n (render v @ r) = Some (v, r)"
    and "fs \<noteq> []" and "sum_list (map (\<lambda>(k, v). Suc (need v)) fs) \<le> n"
  shows "parse_fields n (commas (map (\<lambda>(k, v). jquote k @ CHR '':'' # render v) fs) @ CHR ''}'' # r)
      = Some (fs, r)"
  using assms
proof (induction fs arbitrary: n)
  case Nil
  then show ?case by simp
next
  case (Cons f fs)
  obtain k v where f: "f = (k, v)" by (cases f)
  from Cons.prems(3) f obtain m where n: "n = Suc m" and v: "need v \<le> m"
    and fs: "sum_list (map (\<lambda>(k, v). Suc (need v)) fs) \<le> m"
    by (cases n) auto
  have pv: "parse_val m (render v @ t) = Some (v, t)" if "ends_number t" for t
    using Cons.prems(1) [of k v] f v that by simp
  show ?case
  proof (cases fs)
    case Nil
    with n f pv show ?thesis by (simp add: jquote_def json_unesc_json_esc)
  next
    case (Cons g gs)
    have "parse_fields m (commas (map (\<lambda>(k, v). jquote k @ CHR '':'' # render v) fs) @ CHR ''}'' # r)
        = Some (fs, r)"
    proof (rule Cons.IH [OF _ _ fs])
      show "parse_val n' (render v' @ r') = Some (v', r')"
        if "(k', v') \<in> set fs" "need v' \<le> n'" "ends_number r'" for k' v' n' r'
        using Cons.prems(1) [of k' v' n' r'] that by simp
      show "fs \<noteq> []" using Cons by simp
    qed
    moreover have "map (\<lambda>(k, v). jquote k @ CHR '':'' # render v) fs \<noteq> []" using Cons by simp
    ultimately show ?thesis
      using n f pv by (simp add: commas_Cons) (simp add: jquote_def json_unesc_json_esc)
  qed
qed

lemma hd_commas_render:
  "vs \<noteq> [] \<Longrightarrow> hd (commas (map render vs) @ r) \<noteq> CHR '']''"
  by (cases vs) (simp_all add: commas_def render_nonempty hd_render hd_append)

lemma hd_commas_fields:
  "fs \<noteq> [] \<Longrightarrow> hd (commas (map (\<lambda>(k, v). jquote k @ CHR '':'' # render v) fs) @ r) = DQUOTE"
  by (cases fs) (auto simp: commas_def jquote_def)

lemma parse_val_render:
  "need v \<le> n \<Longrightarrow> ends_number r \<Longrightarrow> parse_val n (render v @ r) = Some (v, r)"
proof (induction v arbitrary: n r)
  case JNull
  obtain m where "n = Suc m" using JNull by (cases n) auto
  then show ?case using parse_val_null [of m r] by simp
next
  case (JStr s)
  then show ?case by (cases n) (simp_all add: parse_val_str)
next
  case (JInt i)
  then show ?case by (cases n) (simp_all add: parse_val_int)
next
  case (JBool b)
  then show ?case by (cases n) (simp_all add: parse_val_bool)
next
  case (JArr vs)
  from JArr.prems(1) obtain m where n: "n = Suc m"
    and m: "sum_list (map (\<lambda>v. Suc (need v)) vs) \<le> m"
    by (cases n) auto
  show ?case
  proof (cases "vs = []")
    case True
    then show ?thesis using parse_val_empty(1) [of m r] n by simp
  next
    case False
    have "parse_elems m (commas (map render vs) @ CHR '']'' # r) = Some (vs, r)"
      by (rule parse_elems_render [OF _ False m]) (rule JArr.IH)
    then show ?thesis
      using n hd_commas_render [OF False, of "CHR '']'' # r"] by (simp add: parse_val_arr)
  qed
next
  case (JObj fs)
  from JObj.prems(1) obtain m where n: "n = Suc m"
    and m: "sum_list (map (\<lambda>(k, v). Suc (need v)) fs) \<le> m"
    by (cases n) auto
  show ?case
  proof (cases "fs = []")
    case True
    then show ?thesis using parse_val_empty(2) [of m r] n by simp
  next
    case False
    have "parse_fields m (commas (map (\<lambda>(k, v). jquote k @ CHR '':'' # render v) fs) @ CHR ''}'' # r)
        = Some (fs, r)"
      by (rule parse_fields_render [OF _ False m]) (use JObj.IH in force)
    then show ?thesis
      using n hd_commas_fields [OF False, of "CHR ''}'' # r"] by (simp add: parse_val_obj)
  qed
qed

lemma length_commas: "sum_list (map length xs) + length xs \<le> Suc (length (commas xs))"
  by (cases xs) (simp_all add: commas_def length_concat comp_def sum_list_Suc)

lemma need_le_length: "need v \<le> length (render v)"
proof (induction v)
  case (JArr vs)
  have "sum_list (map (\<lambda>v. Suc (need v)) vs) \<le> sum_list (map (\<lambda>v. Suc (length (render v))) vs)"
    by (rule sum_list_mono) (simp add: JArr.IH)
  also have "\<dots> = sum_list (map length (map render vs)) + length (map render vs)"
    by (simp add: sum_list_Suc comp_def)
  also have "\<dots> \<le> Suc (length (commas (map render vs)))" by (rule length_commas)
  finally show ?case by simp
next
  case (JObj fs)
  let ?f = "\<lambda>(k, v). jquote k @ CHR '':'' # render v"
  have "sum_list (map (\<lambda>(k, v). Suc (need v)) fs) \<le> sum_list (map (\<lambda>x. Suc (length (?f x))) fs)"
    by (rule sum_list_mono) (use JObj.IH in \<open>fastforce intro: le_trans\<close>)
  also have "\<dots> = sum_list (map length (map ?f fs)) + length (map ?f fs)"
    by (simp add: sum_list_Suc comp_def)
  also have "\<dots> \<le> Suc (length (commas (map ?f fs)))" by (rule length_commas)
  finally show ?case by simp
qed (simp_all add: jquote_def fmt_bool_def Suc_le_eq)

lemma json_parse_render: "json_parse (render v) = Some v"
  using parse_val_render [of v "Suc (length (render v))" "[]"] need_le_length [of v]
  by (simp add: json_parse_def)

lemma parse_event_event_line:
  assumes "CHR '' '' \<notin> set name"
  shows "parse_event (event_line name v) = Some (name, v)"
proof -
  have "takeWhile (\<lambda>c. c \<noteq> CHR '' '') (name @ CHR '' '' # render v) = name"
    using assms by (induction name) auto
  then show ?thesis
    by (simp add: parse_event_def event_line_def json_parse_render Let_def)
qed

section \<open>Rendered text is a C string\<close>

lemma hex_digit_not_NUL [simp]: "d < 16 \<Longrightarrow> hex_digit d \<noteq> NUL"
proof
  assume "d < 16" and "hex_digit d = NUL"
  then have "(of_char (hex_digit d) :: nat) = 0" by simp
  with \<open>d < 16\<close> show False by (simp add: hex_digit_def split: if_splits)
qed

lemma nul_free_json_esc [simp]: "nul_free (json_esc s)"
proof -
  have "nul_free (esc_char c)" for c
  proof (cases "esc_rep c")
    case None
    then show ?thesis by (simp add: esc_char_def) (auto simp: esc_rep_def split: if_splits)
  next
    case (Some r)
    then show ?thesis by (auto simp: esc_char_def esc_rep_def u00_escape_def less_mult_imp_div_less split: if_splits)
  qed
  then show ?thesis by (induction s) (simp_all add: json_esc_def)
qed

lemma nul_free_commas: "\<forall>x \<in> set xs. nul_free x \<Longrightarrow> nul_free (commas xs)"
  by (induction xs rule: induct_list012) (simp_all add: commas_Cons2)

lemma nul_free_render [simp]: "nul_free (render v)"
  by (induction v) (auto simp: jquote_def fmt_bool_def intro!: nul_free_commas)

lemma nul_free_event_line [simp]: "nul_free name \<Longrightarrow> nul_free (event_line name v)"
  by (simp add: event_line_def crlf_def)

end
