(* ===== verification/Outbox.thy ===== *)
theory Outbox
  imports Session
begin

text \<open>
  The output path of a connection: the store of session blocks, \<^verbatim>\<open>hg_session_queue\<close>
  (\<^verbatim>\<open>asm/session.asm\<close>) and the wrappers of \<^verbatim>\<open>ffi/format.c\<close> over it.  The
  locale \<open>outbox\<close> states what the emitters rely on: a bounded buffer that keeps a prefix of the
  stream of everything queued.
\<close>

section \<open>The store\<close>

text \<open>Values that the assembly reads although nothing defines them: registers that the calling convention lets a
  called function change, read after the call, arguments outside the domain of a library function, and bytes of a
  static buffer behind the text put there last.  They are arbitrary functions of what is known at the call.

    \<^item> \<open>u_strlen_rsi m t\<close>: the text at \<^verbatim>\<open>rsi\<close> after \<^verbatim>\<open>strlen\<close> of the text
      \<open>m\<close>, when the text there was \<open>t\<close> (\<^verbatim>\<open>add_action\<close>).
    \<^item> \<open>u_tolower\<close> is \<^verbatim>\<open>tolower\<close> on all 32-bit arguments, \<open>u_tolower_rdi p\<close> what
      \<^verbatim>\<open>rdi\<close> holds after a call with \<open>p\<close> in it, and \<open>u_stack\<close> the stack pointer in the
      search by part of a name (\<^verbatim>\<open>grid_lower_inplace\<close>, \<^verbatim>\<open>grid_match_world\<close>).
    \<^item> \<open>u_strcmp_r8\<close>: the id and url found by way of \<^verbatim>\<open>r8\<close> after \<^verbatim>\<open>strcmp\<close>,
      for those of the row meant, or the address, when it cannot be read (\<^verbatim>\<open>hg_cmd_travel\<close>).
    \<^item> \<open>u_strcmp_rdi t\<close>: the text at \<^verbatim>\<open>rdi\<close> after \<^verbatim>\<open>strcmp\<close> with \<open>t\<close> there
      (\<^verbatim>\<open>hg_cmd_ping\<close>).
    \<^item> \<open>u_memcpy_up\<close>: whether \<^verbatim>\<open>memcpy\<close> copies overlapping ranges upwards, byte by byte
      (\<^verbatim>\<open>inv_remove_slot\<close>).
    \<^item> \<open>u_behind i\<close>: byte \<open>i\<close> of the text buffer before the present text was put there
      (\<^verbatim>\<open>queue_buf_h\<close>).\<close>

record undefs =
  u_strlen_rsi :: "string \<Rightarrow> string \<Rightarrow> string"
  u_tolower :: "i32 \<Rightarrow> i32"
  u_tolower_rdi :: "addr \<Rightarrow> addr"
  u_stack :: addr
  u_strcmp_r8 :: "string \<times> string \<Rightarrow> addr + string \<times> string"
  u_strcmp_rdi :: "string \<Rightarrow> string"
  u_memcpy_up :: bool
  u_behind :: "nat \<Rightarrow> char"

text \<open>Session blocks by address (0 is NULL) and the log of writable-callback requests handed to
  libwebsockets, oldest first; the undefined values are carried along and never change.\<close>

record store =
  sess :: "addr \<Rightarrow> session"
  writable :: "addr list"
  undefs_of :: undefs

definition upd_sess :: "addr \<Rightarrow> (session \<Rightarrow> session) \<Rightarrow> 'a store_scheme \<Rightarrow> 'a store_scheme" where
  "upd_sess a f st = st\<lparr>sess := (sess st)(a := f (sess st a))\<rparr>"

lemma sess_upd_sess [simp]: "sess (upd_sess a f st) = (sess st)(a := f (sess st a))"
  by (simp add: upd_sess_def)

lemma writable_upd_sess [simp]: "writable (upd_sess a f st) = writable st"
  by (simp add: upd_sess_def)

lemma more_upd_sess [simp]: "store.more (upd_sess a f st) = store.more st"
  by (simp add: upd_sess_def)

lemma undefs_upd_sess [simp]: "undefs_of (upd_sess a f st) = undefs_of st"
  by (simp add: upd_sess_def)

text \<open>The undefined values as the code hopes for them: registers kept, \<^verbatim>\<open>memcpy\<close> upwards, letters lowered
  (and any other argument of \<^verbatim>\<open>tolower\<close> returned as it is, as the GNU library does), a buffer of NULs.\<close>

definition tame :: undefs where
  "tame = \<lparr>u_strlen_rsi = (\<lambda>_ t. t),
     u_tolower = (\<lambda>x. if 65 \<le> uint x \<and> uint x \<le> 90 then x + 32 else x),
     u_tolower_rdi = (\<lambda>p. p), u_stack = 4096, u_strcmp_r8 = Inr, u_strcmp_rdi = (\<lambda>t. t), u_memcpy_up = True,
     u_behind = (\<lambda>_. NUL)\<rparr>"

section \<open>Queueing\<close>

definition hg_ws_request_write :: "addr \<Rightarrow> 'a store_scheme \<Rightarrow> 'a store_scheme" where
  "hg_ws_request_write socket st = (if socket = 0 then st else st\<lparr>writable := writable st @ [socket]\<rparr>)"

definition hg_session_queue :: "addr \<Rightarrow> addr \<Rightarrow> string \<Rightarrow> 'a store_scheme \<Rightarrow> 'a store_scheme" where
  "hg_session_queue a wsi data st =
     (let room = OUT_CAP - length (s_out (sess st a));
          n = (if length data \<le> room then length data else room);
          st1 = (if n = 0 then st else upd_sess a (\<lambda>s. s\<lparr>s_out := s_out s @ take n data\<rparr>) st)
      in hg_ws_request_write wsi st1)"

definition hg_queue :: "addr \<Rightarrow> string option \<Rightarrow> 'a store_scheme \<Rightarrow> 'a store_scheme" where
  "hg_queue a data st =
     (case data of
        None \<Rightarrow> st
      | Some d \<Rightarrow> if a = 0 \<or> d = [] then st else hg_session_queue a (s_wsi (sess st a)) d st)"

definition hg_queue_cstr :: "addr \<Rightarrow> string option \<Rightarrow> 'a store_scheme \<Rightarrow> 'a store_scheme" where
  "hg_queue_cstr a s st = (case s of None \<Rightarrow> st | Some t \<Rightarrow> hg_queue a (Some (cstr t)) st)"

definition SCRATCH :: nat where "SCRATCH = 4096"

definition hg_queue_line :: "addr \<Rightarrow> string option \<Rightarrow> 'a store_scheme \<Rightarrow> 'a store_scheme" where
  "hg_queue_line a line st =
     (case line of
        None \<Rightarrow> st
      | Some t \<Rightarrow> if length (cstr t) + 3 > SCRATCH then st else hg_queue a (Some (cstr t @ crlf)) st)"

definition out_of :: "addr \<Rightarrow> 'a store_scheme \<Rightarrow> string" where
  "out_of a st = s_out (sess st a)"

definition outs_ok :: "'a store_scheme \<Rightarrow> bool" where
  "outs_ok st \<longleftrightarrow> (\<forall>a. out_ok (sess st a))"

text \<open>Everything of a session but its outbox.\<close>

definition strip_out :: "session \<Rightarrow> session" where
  "strip_out s = s\<lparr>s_out := []\<rparr>"

lemma request_write_simps [simp]:
  "sess (hg_ws_request_write w st) = sess st"
  "store.more (hg_ws_request_write w st) = store.more st"
  "undefs_of (hg_ws_request_write w st) = undefs_of st"
  by (simp_all add: hg_ws_request_write_def)

lemma hg_session_queue_out:
  assumes "outs_ok st"
  shows "out_of a (hg_session_queue a wsi d st) = take OUT_CAP (out_of a st @ d)"
proof -
  have "length (s_out (sess st a)) \<le> OUT_CAP"
    using assms by (simp add: outs_ok_def out_ok_def)
  then show ?thesis
    by (auto simp: hg_session_queue_def out_of_def Let_def)
qed

lemma hg_session_queue_strip:
  "strip_out (sess (hg_session_queue a wsi d st) b) = strip_out (sess st b)"
  by (simp add: hg_session_queue_def strip_out_def Let_def)

lemma hg_session_queue_frame:
  "b \<noteq> a \<Longrightarrow> sess (hg_session_queue a wsi d st) b = sess st b"
  by (simp add: hg_session_queue_def Let_def)

lemma hg_session_queue_more [simp]:
  "store.more (hg_session_queue a wsi d st) = store.more st"
  by (simp add: hg_session_queue_def Let_def)

lemma undefs_session_queue [simp]: "undefs_of (hg_session_queue a wsi d st) = undefs_of st"
  by (simp add: hg_session_queue_def Let_def)

lemma hg_session_queue_ok:
  assumes "outs_ok st"
  shows "outs_ok (hg_session_queue a wsi d st)"
proof -
  have "length (out_of b (hg_session_queue a wsi d st)) \<le> OUT_CAP" for b
  proof (cases "b = a")
    case True
    then show ?thesis using hg_session_queue_out [OF assms, of a wsi d] by simp
  next
    case False
    then show ?thesis
      using assms by (simp add: out_of_def outs_ok_def out_ok_def hg_session_queue_frame)
  qed
  then show ?thesis by (simp add: outs_ok_def out_ok_def out_of_def)
qed

section \<open>The contract of an outbox\<close>

text \<open>
  What an emitter may rely on: queueing keeps the buffer within its capacity, changes no other
  buffer, and appends as much of the data as fits.
\<close>

locale outbox =
  fixes cap :: nat
    and put :: "addr \<Rightarrow> string \<Rightarrow> 's \<Rightarrow> 's"
    and get :: "addr \<Rightarrow> 's \<Rightarrow> string"
    and inv :: "'s \<Rightarrow> bool"
  assumes inv_cap: "inv s \<Longrightarrow> length (get a s) \<le> cap"
    and put_get: "inv s \<Longrightarrow> a \<noteq> 0 \<Longrightarrow> get a (put a d s) = take cap (get a s @ d)"
    and put_frame: "a \<noteq> b \<Longrightarrow> get b (put a d s) = get b s"
    and put_inv: "inv s \<Longrightarrow> inv (put a d s)"
begin

lemma fold_inv: "inv s \<Longrightarrow> inv (fold (put a) ds s)"
  by (induction ds arbitrary: s) (simp_all add: put_inv)

lemma fold_frame: "a \<noteq> b \<Longrightarrow> get b (fold (put a) ds s) = get b s"
  by (induction ds arbitrary: s) (simp_all add: put_frame)

lemma take_append_take: "take n (take n xs @ ys) = take n (xs @ ys)"
  by (cases "n \<le> length xs") simp_all

lemma fold_get:
  "inv s \<Longrightarrow> a \<noteq> 0 \<Longrightarrow> get a (fold (put a) ds s) = take cap (get a s @ concat ds)"
proof (induction ds arbitrary: s)
  case Nil
  then show ?case using inv_cap by simp
next
  case (Cons d ds)
  then have "get a (fold (put a) (d # ds) s) = take cap (take cap (get a s @ d) @ concat ds)"
    using put_inv by (simp add: put_get)
  then show ?case by (simp only: take_append_take append_assoc concat.simps)
qed

lemma fold_fits:
  "inv s \<Longrightarrow> a \<noteq> 0 \<Longrightarrow> length (get a s) + length (concat ds) \<le> cap \<Longrightarrow>
     get a (fold (put a) ds s) = get a s @ concat ds"
  by (simp add: fold_get)

lemma fold_keeps:
  "inv s \<Longrightarrow> a \<noteq> 0 \<Longrightarrow> take (length (get a s)) (get a (fold (put a) ds s)) = get a s"
  using inv_cap by (simp add: fold_get min_def)

end

lemma hg_queue_Some:
  "a \<noteq> 0 \<Longrightarrow> d \<noteq> [] \<Longrightarrow> hg_queue a (Some d) st = hg_session_queue a (s_wsi (sess st a)) d st"
  by (simp add: hg_queue_def)

lemma hg_queue_Nil [simp]: "hg_queue a (Some []) st = st"
  by (simp add: hg_queue_def)

lemma hg_queue_strip [simp]: "strip_out (sess (hg_queue a d st) b) = strip_out (sess st b)"
  by (auto simp: hg_queue_def hg_session_queue_strip split: option.splits)

lemma hg_queue_more [simp]: "store.more (hg_queue a d st) = store.more st"
  by (auto simp: hg_queue_def split: option.splits)

lemma hg_queue_frame [simp]: "b \<noteq> a \<Longrightarrow> sess (hg_queue a d st) b = sess st b"
  by (auto simp: hg_queue_def hg_session_queue_frame split: option.splits)

lemma undefs_queue [simp]: "undefs_of (hg_queue a d st) = undefs_of st"
  by (auto simp: hg_queue_def split: option.splits)

interpretation sq: outbox OUT_CAP "\<lambda>a d. hg_session_queue a wsi d" out_of outs_ok for wsi
proof (unfold_locales, goal_cases)
  case (1 s a)
  then show ?case by (simp add: outs_ok_def out_ok_def out_of_def)
next
  case (2 s a d)
  then show ?case by (simp add: hg_session_queue_out)
next
  case (3 a b d s)
  then show ?case by (simp add: out_of_def hg_session_queue_frame)
next
  case (4 s a d)
  then show ?case by (simp add: hg_session_queue_ok)
qed

interpretation hq: outbox OUT_CAP "\<lambda>a d. hg_queue a (Some d)" out_of outs_ok
proof (unfold_locales, goal_cases)
  case (1 s a)
  then show ?case by (rule sq.inv_cap)
next
  case (2 s a d)
  then show ?case
    using sq.inv_cap [of s a] by (cases "d = []") (simp_all add: hg_queue_Some hg_session_queue_out)
next
  case (3 a b d s)
  then show ?case by (simp add: out_of_def)
next
  case (4 s a d)
  then show ?case by (cases "a = 0 \<or> d = []") (auto simp: hg_queue_def hg_session_queue_ok)
qed

text \<open>The messages an emitter queues, in order.\<close>

definition queue_all :: "addr \<Rightarrow> string list \<Rightarrow> 'a store_scheme \<Rightarrow> 'a store_scheme" where
  "queue_all a ms st = fold (\<lambda>m. hg_queue a (Some m)) ms st"

lemma queue_all_simps [simp]:
  "queue_all a [] st = st"
  "queue_all a (m # ms) st = queue_all a ms (hg_queue a (Some m) st)"
  by (simp_all add: queue_all_def)

lemma queue_all_append: "queue_all a (ms @ ns) st = queue_all a ns (queue_all a ms st)"
  by (simp add: queue_all_def)

lemma queue_all_strip [simp]: "strip_out (sess (queue_all a ms st) b) = strip_out (sess st b)"
  by (induction ms arbitrary: st) simp_all

lemma queue_all_more [simp]: "store.more (queue_all a ms st) = store.more st"
  by (induction ms arbitrary: st) simp_all

lemma strip_out_fields [simp]:
  "s_state (strip_out s) = s_state s"
  "s_name (strip_out s) = s_name s"
  "s_race (strip_out s) = s_race s"
  "s_room (strip_out s) = s_room s"
  "s_hp (strip_out s) = s_hp s"
  "s_max_hp (strip_out s) = s_max_hp s"
  "s_level (strip_out s) = s_level s"
  "s_xp (strip_out s) = s_xp s"
  "s_gold (strip_out s) = s_gold s"
  "s_morality (strip_out s) = s_morality s"
  "s_addiction (strip_out s) = s_addiction s"
  "s_ashsworn (strip_out s) = s_ashsworn s"
  "s_resisted (strip_out s) = s_resisted s"
  "s_poisoned (strip_out s) = s_poisoned s"
  "s_faction (strip_out s) = s_faction s"
  "s_position (strip_out s) = s_position s"
  "s_title (strip_out s) = s_title s"
  "s_eq_weapon (strip_out s) = s_eq_weapon s"
  "s_eq_head (strip_out s) = s_eq_head s"
  "s_eq_body (strip_out s) = s_eq_body s"
  "s_eq_hands (strip_out s) = s_eq_hands s"
  "s_eq_feet (strip_out s) = s_eq_feet s"
  "s_in_combat (strip_out s) = s_in_combat s"
  "s_mkt_resolved (strip_out s) = s_mkt_resolved s"
  "s_last_freed (strip_out s) = s_last_freed s"
  "s_wsi (strip_out s) = s_wsi s"
  "s_last_tick (strip_out s) = s_last_tick s"
  "s_close (strip_out s) = s_close s"
  "s_rx_len (strip_out s) = s_rx_len s"
  "s_rx (strip_out s) = s_rx s"
  "s_secret_hash (strip_out s) = s_secret_hash s"
  "s_keeper_authed (strip_out s) = s_keeper_authed s"
  "s_pass_mode (strip_out s) = s_pass_mode s"
  by (simp_all add: strip_out_def)

lemma strip_out_eqD:
  "strip_out s = strip_out t \<Longrightarrow> (\<And>s. f (strip_out s) = f s) \<Longrightarrow> f s = f t"
  by metis

text \<open>Queueing changes no other cell, so every cell of a session may be read before or after.\<close>

lemma hg_queue_cells [simp]:
  "s_state (sess (hg_queue a d st) b) = s_state (sess st b)"
  "s_name (sess (hg_queue a d st) b) = s_name (sess st b)"
  "s_race (sess (hg_queue a d st) b) = s_race (sess st b)"
  "s_room (sess (hg_queue a d st) b) = s_room (sess st b)"
  "s_hp (sess (hg_queue a d st) b) = s_hp (sess st b)"
  "s_max_hp (sess (hg_queue a d st) b) = s_max_hp (sess st b)"
  "s_level (sess (hg_queue a d st) b) = s_level (sess st b)"
  "s_xp (sess (hg_queue a d st) b) = s_xp (sess st b)"
  "s_gold (sess (hg_queue a d st) b) = s_gold (sess st b)"
  "s_morality (sess (hg_queue a d st) b) = s_morality (sess st b)"
  "s_addiction (sess (hg_queue a d st) b) = s_addiction (sess st b)"
  "s_ashsworn (sess (hg_queue a d st) b) = s_ashsworn (sess st b)"
  "s_resisted (sess (hg_queue a d st) b) = s_resisted (sess st b)"
  "s_poisoned (sess (hg_queue a d st) b) = s_poisoned (sess st b)"
  "s_faction (sess (hg_queue a d st) b) = s_faction (sess st b)"
  "s_position (sess (hg_queue a d st) b) = s_position (sess st b)"
  "s_title (sess (hg_queue a d st) b) = s_title (sess st b)"
  "s_eq_weapon (sess (hg_queue a d st) b) = s_eq_weapon (sess st b)"
  "s_eq_head (sess (hg_queue a d st) b) = s_eq_head (sess st b)"
  "s_eq_body (sess (hg_queue a d st) b) = s_eq_body (sess st b)"
  "s_eq_hands (sess (hg_queue a d st) b) = s_eq_hands (sess st b)"
  "s_eq_feet (sess (hg_queue a d st) b) = s_eq_feet (sess st b)"
  "s_in_combat (sess (hg_queue a d st) b) = s_in_combat (sess st b)"
  "s_mkt_resolved (sess (hg_queue a d st) b) = s_mkt_resolved (sess st b)"
  "s_last_freed (sess (hg_queue a d st) b) = s_last_freed (sess st b)"
  "s_wsi (sess (hg_queue a d st) b) = s_wsi (sess st b)"
  "s_last_tick (sess (hg_queue a d st) b) = s_last_tick (sess st b)"
  "s_close (sess (hg_queue a d st) b) = s_close (sess st b)"
  "s_rx_len (sess (hg_queue a d st) b) = s_rx_len (sess st b)"
  "s_rx (sess (hg_queue a d st) b) = s_rx (sess st b)"
  "s_secret_hash (sess (hg_queue a d st) b) = s_secret_hash (sess st b)"
  "s_keeper_authed (sess (hg_queue a d st) b) = s_keeper_authed (sess st b)"
  "s_pass_mode (sess (hg_queue a d st) b) = s_pass_mode (sess st b)"
  by (rule strip_out_eqD [OF hg_queue_strip]; simp)+

lemma hg_session_queue_cells [simp]:
  "s_state (sess (hg_session_queue a w d st) b) = s_state (sess st b)"
  "s_name (sess (hg_session_queue a w d st) b) = s_name (sess st b)"
  "s_race (sess (hg_session_queue a w d st) b) = s_race (sess st b)"
  "s_room (sess (hg_session_queue a w d st) b) = s_room (sess st b)"
  "s_hp (sess (hg_session_queue a w d st) b) = s_hp (sess st b)"
  "s_max_hp (sess (hg_session_queue a w d st) b) = s_max_hp (sess st b)"
  "s_level (sess (hg_session_queue a w d st) b) = s_level (sess st b)"
  "s_xp (sess (hg_session_queue a w d st) b) = s_xp (sess st b)"
  "s_gold (sess (hg_session_queue a w d st) b) = s_gold (sess st b)"
  "s_morality (sess (hg_session_queue a w d st) b) = s_morality (sess st b)"
  "s_addiction (sess (hg_session_queue a w d st) b) = s_addiction (sess st b)"
  "s_ashsworn (sess (hg_session_queue a w d st) b) = s_ashsworn (sess st b)"
  "s_resisted (sess (hg_session_queue a w d st) b) = s_resisted (sess st b)"
  "s_poisoned (sess (hg_session_queue a w d st) b) = s_poisoned (sess st b)"
  "s_faction (sess (hg_session_queue a w d st) b) = s_faction (sess st b)"
  "s_position (sess (hg_session_queue a w d st) b) = s_position (sess st b)"
  "s_title (sess (hg_session_queue a w d st) b) = s_title (sess st b)"
  "s_eq_weapon (sess (hg_session_queue a w d st) b) = s_eq_weapon (sess st b)"
  "s_eq_head (sess (hg_session_queue a w d st) b) = s_eq_head (sess st b)"
  "s_eq_body (sess (hg_session_queue a w d st) b) = s_eq_body (sess st b)"
  "s_eq_hands (sess (hg_session_queue a w d st) b) = s_eq_hands (sess st b)"
  "s_eq_feet (sess (hg_session_queue a w d st) b) = s_eq_feet (sess st b)"
  "s_in_combat (sess (hg_session_queue a w d st) b) = s_in_combat (sess st b)"
  "s_mkt_resolved (sess (hg_session_queue a w d st) b) = s_mkt_resolved (sess st b)"
  "s_last_freed (sess (hg_session_queue a w d st) b) = s_last_freed (sess st b)"
  "s_wsi (sess (hg_session_queue a w d st) b) = s_wsi (sess st b)"
  "s_last_tick (sess (hg_session_queue a w d st) b) = s_last_tick (sess st b)"
  "s_close (sess (hg_session_queue a w d st) b) = s_close (sess st b)"
  "s_rx_len (sess (hg_session_queue a w d st) b) = s_rx_len (sess st b)"
  "s_rx (sess (hg_session_queue a w d st) b) = s_rx (sess st b)"
  "s_secret_hash (sess (hg_session_queue a w d st) b) = s_secret_hash (sess st b)"
  "s_keeper_authed (sess (hg_session_queue a w d st) b) = s_keeper_authed (sess st b)"
  "s_pass_mode (sess (hg_session_queue a w d st) b) = s_pass_mode (sess st b)"
  by (rule strip_out_eqD [OF hg_session_queue_strip]; simp)+

lemma queue_all_cells [simp]:
  "s_state (sess (queue_all a ms st) b) = s_state (sess st b)"
  "s_name (sess (queue_all a ms st) b) = s_name (sess st b)"
  "s_race (sess (queue_all a ms st) b) = s_race (sess st b)"
  "s_room (sess (queue_all a ms st) b) = s_room (sess st b)"
  "s_hp (sess (queue_all a ms st) b) = s_hp (sess st b)"
  "s_max_hp (sess (queue_all a ms st) b) = s_max_hp (sess st b)"
  "s_level (sess (queue_all a ms st) b) = s_level (sess st b)"
  "s_xp (sess (queue_all a ms st) b) = s_xp (sess st b)"
  "s_gold (sess (queue_all a ms st) b) = s_gold (sess st b)"
  "s_morality (sess (queue_all a ms st) b) = s_morality (sess st b)"
  "s_addiction (sess (queue_all a ms st) b) = s_addiction (sess st b)"
  "s_ashsworn (sess (queue_all a ms st) b) = s_ashsworn (sess st b)"
  "s_resisted (sess (queue_all a ms st) b) = s_resisted (sess st b)"
  "s_poisoned (sess (queue_all a ms st) b) = s_poisoned (sess st b)"
  "s_faction (sess (queue_all a ms st) b) = s_faction (sess st b)"
  "s_position (sess (queue_all a ms st) b) = s_position (sess st b)"
  "s_title (sess (queue_all a ms st) b) = s_title (sess st b)"
  "s_eq_weapon (sess (queue_all a ms st) b) = s_eq_weapon (sess st b)"
  "s_eq_head (sess (queue_all a ms st) b) = s_eq_head (sess st b)"
  "s_eq_body (sess (queue_all a ms st) b) = s_eq_body (sess st b)"
  "s_eq_hands (sess (queue_all a ms st) b) = s_eq_hands (sess st b)"
  "s_eq_feet (sess (queue_all a ms st) b) = s_eq_feet (sess st b)"
  "s_in_combat (sess (queue_all a ms st) b) = s_in_combat (sess st b)"
  "s_mkt_resolved (sess (queue_all a ms st) b) = s_mkt_resolved (sess st b)"
  "s_last_freed (sess (queue_all a ms st) b) = s_last_freed (sess st b)"
  "s_wsi (sess (queue_all a ms st) b) = s_wsi (sess st b)"
  "s_last_tick (sess (queue_all a ms st) b) = s_last_tick (sess st b)"
  "s_close (sess (queue_all a ms st) b) = s_close (sess st b)"
  "s_rx_len (sess (queue_all a ms st) b) = s_rx_len (sess st b)"
  "s_rx (sess (queue_all a ms st) b) = s_rx (sess st b)"
  "s_secret_hash (sess (queue_all a ms st) b) = s_secret_hash (sess st b)"
  "s_keeper_authed (sess (queue_all a ms st) b) = s_keeper_authed (sess st b)"
  "s_pass_mode (sess (queue_all a ms st) b) = s_pass_mode (sess st b)"
  by (rule strip_out_eqD [OF queue_all_strip]; simp)+

lemma hg_queue_cstr_eq: "hg_queue_cstr a (Some t) st = hg_queue a (Some (cstr t)) st"
  by (simp add: hg_queue_cstr_def)

lemma hg_queue_line_eq:
  "length (cstr t) + 3 \<le> SCRATCH \<Longrightarrow> hg_queue_line a (Some t) st = hg_queue a (Some (cstr t @ crlf)) st"
  by (simp add: hg_queue_line_def)

text \<open>C7. Whatever is queued on a connection, and in whatever pieces, its outbox holds exactly the
  first 16384 bytes of the stream (what it held, then the messages in order); the other connections'
  outboxes are untouched and no outbox ever exceeds its array.\<close>

theorem outbox_is_bounded_stream:
  assumes "outs_ok st" and "a \<noteq> 0"
  shows "out_of a (queue_all a ms st) = take OUT_CAP (out_of a st @ concat ms)
    \<and> outs_ok (queue_all a ms st)
    \<and> (\<forall>b. b \<noteq> a \<longrightarrow> out_of b (queue_all a ms st) = out_of b st)"
proof (intro conjI allI impI)
  show "out_of a (queue_all a ms st) = take OUT_CAP (out_of a st @ concat ms)"
    unfolding queue_all_def by (rule hq.fold_get [OF assms])
  show "outs_ok (queue_all a ms st)"
    unfolding queue_all_def by (rule hq.fold_inv [OF assms(1)])
  show "out_of b (queue_all a ms st) = out_of b st" if "b \<noteq> a" for b
    unfolding queue_all_def using that by (intro hq.fold_frame) simp
qed

text \<open>A session block and its outbox in a store of its own.\<close>

definition one_outbox :: "string \<Rightarrow> store" where
  "one_outbox out = \<lparr>sess = (\<lambda>_. zero_session\<lparr>s_out := out\<rparr>), writable = [], undefs_of = tame\<rparr>"

theorem outbox_is_bounded_stream_witness:
  "outs_ok (one_outbox []) \<and>
   out_of 7 (queue_all 7 [''look'', crlf] (one_outbox [])) = ''look'' @ crlf"
proof -
  have ok: "outs_ok (one_outbox [])" by (simp add: one_outbox_def outs_ok_def out_ok_def)
  have "out_of 7 (one_outbox []) = []" by (simp add: one_outbox_def out_of_def)
  with outbox_is_bounded_stream [OF ok, of 7 "[''look'', crlf]"] ok show ?thesis
    by (simp add: OUT_CAP_def)
qed

end
