(* ===== verification/Rooms.thy ===== *)
theory Rooms
  imports Json Session
begin

text \<open>
  \<^verbatim>\<open>asm/rooms.asm\<close>: the 28 rooms with their client-facing strings, the exit table, the field
  accessors and \<^verbatim>\<open>hg_room_move\<close>.  Rooms are numbered as \<^verbatim>\<open>include/state.inc\<close>
  numbers them.  The lemmas check the tables against each other: what a room announces, where its
  exits lead, that every exit has a way back and that the whole map is connected.
\<close>

section \<open>The tables\<close>

record room =
  r_id :: string
  r_name :: string
  r_desc :: string
  r_exits :: string
  r_mobs :: string
  r_actions :: string

definition ROOM_COUNT :: nat where "ROOM_COUNT = 28"

definition rat_mobs :: string where
  "rat_mobs =
     ''[{\"id\":\"rat\",\"name\":\"a glow-rat\"}]''"

definition leech_mobs :: string where
  "leech_mobs =
     ''[{\"id\":\"leech\",\"name\":\"a data-leech\"}]''"

definition raider_mobs :: string where
  "raider_mobs =
     ''[{\"id\":\"raider\",\"name\":\"a wastes raider\"}]''"

definition trooper_mobs :: string where
  "trooper_mobs =
     ''[{\"id\":\"trooper\",\"name\":\"a Cinder Front trooper\"}]''"

definition ashmonger_mobs :: string where
  "ashmonger_mobs =
     ''[{\"id\":\"ashmonger\",\"name\":\"the Ashmonger\"}]''"

definition custodian_mobs :: string where
  "custodian_mobs =
     ''[{\"id\":\"custodian\",\"name\":\"the Custodian\"}]''"

definition actions_nexus :: string where
  "actions_nexus =
     ''[{\"verb\":\"down\",\"label\":\"descend into the service tunnels\",\"kind\":\"move\"},'' @
     ''{\"verb\":\"east\",\"label\":\"enter the workshop\",\"kind\":\"move\"},'' @
     ''{\"verb\":\"north\",\"label\":\"walk to the market\",\"kind\":\"move\"},'' @
     ''{\"verb\":\"west\",\"label\":\"enter the tavern\",\"kind\":\"move\"}]''"

definition actions_tunnels :: string where
  "actions_tunnels =
     ''[{\"verb\":\"attack rat\",\"label\":\"attack the glow-rat\",\"kind\":\"fight\"},'' @
     ''{\"verb\":\"down\",\"label\":\"descend toward the sump\",\"kind\":\"move\"},'' @
     ''{\"verb\":\"up\",\"label\":\"return to the nexus\",\"kind\":\"move\"}]''"

definition actions_market :: string where
  "actions_market =
     ''[{\"verb\":\"defend\",\"label\":\"stand with the people the Front would erase\",\"kind\":\"moral\",\"valence\":\"virtuous\"},'' @
     ''{\"verb\":\"join\",\"label\":\"take the Front coin and help sort the living\",\"kind\":\"moral\",\"valence\":\"grave\"},'' @
     ''{\"verb\":\"sell\",\"label\":\"sell salvage for gold\",\"kind\":\"economy\"},'' @
     ''{\"verb\":\"steal\",\"label\":\"steal from the stalls\",\"kind\":\"economy\",\"valence\":\"corrupt\"}]''"

definition actions_tavern :: string where
  "actions_tavern =
     ''[{\"verb\":\"talk\",\"label\":\"talk to whoever shares your room\",\"kind\":\"social\"},'' @
     ''{\"verb\":\"buy dust\",\"label\":\"buy dust: 10 gold a packet (using it heals, but addicts and corrupts)\",\"kind\":\"moral\",\"valence\":\"corrupt\"}]''"

definition actions_lock :: string where
  "actions_lock =
     ''[{\"verb\":\"defend\",\"label\":\"open the custody line and move people to safety\",\"kind\":\"moral\",\"valence\":\"virtuous\"},'' @
     ''{\"verb\":\"join\",\"label\":\"take the Front manifest and work the line\",\"kind\":\"moral\",\"valence\":\"corrupt\"}]''"

definition actions_repeater :: string where
  "actions_repeater =
     ''[{\"verb\":\"witness\",\"label\":\"preserve the handoff record without alteration\",\"kind\":\"moral\",\"valence\":\"virtuous\"}]''"

definition room_nexus :: room where
  "room_nexus = \<lparr>r_id = ''nexus'', r_name = ''Basalt Nexus'',
     r_desc = ''Black columns hold transfer marks whose senders are gone. Routes lead to a market, workshop, tavern, and the service tunnels.'',
     r_exits = ''[\"down\",\"east\",\"north\",\"west\"]'', r_mobs = ''[]'', r_actions = actions_nexus\<rparr>"

definition room_tavern :: room where
  "room_tavern = \<lparr>r_id = ''tavern'', r_name = ''The Unsealed Cup'',
     r_desc = ''A low bar built from relay housings. People come here to forget what they were trusted to carry.'',
     r_exits = ''[\"east\"]'', r_mobs = ''[]'', r_actions = actions_tavern\<rparr>"

definition room_market :: room where
  "room_market = \<lparr>r_id = ''market'', r_name = ''The Transfer Market'',
     r_desc = ''Salvage and sealed cases hang from wire loops. A Cinder Front recruiter offers coin for help sorting the living.'',
     r_exits = ''[\"north\",\"south\"]'', r_mobs = ''[]'', r_actions = actions_market\<rparr>"

definition room_holding_pit :: room where
  "room_holding_pit = \<lparr>r_id = ''holding_pit'', r_name = ''The Holding Pit'',
     r_desc = ''A sunken cell beneath a dead loading rail. Names remain where guards failed to paint fast enough.'',
     r_exits = ''[\"south\"]'', r_mobs = ''[]'', r_actions = ''[]''\<rparr>"

definition room_workshop :: room where
  "room_workshop = \<lparr>r_id = ''workshop'', r_name = ''The Relay Workshop'',
     r_desc = ''Hand tools and opened cabinets cover every bench. A ladder climbs to the roof.'',
     r_exits = ''[\"up\",\"west\"]'', r_mobs = ''[]'', r_actions = ''[]''\<rparr>"

definition room_roof :: room where
  "room_roof = \<lparr>r_id = ''roof'', r_name = ''The Basalt Roof'',
     r_desc = ''Cut stone plates face a grey sky. The wastes open north and Relay Cut begins east.'',
     r_exits = ''[\"down\",\"east\",\"north\"]'', r_mobs = ''[]'', r_actions = ''[]''\<rparr>"

definition room_tunnels :: room where
  "room_tunnels = \<lparr>r_id = ''tunnels'', r_name = ''Service Tunnels'',
     r_desc = ''Cable hooks line damp concrete. A luminous rodent watches beneath a broken custody seal.'',
     r_exits = ''[\"down\",\"up\"]'', r_mobs = rat_mobs, r_actions = actions_tunnels\<rparr>"

definition room_sump :: room where
  "room_sump = \<lparr>r_id = ''sump'', r_name = ''The Black Sump'',
     r_desc = ''Runoff gathers around old conduit. A shaft continues into submerged machinery.'',
     r_exits = ''[\"down\",\"up\"]'', r_mobs = ''[]'', r_actions = ''[]''\<rparr>"

definition room_floodgate :: room where
  "room_floodgate = \<lparr>r_id = ''floodgate'', r_name = ''The Floodgate'',
     r_desc = ''A sealed bulkhead groans under pressure. Cold storage waits beyond.'',
     r_exits = ''[\"north\",\"up\"]'', r_mobs = ''[]'', r_actions = ''[]''\<rparr>"

definition room_coldrow :: room where
  "room_coldrow = \<lparr>r_id = ''coldrow'', r_name = ''Cold Storage Row'',
     r_desc = ''Dead drives sweat condensation while something pale moves between cabinets.'',
     r_exits = ''[\"east\",\"north\",\"south\"]'', r_mobs = leech_mobs, r_actions = ''[]''\<rparr>"

definition room_cooling :: room where
  "room_cooling = \<lparr>r_id = ''cooling'', r_name = ''Cooling Gallery'',
     r_desc = ''Fans turn without power, pushing stale air through split ducts.'',
     r_exits = ''[\"west\"]'', r_mobs = ''[]'', r_actions = ''[]''\<rparr>"

definition room_fiber :: room where
  "room_fiber = \<lparr>r_id = ''fiber'', r_name = ''Fiber Trench'',
     r_desc = ''Cut bundles cross a trench where every route once had a named owner.'',
     r_exits = ''[\"down\",\"south\"]'', r_mobs = ''[]'', r_actions = ''[]''\<rparr>"

definition room_corelab :: room where
  "room_corelab = \<lparr>r_id = ''corelab'', r_name = ''The Core Laboratory'',
     r_desc = ''A custodian keeps watch over a shard that still answers the Grid.'',
     r_exits = ''[\"up\",\"west\"]'', r_mobs = custodian_mobs, r_actions = ''[]''\<rparr>"

definition room_archive :: room where
  "room_archive = \<lparr>r_id = ''archive'', r_name = ''The Dead Archive'',
     r_desc = ''Shelves of unreadable media preserve custody records without their keepers.'',
     r_exits = ''[\"east\"]'', r_mobs = ''[]'', r_actions = ''[]''\<rparr>"

definition room_dunes :: room where
  "room_dunes = \<lparr>r_id = ''dunes'', r_name = ''The Black Powder Flats'',
     r_desc = ''Dark dust combs itself into ridges. Scorch Road runs east and the Front checkpoint stands north.'',
     r_exits = ''[\"east\",\"north\",\"south\"]'', r_mobs = ''[]'', r_actions = ''[]''\<rparr>"

definition room_scorch_road :: room where
  "room_scorch_road = \<lparr>r_id = ''scorch_road'', r_name = ''Scorch Road'',
     r_desc = ''Heat lifts from broken tar. A waystation lies east and a transit hub opens south.'',
     r_exits = ''[\"east\",\"south\",\"west\"]'', r_mobs = raider_mobs, r_actions = ''[]''\<rparr>"

definition room_waystation :: room where
  "room_waystation = \<lparr>r_id = ''waystation'', r_name = ''Refugee Waystation'',
     r_desc = ''Tarps and water drums shelter people weighing which side each newcomer serves.'',
     r_exits = ''[\"west\"]'', r_mobs = ''[]'', r_actions = ''[]''\<rparr>"

definition room_transit_hub :: room where
  "room_transit_hub = \<lparr>r_id = ''transit_hub'', r_name = ''The Old Transit Hub'',
     r_desc = ''Collapsed platforms hold distress banners that nobody came to collect.'',
     r_exits = ''[\"north\"]'', r_mobs = ''[]'', r_actions = ''[]''\<rparr>"

definition room_checkpoint :: room where
  "room_checkpoint = \<lparr>r_id = ''checkpoint'', r_name = ''The Ash Checkpoint'',
     r_desc = ''The Cinder Front first wall divides the road and the people on it.'',
     r_exits = ''[\"north\",\"south\"]'', r_mobs = ''[]'', r_actions = ''[]''\<rparr>"

definition room_gate :: room where
  "room_gate = \<lparr>r_id = ''gate'', r_name = ''The Stronghold Gate'',
     r_desc = ''Welded scrap forms a narrow throat into the Front yard.'',
     r_exits = ''[\"north\",\"south\"]'', r_mobs = ''[]'', r_actions = ''[]''\<rparr>"

definition room_muster :: room where
  "room_muster = \<lparr>r_id = ''muster'', r_name = ''The Muster Yard'',
     r_desc = ''Troopers drill beneath ash banners. Cages stand west and the war room waits north.'',
     r_exits = ''[\"north\",\"south\",\"west\"]'', r_mobs = trooper_mobs, r_actions = ''[]''\<rparr>"

definition room_cells :: room where
  "room_cells = \<lparr>r_id = ''cells'', r_name = ''The Holding Cells'',
     r_desc = ''Iron cages are bolted into concrete. Some are empty. Some are waiting.'',
     r_exits = ''[\"east\"]'', r_mobs = ''[]'', r_actions = ''[]''\<rparr>"

definition room_warroom :: room where
  "room_warroom = \<lparr>r_id = ''warroom'', r_name = ''The War Room'',
     r_desc = ''Maps cover a steel table. The Ashmonger dais opens above.'',
     r_exits = ''[\"south\",\"up\"]'', r_mobs = ''[]'', r_actions = ''[]''\<rparr>"

definition room_dais :: room where
  "room_dais = \<lparr>r_id = ''dais'', r_name = ''The Ashmonger Dais'',
     r_desc = ''A platform of welded scrap and ash overlooks the stronghold.'',
     r_exits = ''[\"down\"]'', r_mobs = ashmonger_mobs, r_actions = ''[]''\<rparr>"

definition room_relay_cut :: room where
  "room_relay_cut = \<lparr>r_id = ''relay-cut'', r_name = ''Relay Cut'',
     r_desc = ''A narrow service cut where sealed cases changed hands after supervision ended.'',
     r_exits = ''[\"east\",\"north\",\"west\"]'', r_mobs = ''[]'', r_actions = ''[]''\<rparr>"

definition room_handoff_bay :: room where
  "room_handoff_bay = \<lparr>r_id = ''handoff-bay'', r_name = ''Handoff Bay'',
     r_desc = ''A dead transfer platform offers no witness except the next person who needs it.'',
     r_exits = ''[\"south\"]'', r_mobs = ''[]'', r_actions = ''[]''\<rparr>"

definition room_custody_lock :: room where
  "room_custody_lock = \<lparr>r_id = ''custody-lock'', r_name = ''Custody Lock'',
     r_desc = ''The Front records people and cargo on the same manifest.'',
     r_exits = ''[\"west\"]'', r_mobs = ''[]'', r_actions = actions_lock\<rparr>"

definition room_east_repeater :: room where
  "room_east_repeater = \<lparr>r_id = ''east-repeater'', r_name = ''East Repeater'',
     r_desc = ''A damaged relay preserves what was forwarded, not what a keeper later claimed.'',
     r_exits = ''[\"west\"]'', r_mobs = ''[]'', r_actions = actions_repeater\<rparr>"

definition rooms :: "room list" where
  "rooms =
    [room_nexus, room_tavern, room_market, room_holding_pit,
     room_workshop, room_roof, room_tunnels, room_sump,
     room_floodgate, room_coldrow, room_cooling, room_fiber,
     room_corelab, room_archive, room_dunes, room_scorch_road,
     room_waystation, room_transit_hub, room_checkpoint, room_gate,
     room_muster, room_cells, room_warroom, room_dais,
     room_relay_cut, room_handoff_bay, room_custody_lock, room_east_repeater]"

definition exits :: "(nat \<times> string \<times> nat) list" where
  "exits =
    [(0, ''north'', 2), (0, ''east'', 4), (0, ''down'', 6), (0, ''west'', 1),
     (1, ''east'', 0), (2, ''south'', 0), (2, ''north'', 3), (3, ''south'', 2),
     (4, ''west'', 0), (4, ''up'', 5), (5, ''down'', 4), (5, ''north'', 14),
     (5, ''east'', 24), (6, ''up'', 0), (6, ''down'', 7), (7, ''up'', 6),
     (7, ''down'', 8), (8, ''up'', 7), (8, ''north'', 9), (9, ''south'', 8),
     (9, ''east'', 10), (9, ''north'', 11), (10, ''west'', 9), (11, ''south'', 9),
     (11, ''down'', 12), (12, ''up'', 11), (12, ''west'', 13), (13, ''east'', 12),
     (14, ''south'', 5), (14, ''east'', 15), (14, ''north'', 18), (15, ''west'', 14),
     (15, ''east'', 16), (15, ''south'', 17), (16, ''west'', 15), (17, ''north'', 15),
     (18, ''south'', 14), (18, ''north'', 19), (19, ''south'', 18), (19, ''north'', 20),
     (20, ''south'', 19), (20, ''west'', 21), (20, ''north'', 22), (21, ''east'', 20),
     (22, ''south'', 20), (22, ''up'', 23), (23, ''down'', 22), (24, ''west'', 5),
     (24, ''north'', 25), (24, ''east'', 26), (25, ''south'', 24), (26, ''west'', 24),
     (26, ''east'', 27), (27, ''west'', 26)]"

definition directions :: "string list" where
  "directions = [''north'', ''south'', ''east'', ''west'', ''up'', ''down'']"

section \<open>Accessors\<close>

text \<open>The unsigned comparison of the field macro: a negative index is out of range too.\<close>

definition room_field :: "(room \<Rightarrow> string) \<Rightarrow> i64 \<Rightarrow> string option" where
  "room_field f r = (if unat r < ROOM_COUNT then Some (f (rooms ! unat r)) else None)"

definition hg_room_id :: "i64 \<Rightarrow> string option" where "hg_room_id = room_field r_id"
definition hg_room_name :: "i64 \<Rightarrow> string option" where "hg_room_name = room_field r_name"
definition hg_room_desc :: "i64 \<Rightarrow> string option" where "hg_room_desc = room_field r_desc"
definition hg_room_exits :: "i64 \<Rightarrow> string option" where "hg_room_exits = room_field r_exits"
definition hg_room_mobs :: "i64 \<Rightarrow> string option" where "hg_room_mobs = room_field r_mobs"
definition hg_room_actions :: "i64 \<Rightarrow> string option" where "hg_room_actions = room_field r_actions"

text \<open>\<^verbatim>\<open>hg_room_live_mobs\<close> of \<^verbatim>\<open>asm/combat.asm\<close>; \<open>rat_alive\<close> is the cell of
  that name.\<close>

definition hg_room_live_mobs :: "i64 \<Rightarrow> i64 \<Rightarrow> string option" where
  "hg_room_live_mobs rat_alive r = (if r = 6 \<and> rat_alive \<noteq> 0 then Some rat_mobs else hg_room_mobs r)"

section \<open>Moving\<close>

fun exit_loop :: "(nat \<times> string \<times> nat) list \<Rightarrow> nat \<Rightarrow> string \<Rightarrow> nat option" where
  "exit_loop [] r d = None"
| "exit_loop ((a, e, b) # es) r d = (if a = r \<and> case_eq d e then Some b else exit_loop es r d)"

definition hg_room_move :: "i64 \<Rightarrow> string \<Rightarrow> int" where
  "hg_room_move r d =
     (case exit_loop exits (unat r) d of
        Some b \<Rightarrow> int b
      | None \<Rightarrow> if \<exists>e \<in> set directions. case_eq d e then -2 else -1)"

section \<open>Lower-case words\<close>

definition lowercase :: "string \<Rightarrow> bool" where
  "lowercase s \<longleftrightarrow> map to_lower s = s"

lemma case_eq_lowercase: "lowercase a \<Longrightarrow> lowercase b \<Longrightarrow> case_eq a b \<longleftrightarrow> a = b"
  by (simp add: lowercase_def case_eq_def)

lemma case_eq_cong: "case_eq d d' \<Longrightarrow> case_eq d e = case_eq d' e"
  by (simp add: case_eq_def)

lemma exit_loop_cong:
  assumes "case_eq d d'"
  shows "exit_loop es r d = exit_loop es r d'"
proof (induction es)
  case (Cons x es)
  then show ?case using case_eq_cong [OF assms] by (cases x) simp
qed simp

lemma hg_room_move_case:
  assumes "case_eq d d'"
  shows "hg_room_move r d = hg_room_move r d'"
proof -
  from case_eq_cong [OF assms] have "case_eq d = case_eq d'" by (rule ext)
  then show ?thesis unfolding hg_room_move_def exit_loop_cong [OF assms] by (simp only:)
qed

lemma exits_lowercase: "\<forall>(a, e, b) \<in> set exits. lowercase e"
proof -
  have "list_all lowercase (remdups (map (fst \<circ> snd) exits))" by code_simp
  then show ?thesis by (force simp: list_all_iff)
qed

lemma directions_lowercase: "\<forall>d \<in> set directions. lowercase d"
proof -
  have "list_all lowercase directions" by code_simp
  then show ?thesis by (simp add: list_all_iff)
qed

text \<open>On the table's own spelling the scan is a lookup by equality.\<close>

definition exit_find :: "nat \<Rightarrow> string \<Rightarrow> nat option" where
  "exit_find r d = map_option (snd \<circ> snd) (find (\<lambda>(a, e, b). a = r \<and> e = d) exits)"

lemma exit_loop_find:
  "lowercase d \<Longrightarrow> \<forall>(a, e, b) \<in> set es. lowercase e \<Longrightarrow>
     exit_loop es r d = map_option (snd \<circ> snd) (find (\<lambda>(a, e, b). a = r \<and> e = d) es)"
  by (induction es r d rule: exit_loop.induct) (auto simp: case_eq_lowercase)

lemma exit_loop_exits: "lowercase d \<Longrightarrow> exit_loop exits r d = exit_find r d"
  unfolding exit_find_def by (rule exit_loop_find [OF _ exits_lowercase])

lemma exit_loop_Some:
  "exit_loop es r d = Some b \<Longrightarrow> \<exists>e. (r, e, b) \<in> set es \<and> case_eq d e"
  by (induction es r d rule: exit_loop.induct) (auto split: if_splits)

section \<open>What a room announces\<close>

definition announced_order :: "string list" where
  "announced_order = [''down'', ''east'', ''north'', ''south'', ''up'', ''west'']"

definition open_dirs :: "i64 \<Rightarrow> string list" where
  "open_dirs r = filter (\<lambda>d. 0 \<le> hg_room_move r d) announced_order"

definition announces :: "nat \<Rightarrow> bool" where
  "announces r \<longleftrightarrow>
     r_exits (rooms ! r) = render (JArr (map JStr (filter (\<lambda>d. exit_find r d \<noteq> None) announced_order)))"

lemma announced_order_lowercase: "\<forall>d \<in> set announced_order. lowercase d"
proof -
  have "list_all lowercase announced_order" by code_simp
  then show ?thesis by (simp add: list_all_iff)
qed

lemma move_nonneg_iff: "lowercase d \<Longrightarrow> 0 \<le> hg_room_move r d \<longleftrightarrow> exit_find (unat r) d \<noteq> None"
  by (auto simp: hg_room_move_def exit_loop_exits split: option.splits)

lemma open_dirs_find:
  "open_dirs r = filter (\<lambda>d. exit_find (unat r) d \<noteq> None) announced_order"
  unfolding open_dirs_def by (rule filter_cong) (simp_all add: move_nonneg_iff announced_order_lowercase)

lemma rooms_announce: "list_all (\<lambda>r. announces r = (r \<noteq> 26)) [0..<28]"
  by code_simp

lemma rooms_announce_iff: "r < 28 \<Longrightarrow> announces r \<longleftrightarrow> r \<noteq> 26"
  using rooms_announce by (simp add: list_all_iff)

text \<open>What a room announces to clients is exact: for every room number but one, the exits JSON is the
  rendering of precisely the directions (in alphabetical order) that a move from it accepts.  The one
  exception is room 26, the Custody Lock, whose JSON lacks the open exit east; the protocol invariant
  that the list of exits is complete fails there.\<close>

lemma room_exits_announced:
  assumes "unat r < ROOM_COUNT"
  shows "hg_room_exits r = Some (render (JArr (map JStr (open_dirs r)))) \<longleftrightarrow> r \<noteq> 26"
proof -
  have "r = 26 \<longleftrightarrow> unat r = unat (26 :: i64)" by (rule word_unat_eq_iff)
  with assms rooms_announce_iff [of "unat r"] show ?thesis
    by (simp add: ROOM_COUNT_def hg_room_exits_def room_field_def announces_def open_dirs_find)
qed

section \<open>Where exits lead\<close>

definition opposite :: "string \<Rightarrow> string" where
  "opposite d = (if d = ''north'' then ''south'' else if d = ''south'' then ''north''
     else if d = ''east'' then ''west'' else if d = ''west'' then ''east''
     else if d = ''up'' then ''down'' else ''up'')"

lemma exits_return: "\<forall>(a, e, b) \<in> set exits. b < 28 \<and> a < 28 \<and> exit_find b (opposite e) = Some a"
proof -
  have "list_all (\<lambda>(a, e, b). b < 28 \<and> a < 28 \<and> exit_find b (opposite e) = Some a) exits" by code_simp
  then show ?thesis by (auto simp: list_all_iff)
qed

lemma opposite_lowercase: "lowercase (opposite d)"
proof -
  have "list_all lowercase [''north'', ''south'', ''east'', ''west'', ''up'', ''down'']" by code_simp
  then show ?thesis by (simp add: opposite_def)
qed

lemma hg_room_move_exit:
  assumes "hg_room_move r d = int b"
  obtains e where "(unat r, e, b) \<in> set exits" and "case_eq d e"
proof -
  from assms have "exit_loop exits (unat r) d = Some b"
    by (auto simp: hg_room_move_def split: option.splits if_splits)
  from exit_loop_Some [OF this] show thesis using that by blast
qed

text \<open>A successful move lands in an existing room, in whatever letter case the direction was typed, and
  the opposite direction leads straight back.\<close>

lemma room_move_returns:
  assumes "hg_room_move r d = int b"
  shows "b < ROOM_COUNT \<and> hg_room_move (word_of_nat b) (opposite (map to_lower d)) = int (unat r)"
proof -
  from assms obtain e where e: "(unat r, e, b) \<in> set exits" and de: "case_eq d e"
    by (rule hg_room_move_exit)
  from e exits_lowercase have "map to_lower e = e" by (auto simp: lowercase_def)
  with de have d: "map to_lower d = e" by (simp add: case_eq_def)
  from e exits_return have b: "b < 28" and f: "exit_find b (opposite e) = Some (unat r)" by auto
  from b have "unat (word_of_nat b :: i64) = b" by (simp add: unat_of_nat)
  with f have "exit_loop exits (unat (word_of_nat b :: i64)) (opposite e) = Some (unat r)"
    by (simp add: exit_loop_exits [OF opposite_lowercase])
  with b d show ?thesis by (simp add: hg_room_move_def ROOM_COUNT_def)
qed

section \<open>The map is connected\<close>

inductive walk :: "i64 \<Rightarrow> i64 \<Rightarrow> bool" where
  walk_refl: "walk r r"
| walk_step: "walk r s \<Longrightarrow> hg_room_move s d = int b \<Longrightarrow> walk r (word_of_nat b)"

lemma exits_unique: "\<forall>(a, e, b) \<in> set exits. exit_find a e = Some b"
proof -
  have "list_all (\<lambda>(a, e, b). exit_find a e = Some b) exits" by code_simp
  then show ?thesis by (auto simp: list_all_iff)
qed

text \<open>Every room but the nexus has an exit to a room with a smaller number.\<close>

lemma exits_downhill: "\<forall>r < 28. r = 0 \<or> (\<exists>e b. (r, e, b) \<in> set exits \<and> b < r)"
proof -
  have "list_all (\<lambda>r. r = 0 \<or> list_ex (\<lambda>(a, e, b). a = r \<and> b < r) exits) [0..<28]" by code_simp
  then have "r = 0 \<or> list_ex (\<lambda>(a, e, b). a = r \<and> b < r) exits" if "r < 28" for r
    using that unfolding list_all_iff by simp
  then show ?thesis by (force simp: list_ex_iff)
qed

lemma walk_trans: "walk s t \<Longrightarrow> walk r s \<Longrightarrow> walk r t"
  by (induction rule: walk.induct) (blast intro: walk_step)+

lemma walk_exit:
  assumes "(a, e, b) \<in> set exits" and "a < 28"
  shows "walk (word_of_nat a) (word_of_nat b)"
proof -
  from assms exits_unique exits_lowercase have "exit_find a e = Some b" and "lowercase e" by auto
  then have "hg_room_move (word_of_nat a) e = int b"
    using assms(2) by (simp add: hg_room_move_def exit_loop_exits unat_of_nat)
  then show ?thesis by (rule walk_step [OF walk_refl])
qed

lemma walk_to_nexus: "r < 28 \<Longrightarrow> walk (word_of_nat r) 0"
proof (induction r rule: less_induct)
  case (less r)
  show ?case
  proof (cases "r = 0")
    case True
    then show ?thesis by (simp add: walk_refl)
  next
    case False
    with less.prems exits_downhill obtain e b where e: "(r, e, b) \<in> set exits" and b: "b < r" by blast
    from less.IH [OF b] b less.prems have "walk (word_of_nat b) 0" by simp
    then show ?thesis using walk_exit [OF e less.prems] by (rule walk_trans)
  qed
qed

lemma walk_reverse:
  assumes "walk r s" and "unat r < 28"
  shows "walk s r \<and> unat s < 28"
  using assms
proof (induction rule: walk.induct)
  case (walk_refl r)
  then show ?case by (simp add: walk.walk_refl)
next
  case (walk_step r s d b)
  from room_move_returns [OF walk_step.hyps(2)]
  have b: "b < 28" and ret: "hg_room_move (word_of_nat b) (opposite (map to_lower d)) = int (unat s)"
    by (simp_all add: ROOM_COUNT_def)
  have "walk (word_of_nat b) (word_of_nat (unat s))"
    by (rule walk.walk_step [OF walk.walk_refl ret])
  then have "walk (word_of_nat b) s" by simp
  with walk_step.IH walk_step.prems b show ?case by (auto intro: walk_trans simp: unat_of_nat)
qed

text \<open>C23. No room is cut off: from every room a player can walk to every other room by moves the engine
  accepts, the nexus where a character starts included.\<close>

theorem rooms_connected:
  assumes "unat r < ROOM_COUNT" and "unat s < ROOM_COUNT"
  shows "walk r s"
proof -
  have to_nexus: "walk t 0" if "unat t < 28" for t
    using walk_to_nexus [OF that] by simp
  from assms to_nexus have "walk 0 s" using walk_reverse [of s 0] by (simp add: ROOM_COUNT_def)
  then show ?thesis using to_nexus [of r] assms(1) by (auto intro: walk_trans simp: ROOM_COUNT_def)
qed

theorem rooms_connected_witness: "unat (13 :: i64) < ROOM_COUNT \<and> walk 13 27"
  using rooms_connected [of 13 27] by (simp add: ROOM_COUNT_def)

end
