(* ===== verification/Format.thy ===== *)
theory Format
  imports Json Session
begin

text \<open>
  The single-template formatters of \<^verbatim>\<open>ffi/format.c\<close>: one call of \<^verbatim>\<open>snprintf\<close>
  per event, from session cells or arguments.  Each function returns what the C function returns
  (the length \<^verbatim>\<open>snprintf\<close> would have written, whether or not it fitted) with the text the
  buffer holds.  The refinement lemmas say that a template is the event line of a JSON value, which
  makes the round trip of theory \<open>Json\<close> apply to what clients receive.
\<close>

section \<open>Session events\<close>

definition nonempty_or :: "string option \<Rightarrow> string \<Rightarrow> string" where
  "nonempty_or p d = (case p of None \<Rightarrow> d | Some s \<Rightarrow> if s = [] then d else s)"

abbreviation fmt_flag :: "i64 \<Rightarrow> string" where
  "fmt_flag w \<equiv> fmt_bool (w \<noteq> 0)"

abbreviation NI :: "i64 \<Rightarrow> piece" where
  "NI w \<equiv> I (sint w)"

definition hg_fmt_vitals :: "nat \<Rightarrow> session \<Rightarrow> string option \<Rightarrow> fmt_result" where
  "hg_fmt_vitals cap s room_id =
     (let pos = (if s_position s = [] then ''standing'' else s_position s);
          room = nonempty_or room_id ''nexus''
      in snprintf cap (sprintf
        [L ''@event char.vitals {\"hp\":'', NI (s_hp s), L '',\"maxHp\":'', NI (s_max_hp s),
         L '',\"level\":'', NI (s_level s), L '',\"xp\":'', NI (s_xp s), L '',\"gold\":'', NI (s_gold s),
         L '',\"room\":\"'', S room, L ''\",\"inCombat\":'', S (fmt_flag (s_in_combat s)),
         L '',\"poisoned\":'', S (fmt_flag (s_poisoned s)), L '',\"position\":\"'', S pos, L ''\"}'', L crlf]))"

definition hg_fmt_affects :: "nat \<Rightarrow> session \<Rightarrow> fmt_result" where
  "hg_fmt_affects cap s =
     (let faction = (if s_faction s = [] then ''none'' else s_faction s);
          race = (if s_race s = [] then ''human'' else s_race s)
      in snprintf cap (sprintf
        [L ''@event char.affects {\"morality\":'', NI (s_morality s), L '',\"addiction\":'', NI (s_addiction s),
         L '',\"faction\":\"'', S faction, L ''\",\"resisted\":'', S (fmt_flag (s_resisted s)),
         L '',\"race\":\"'', S race, L ''\",\"ashsworn\":'', S (fmt_flag (s_ashsworn s)), L ''}'', L crlf]))"

definition slot_or_null :: "string \<Rightarrow> string option" where
  "slot_or_null slot = (if slot = [] then None else Some slot)"

text \<open>One slot of the equipment event: the literal \<^verbatim>\<open>null\<close>, or the quoted name through the
  32-byte buffer of the slot.\<close>

definition slot_json :: "string \<Rightarrow> string" where
  "slot_json slot = (case slot_or_null slot of
     None \<Rightarrow> ''null'' | Some w \<Rightarrow> snd (snprintf 32 (sprintf [L ''\"'', S w, L ''\"''])))"

definition hg_fmt_equipment :: "nat \<Rightarrow> session \<Rightarrow> fmt_result" where
  "hg_fmt_equipment cap s = snprintf cap (sprintf
     [L ''@event char.equipment {\"weapon\":'', S (slot_json (s_eq_weapon s)),
      L '',\"head\":'', S (slot_json (s_eq_head s)), L '',\"body\":'', S (slot_json (s_eq_body s)),
      L '',\"hands\":'', S (slot_json (s_eq_hands s)), L '',\"feet\":'', S (slot_json (s_eq_feet s)),
      L ''}'', L crlf])"

text \<open>The dream is composed in assembly (\<^verbatim>\<open>hg_dream_compose\<close>): the parameter
  \<open>compose tcap scap s\<close> gives its return value and the two texts it leaves.\<close>

definition hg_fmt_dream ::
  "(nat \<Rightarrow> nat \<Rightarrow> session \<Rightarrow> int \<times> string \<times> string) \<Rightarrow> nat \<Rightarrow> session \<Rightarrow> fmt_result" where
  "hg_fmt_dream compose cap s =
     (let (personal, dream, subject) = compose 512 40 s
      in if personal < 0 then (-1, [])
         else let (n, esc) = hg_json_escape 640 (Some dream)
         in if n < 0 then (-1, [])
            else if personal \<noteq> 0 then
              (let (m, subj) = hg_json_escape 80 (Some subject)
               in if m < 0 then (-1, [])
                  else snprintf cap (sprintf [L ''@event char.dream {\"text\":\"'', S esc,
                    L ''\",\"personal\":true,\"subject\":\"'', S subj, L ''\"}'', L crlf]))
            else snprintf cap (sprintf [L ''@event char.dream {\"text\":\"'', S esc,
                    L ''\",\"personal\":false}'', L crlf]))"

definition hg_fmt_world_state :: "nat \<Rightarrow> i64 \<Rightarrow> string option \<Rightarrow> fmt_result" where
  "hg_fmt_world_state cap tick phase = snprintf cap (sprintf
     [L ''@event world.state {\"tick\":'', NI tick, L '',\"phase\":\"'', S (or_default phase ''day''),
      L ''\",\"weather\":\"clear\"}'', L crlf])"

definition hg_fmt_char_died :: "nat \<Rightarrow> string option \<Rightarrow> i64 \<Rightarrow> i64 \<Rightarrow> fmt_result" where
  "hg_fmt_char_died cap room hp max_hp = snprintf cap (sprintf
     [L ''@event char.died {\"respawnRoom\":\"'', S (or_default room ''nexus''), L ''\",\"hp\":'', NI hp,
      L '',\"maxHp\":'', NI max_hp, L ''}'', L crlf])"

section \<open>Combat and room events\<close>

definition hg_fmt_combat_start :: "nat \<Rightarrow> string option \<Rightarrow> string option \<Rightarrow> fmt_result" where
  "hg_fmt_combat_start cap mob_id mob_name =
     (let (i, id_esc) = hg_json_escape 64 mob_id; (n, name_esc) = hg_json_escape 128 mob_name
      in if i < 0 \<or> n < 0 then (-1, [])
         else snprintf cap (sprintf [L ''@event combat.start {\"mob\":\"'', S id_esc, L ''\",\"name\":\"'',
           S name_esc, L ''\"}'', L crlf]))"

definition hg_fmt_combat_round ::
  "nat \<Rightarrow> string option \<Rightarrow> i64 \<Rightarrow> i64 \<Rightarrow> i64 \<Rightarrow> i64 \<Rightarrow> i64 \<Rightarrow> fmt_result" where
  "hg_fmt_combat_round cap mob_id mob_hp mob_max player_dmg mob_dmg hp = snprintf cap (sprintf
     [L ''@event combat.round {\"mob\":\"'', S (or_default mob_id ''rat''), L ''\",\"mobHp\":'', NI mob_hp,
      L '',\"mobMaxHp\":'', NI mob_max, L '',\"playerDmg\":'', NI player_dmg, L '',\"mobDmg\":'', NI mob_dmg,
      L '',\"hp\":'', NI hp, L ''}'', L crlf])"

definition hg_fmt_combat_end :: "nat \<Rightarrow> string option \<Rightarrow> string option \<Rightarrow> fmt_result" where
  "hg_fmt_combat_end cap mob_id result = snprintf cap (sprintf
     [L ''@event combat.end {\"mob\":\"'', S (or_default mob_id ''rat''), L ''\",\"result\":\"'',
      S (or_default result ''killed''), L ''\"}'', L crlf])"

definition hg_fmt_room_info ::
  "nat \<Rightarrow> string option \<Rightarrow> string option \<Rightarrow> string option \<Rightarrow> string option \<Rightarrow> string option \<Rightarrow> fmt_result" where
  "hg_fmt_room_info cap rid name exits_json mobs_json players_json = snprintf cap (sprintf
     [L ''@event room.info {\"id\":\"'', S (or_default rid []), L ''\",\"name\":\"'', S (or_default name []),
      L ''\",\"exits\":'', S (or_default exits_json ''[]''), L '',\"mobs\":'', S (or_default mobs_json ''[]''),
      L '',\"items\":[],\"players\":'', S (or_default players_json ''[]''), L ''}'', L crlf])"

definition hg_fmt_room_actions :: "nat \<Rightarrow> string option \<Rightarrow> fmt_result" where
  "hg_fmt_room_actions cap actions_json = snprintf cap (sprintf
     [L ''@event room.actions {\"actions\":'', S (or_default actions_json ''[]''), L ''}'', L crlf])"

definition hg_fmt_attack_miss :: "nat \<Rightarrow> string option \<Rightarrow> string option \<Rightarrow> fmt_result" where
  "hg_fmt_attack_miss cap target suggestions =
     (let t = nonempty_or target ''that''; sg = nonempty_or suggestions []
      in if sg \<noteq> [] then snprintf cap (sprintf [L ''There's nothing like '', S t,
             L '' to fight here. You could try: '', S sg, L ''.'', L crlf])
         else snprintf cap (sprintf [L ''There's nothing like that here to attack.'', L crlf]))"

definition hg_fmt_who_local :: "nat \<Rightarrow> session \<Rightarrow> fmt_result" where
  "hg_fmt_who_local cap s =
     (if s_title s \<noteq> [] then
        snprintf cap (sprintf [L ''Online: '', S (s_name s), L '' '', S (s_title s), L ''.'', L crlf])
      else snprintf cap (sprintf [L ''Online: '', S (s_name s), L ''.'', L crlf]))"

definition hg_fmt_ability_recharging :: "nat \<Rightarrow> string option \<Rightarrow> i32 \<Rightarrow> fmt_result" where
  "hg_fmt_ability_recharging cap name seconds = snprintf cap (sprintf
     [S (or_default name ''Ability''), L '' is still recharging. ('', I (sint seconds), L ''s)'', L crlf])"


section \<open>Compatibility shims\<close>

text \<open>Older call sites pass the fields instead of the session; \<^verbatim>\<open>poisoned\<close> and
  \<^verbatim>\<open>resisted\<close> are fixed to false there.  The room is passed to \<^verbatim>\<open>%s\<close> unchecked.\<close>

definition hg_format_vitals ::
  "nat \<Rightarrow> i64 \<Rightarrow> i64 \<Rightarrow> i64 \<Rightarrow> i64 \<Rightarrow> i64 \<Rightarrow> string \<Rightarrow> i32 \<Rightarrow> string option \<Rightarrow> fmt_result" where
  "hg_format_vitals cap hp max_hp level xp gold room in_combat position = snprintf cap (sprintf
     [L ''@event char.vitals {\"hp\":'', NI hp, L '',\"maxHp\":'', NI max_hp, L '',\"level\":'', NI level,
      L '',\"xp\":'', NI xp, L '',\"gold\":'', NI gold, L '',\"room\":\"'', S room, L ''\",\"inCombat\":'',
      S (fmt_bool (in_combat \<noteq> 0)), L '',\"poisoned\":false,\"position\":\"'',
      S (or_default position ''standing''), L ''\"}'', L crlf])"

definition hg_format_affects ::
  "nat \<Rightarrow> i64 \<Rightarrow> i64 \<Rightarrow> string option \<Rightarrow> string option \<Rightarrow> i32 \<Rightarrow> fmt_result" where
  "hg_format_affects cap morality addiction faction race ashsworn = snprintf cap (sprintf
     [L ''@event char.affects {\"morality\":'', NI morality, L '',\"addiction\":'', NI addiction,
      L '',\"faction\":\"'', S (or_default faction ''none''), L ''\",\"resisted\":false,\"race\":\"'',
      S (or_default race ''human''), L ''\",\"ashsworn\":'', S (fmt_bool (ashsworn \<noteq> 0)), L ''}'', L crlf])"

definition hg_format_combat_round :: "nat \<Rightarrow> i64 \<Rightarrow> i64 \<Rightarrow> i64 \<Rightarrow> i64 \<Rightarrow> fmt_result" where
  "hg_format_combat_round cap mob_hp player_dmg mob_dmg hp =
     hg_fmt_combat_round cap (Some ''rat'') mob_hp 12 player_dmg mob_dmg hp"

definition hg_format_world_state :: "nat \<Rightarrow> i64 \<Rightarrow> string option \<Rightarrow> fmt_result" where
  "hg_format_world_state cap tick phase = hg_fmt_world_state cap tick phase"

section \<open>The templates are event lines\<close>

text \<open>The JSON value each event stands for.\<close>

definition vitals_json :: "session \<Rightarrow> string \<Rightarrow> jval" where
  "vitals_json s room = JObj
     [(''hp'', JInt (sint (s_hp s))), (''maxHp'', JInt (sint (s_max_hp s))), (''level'', JInt (sint (s_level s))),
      (''xp'', JInt (sint (s_xp s))), (''gold'', JInt (sint (s_gold s))), (''room'', JStr room),
      (''inCombat'', JBool (s_in_combat s \<noteq> 0)), (''poisoned'', JBool (s_poisoned s \<noteq> 0)),
      (''position'', JStr (if s_position s = [] then ''standing'' else s_position s))]"

definition affects_json :: "session \<Rightarrow> jval" where
  "affects_json s = JObj
     [(''morality'', JInt (sint (s_morality s))), (''addiction'', JInt (sint (s_addiction s))),
      (''faction'', JStr (if s_faction s = [] then ''none'' else s_faction s)),
      (''resisted'', JBool (s_resisted s \<noteq> 0)),
      (''race'', JStr (if s_race s = [] then ''human'' else s_race s)),
      (''ashsworn'', JBool (s_ashsworn s \<noteq> 0))]"

lemmas event_templates = event_line_def jquote_def commas_def esc_char_def esc_rep_def Let_def

lemma vitals_refines:
  assumes "json_plain (nonempty_or room ''nexus'')" and "json_plain (s_position s)"
  shows "hg_fmt_vitals cap s room =
    snprintf cap (event_line ''char.vitals'' (vitals_json s (nonempty_or room ''nexus'')))"
  using assms
  by (simp add: hg_fmt_vitals_def vitals_json_def event_templates)

lemma affects_refines:
  assumes "json_plain (s_faction s)" and "json_plain (s_race s)"
  shows "hg_fmt_affects cap s = snprintf cap (event_line ''char.affects'' (affects_json s))"
  using assms by (simp add: hg_fmt_affects_def affects_json_def event_templates)

definition slot_value :: "string \<Rightarrow> jval" where
  "slot_value slot = (if slot = [] then JNull else JStr slot)"

definition equipment_json :: "session \<Rightarrow> jval" where
  "equipment_json s = JObj
     [(''weapon'', slot_value (s_eq_weapon s)), (''head'', slot_value (s_eq_head s)),
      (''body'', slot_value (s_eq_body s)), (''hands'', slot_value (s_eq_hands s)),
      (''feet'', slot_value (s_eq_feet s))]"

text \<open>A slot cell is 16 bytes wide, so the quoted name always fits its buffer of 32.\<close>

lemma slot_json_refines:
  "json_plain w \<Longrightarrow> length w < 30 \<Longrightarrow> slot_json w = render (slot_value w)"
  by (simp add: slot_json_def slot_or_null_def slot_value_def snprintf_def jquote_def)

lemma length_slot_json: "length (slot_json w) \<le> 31"
  by (auto simp: slot_json_def slot_or_null_def snprintf_def min_def)

definition plain_cells :: "session \<Rightarrow> bool" where
  "plain_cells s \<longleftrightarrow> list_all json_plain
     [s_position s, s_faction s, s_race s, s_eq_weapon s, s_eq_head s, s_eq_body s, s_eq_hands s, s_eq_feet s]"

lemma equipment_refines:
  assumes "cells_ok s" and "plain_cells s"
  shows "hg_fmt_equipment cap s = snprintf cap (event_line ''char.equipment'' (equipment_json s))"
  using assms
  by (simp add: cells_ok_def cell_ok_def plain_cells_def hg_fmt_equipment_def slot_json_refines
      equipment_json_def event_line_def commas_def jquote_def) (simp add: esc_char_def esc_rep_def)

lemma world_state_refines:
  assumes "json_plain (or_default phase ''day'')"
  shows "hg_fmt_world_state cap tick phase = snprintf cap (event_line ''world.state''
    (JObj [(''tick'', JInt (sint tick)), (''phase'', JStr (or_default phase ''day'')), (''weather'', JStr ''clear'')]))"
  using assms by (simp add: hg_fmt_world_state_def event_templates)

lemma char_died_refines:
  assumes "json_plain (or_default room ''nexus'')"
  shows "hg_fmt_char_died cap room hp max_hp = snprintf cap (event_line ''char.died''
    (JObj [(''respawnRoom'', JStr (or_default room ''nexus'')), (''hp'', JInt (sint hp)),
           (''maxHp'', JInt (sint max_hp))]))"
  using assms by (simp add: hg_fmt_char_died_def event_templates)

lemma combat_round_refines:
  assumes "json_plain (or_default m ''rat'')"
  shows "hg_fmt_combat_round cap m mob_hp mob_max pd md hp = snprintf cap (event_line ''combat.round''
    (JObj [(''mob'', JStr (or_default m ''rat'')), (''mobHp'', JInt (sint mob_hp)),
           (''mobMaxHp'', JInt (sint mob_max)), (''playerDmg'', JInt (sint pd)), (''mobDmg'', JInt (sint md)),
           (''hp'', JInt (sint hp))]))"
  using assms by (simp add: hg_fmt_combat_round_def event_templates)

lemma combat_end_refines:
  assumes "json_plain (or_default m ''rat'')" and "json_plain (or_default r ''killed'')"
  shows "hg_fmt_combat_end cap m r = snprintf cap (event_line ''combat.end''
    (JObj [(''mob'', JStr (or_default m ''rat'')), (''result'', JStr (or_default r ''killed''))]))"
  using assms by (simp add: hg_fmt_combat_end_def event_templates)

text \<open>The start of a fight escapes its two texts, so any name is announced faithfully or not at all.\<close>

definition combat_start_json :: "string \<Rightarrow> string \<Rightarrow> jval" where
  "combat_start_json m n = JObj [(''mob'', JStr m), (''name'', JStr n)]"

lemma combat_start_refines:
  "hg_fmt_combat_start cap m n =
     (let m' = cstr (or_default m []); n' = cstr (or_default n [])
      in if length (json_esc m') < 64 \<and> length (json_esc n') < 128
         then snprintf cap (event_line ''combat.start'' (combat_start_json m' n')) else (-1, []))"
  by (simp add: hg_fmt_combat_start_def hg_json_escape_spec combat_start_json_def Let_def)
     (simp add: event_templates)

lemma room_info_refines:
  assumes "json_plain (or_default i [])" and "json_plain (or_default nm [])"
    and "or_default ex ''[]'' = render jex" and "or_default mo ''[]'' = render jmo"
    and "or_default pl ''[]'' = render jpl"
  shows "hg_fmt_room_info cap i nm ex mo pl = snprintf cap (event_line ''room.info''
    (JObj [(''id'', JStr (or_default i [])), (''name'', JStr (or_default nm [])), (''exits'', jex),
           (''mobs'', jmo), (''items'', JArr []), (''players'', jpl)]))"
  using assms by (simp add: hg_fmt_room_info_def event_templates)

lemma room_actions_refines:
  assumes "or_default ac ''[]'' = render jac"
  shows "hg_fmt_room_actions cap ac =
    snprintf cap (event_line ''room.actions'' (JObj [(''actions'', jac)]))"
  using assms by (simp add: hg_fmt_room_actions_def event_templates)

lemma dream_refines:
  assumes "compose 512 40 s = (p, dream, subject)"
  shows "hg_fmt_dream compose cap s =
    (let d' = cstr dream; s' = cstr subject
     in if p < 0 \<or> \<not> length (json_esc d') < 640 \<or> p \<noteq> 0 \<and> \<not> length (json_esc s') < 80 then (-1, [])
        else snprintf cap (event_line ''char.dream'' (JObj ([(''text'', JStr d'), (''personal'', JBool (p \<noteq> 0))] @
             (if p \<noteq> 0 then [(''subject'', JStr s')] else [])))))"
  using assms
  by (simp add: hg_fmt_dream_def hg_json_escape_spec or_default_def Let_def)
     (simp add: event_templates fmt_bool_def)

section \<open>What a client decodes\<close>

lemma parse_event_snprintf:
  "length (event_line nm v) < cap \<Longrightarrow> CHR '' '' \<notin> set nm \<Longrightarrow>
     parse_event (snd (snprintf cap (event_line nm v))) = Some (nm, v)"
  by (simp add: snprintf_fits parse_event_event_line)

lemma vitals_length:
  assumes "json_plain room" and "json_plain (s_position s)" and "cells_ok s"
  shows "length (event_line ''char.vitals'' (vitals_json s room)) \<le> 256 + length room"
  using assms length_int_dec_i64 [of "s_hp s"] length_int_dec_i64 [of "s_max_hp s"]
    length_int_dec_i64 [of "s_level s"] length_int_dec_i64 [of "s_xp s"] length_int_dec_i64 [of "s_gold s"]
    length_fmt_bool [of "s_in_combat s \<noteq> 0"] length_fmt_bool [of "s_poisoned s \<noteq> 0"]
  by (simp add: vitals_json_def cells_ok_def cell_ok_def event_templates)

lemma affects_length:
  assumes "json_plain (s_faction s)" and "json_plain (s_race s)" and "cells_ok s"
  shows "length (event_line ''char.affects'' (affects_json s)) \<le> 184"
  using assms length_int_dec_i64 [of "s_morality s"] length_int_dec_i64 [of "s_addiction s"]
    length_fmt_bool [of "s_resisted s \<noteq> 0"] length_fmt_bool [of "s_ashsworn s \<noteq> 0"]
  by (simp add: affects_json_def cells_ok_def cell_ok_def event_templates)

lemma equipment_length:
  assumes "plain_cells s" and "cells_ok s"
  shows "length (event_line ''char.equipment'' (equipment_json s)) \<le> 156"
  using assms
  by (simp add: equipment_json_def cells_ok_def cell_ok_def plain_cells_def slot_value_def event_templates)

text \<open>What the server says of a character is what the session holds: in a buffer with 256 bytes more
  than the room name needs, the vitals, affects and equipment events are whole, well formed JSON, and a
  client that parses them reads back exactly the session's cells, with the documented defaults for the
  empty ones (standing, none, human, null slots).\<close>

lemma session_events_decode:
  assumes "cells_ok s" and "plain_cells s" and "json_plain (nonempty_or room ''nexus'')"
    and "length (nonempty_or room ''nexus'') + 256 < cap"
  shows "parse_event (snd (hg_fmt_vitals cap s room)) =
      Some (''char.vitals'', vitals_json s (nonempty_or room ''nexus'')) \<and>
    parse_event (snd (hg_fmt_affects cap s)) = Some (''char.affects'', affects_json s) \<and>
    parse_event (snd (hg_fmt_equipment cap s)) = Some (''char.equipment'', equipment_json s)"
proof -
  from assms(2) have "json_plain (s_position s)" "json_plain (s_faction s)" "json_plain (s_race s)"
    by (simp_all add: plain_cells_def)
  with assms vitals_length affects_length equipment_length show ?thesis
    by (fastforce simp: vitals_refines affects_refines equipment_refines parse_event_snprintf)
qed

text \<open>The start of a fight is announced faithfully or not at all, whatever bytes the opponent's id and
  name hold (quotes, backslashes, control bytes included): either the formatter reports -1, exactly when
  an escaped text overflows its buffer, or the client decodes the very id and name.\<close>

lemma combat_start_faithful:
  "parse_event (snd (hg_fmt_combat_start 4096 m n)) =
     (if length (json_esc (cstr (or_default m []))) < 64 \<and> length (json_esc (cstr (or_default n []))) < 128
      then Some (''combat.start'', combat_start_json (cstr (or_default m [])) (cstr (or_default n [])))
      else None) \<and>
   (fst (hg_fmt_combat_start 4096 m n) = -1 \<longleftrightarrow>
      \<not> (length (json_esc (cstr (or_default m []))) < 64 \<and> length (json_esc (cstr (or_default n []))) < 128))"
proof (cases "length (json_esc (cstr (or_default m []))) < 64 \<and> length (json_esc (cstr (or_default n []))) < 128")
  case True
  have "length (event_line ''combat.start'' (combat_start_json (cstr (or_default m [])) (cstr (or_default n []))))
      \<le> length (json_esc (cstr (or_default m []))) + length (json_esc (cstr (or_default n []))) + 60"
    by (simp add: combat_start_json_def event_templates)
  with True show ?thesis
    by (simp add: combat_start_refines Let_def parse_event_snprintf)
next
  case False
  then have "hg_fmt_combat_start 4096 m n = (-1, [])"
    by (simp only: combat_start_refines Let_def if_False)
  moreover have "parse_event [] = None" by (simp add: parse_event_def)
  ultimately show ?thesis using False by simp
qed

text \<open>The shims agree with the session formatter where they have the same information.\<close>

lemma format_vitals_shim:
  "s_poisoned s = 0 \<Longrightarrow> s_position s \<noteq> [] \<Longrightarrow> room \<noteq> [] \<Longrightarrow>
     hg_format_vitals cap (s_hp s) (s_max_hp s) (s_level s) (s_xp s) (s_gold s) room
       (if s_in_combat s = 0 then 0 else 1) (Some (s_position s)) = hg_fmt_vitals cap s (Some room)"
  by (simp add: hg_format_vitals_def hg_fmt_vitals_def nonempty_or_def or_default_def Let_def fmt_bool_def)

lemma format_affects_shim:
  "s_resisted s = 0 \<Longrightarrow> s_faction s \<noteq> [] \<Longrightarrow> s_race s \<noteq> [] \<Longrightarrow>
     hg_format_affects cap (s_morality s) (s_addiction s) (Some (s_faction s)) (Some (s_race s))
       (if s_ashsworn s = 0 then 0 else 1) = hg_fmt_affects cap s"
  by (simp add: hg_format_affects_def hg_fmt_affects_def or_default_def Let_def fmt_bool_def)

end
