(* ===== verification/Format_Grid.thy ===== *)
theory Format_Grid
  imports Format
begin

text \<open>
  The formatters of \<^verbatim>\<open>ffi/format.c\<close> for Grid commands: identity, travel, worlds, listen and
  ping.  The longer ones append to a bounded buffer piece by piece (\<^verbatim>\<open>fmt_append\<close>) and
  build a JSON array beside it; \<open>rows_loop\<close> is that loop, and its specification says the result
  is all or nothing.
\<close>

section \<open>Identity and travel\<close>

record char_identity_fields =
  cf_name :: "string option"
  cf_level :: i64
  cf_xp :: i64
  cf_gold :: i64
  cf_faction :: "string option"
  cf_morality :: i64
  cf_title :: "string option"
  cf_race :: "string option"
  cf_ashsworn :: i64

definition no_identity :: char_identity_fields where
  "no_identity = \<lparr>cf_name = Some [], cf_level = 1, cf_xp = 0, cf_gold = 0, cf_faction = Some [],
     cf_morality = 0, cf_title = Some [], cf_race = Some [], cf_ashsworn = 0\<rparr>"

definition hg_fmt_char_identity :: "nat \<Rightarrow> char_identity_fields option \<Rightarrow> fmt_result" where
  "hg_fmt_char_identity cap ident =
     (let f = (case ident of None \<Rightarrow> no_identity | Some f \<Rightarrow> f);
          race_out = nonempty_or (cf_race f) ''human'';
          fac_json = nonempty_or (cf_faction f) ''none'';
          fac_prose = nonempty_or (cf_faction f) ''unaligned'';
          title = nonempty_or (cf_title f) [];
          nesc = snd (hg_json_escape 40 (Some (or_default (cf_name f) [])));
          fesc = snd (hg_json_escape 24 (Some fac_json));
          tesc = snd (hg_json_escape 64 (Some (or_default (cf_title f) [])));
          resc = snd (hg_json_escape 24 (Some race_out))
      in snprintf cap (sprintf
        [L ''The Grid reads you back: '', S (or_default (cf_name f) []), L '', level '', NI (cf_level f), L '' '',
         S race_out, S (if title \<noteq> [] then '' '' else []), S title, L '', '', S fac_prose,
         L '' standing, morality '', NI (cf_morality f), L ''.'', L crlf,
         L ''@event char.identity {\"name\":\"'', S nesc, L ''\",\"level\":'', NI (cf_level f), L '',\"xp\":'',
         NI (cf_xp f), L '',\"gold\":'', NI (cf_gold f), L '',\"faction\":\"'', S fesc, L ''\",\"morality\":'',
         NI (cf_morality f), L '',\"title\":\"'', S tesc, L ''\",\"race\":\"'', S resc, L ''\",\"ashsworn\":'',
         S (fmt_flag (cf_ashsworn f)), L ''}'', L crlf]))"

definition hg_fmt_grid_travel_unreachable :: "nat \<Rightarrow> fmt_result" where
  "hg_fmt_grid_travel_unreachable cap =
     snprintf cap (sprintf [L ''The Grid won't answer; travel is impossible right now.'', L crlf])"

definition hg_fmt_grid_travel_missing :: "nat \<Rightarrow> string option \<Rightarrow> fmt_result" where
  "hg_fmt_grid_travel_missing cap target = snprintf cap (sprintf
     [L ''No world called \"'', S (or_default target []), L ''\" answers on the Grid. (try 'worlds')'', L crlf])"

definition hg_fmt_grid_travel_here :: "nat \<Rightarrow> string option \<Rightarrow> fmt_result" where
  "hg_fmt_grid_travel_here cap world =
     snprintf cap (sprintf [L ''You're already in '', S (or_default world []), L ''.'', L crlf])"

definition hg_fmt_grid_travel_handoff :: "nat \<Rightarrow> string option \<Rightarrow> string option \<Rightarrow> fmt_result" where
  "hg_fmt_grid_travel_handoff cap wid url =
     (let idesc = snd (hg_json_escape 64 (Some (or_default wid [])));
          udesc = snd (hg_json_escape 176 (Some (or_default url [])))
      in snprintf cap (sprintf
        [L ''The Grid routes you toward '', S (or_default wid []),
         L ''. Reconnect there and your canonical character follows:'', L crlf,
         L ''    '', S (or_default url []), L crlf,
         L ''@event grid.travel {\"to\":\"'', S idesc, L ''\",\"url\":\"'', S udesc, L ''\"}'', L crlf]))"

section \<open>Appending to a bounded buffer\<close>

text \<open>The buffer holds \<open>buf\<close> and \<^verbatim>\<open>*off\<close> is its length.  A piece that does not
  fit is written truncated and reported: \<open>Inl\<close> of the text the buffer is left with.\<close>

definition fmt_append :: "nat \<Rightarrow> string \<Rightarrow> string \<Rightarrow> string + string" where
  "fmt_append cap buf s =
     (if cap \<le> length buf then Inl buf
      else if cap - length buf \<le> length s then Inl (buf @ take (cap - length buf - 1) s)
      else Inr (buf @ s))"

definition fmt_done :: "string + string \<Rightarrow> fmt_result" where
  "fmt_done r = (case r of Inl t \<Rightarrow> (-1, t) | Inr t \<Rightarrow> (int (length t), t))"

text \<open>An append to the local JSON buffer: a failure returns from the caller with the output buffer as it is.\<close>

definition json_append :: "nat \<Rightarrow> string \<Rightarrow> string \<Rightarrow> string \<Rightarrow> string + string" where
  "json_append jcap buf json s = (case fmt_append jcap json s of Inl _ \<Rightarrow> Inl buf | Inr j \<Rightarrow> Inr j)"

text \<open>The loop over the rows: a line of prose to the buffer, then an item to the JSON array.\<close>

fun rows_loop :: "nat \<Rightarrow> nat \<Rightarrow> (nat \<Rightarrow> string) \<Rightarrow> (nat \<Rightarrow> string) \<Rightarrow> nat list \<Rightarrow> string \<Rightarrow> string
    \<Rightarrow> string + (string \<times> string)" where
  "rows_loop cap jcap line item [] buf json = Inr (buf, json)"
| "rows_loop cap jcap line item (i # ks) buf json =
     ebind (fmt_append cap buf (line i)) (\<lambda>buf'.
     ebind (json_append jcap buf' json (item i)) (\<lambda>json'.
     rows_loop cap jcap line item ks buf' json'))"

lemma fmt_append_Inr [simp]:
  "fmt_append cap buf s = Inr t \<longleftrightarrow> t = buf @ s \<and> length t < cap"
  by (auto simp: fmt_append_def)

lemma fmt_append_Inl: "fmt_append cap buf s = Inl t \<Longrightarrow> cap \<le> length (buf @ s)"
  by (auto simp: fmt_append_def split: if_splits)

lemma fmt_append_bounded: "fmt_append cap buf s = Inl t \<Longrightarrow> length t < cap \<or> t = buf"
  by (auto simp: fmt_append_def split: if_splits)

lemma json_append_Inr [simp]:
  "json_append jcap buf json s = Inr j \<longleftrightarrow> j = json @ s \<and> length j < jcap"
  by (auto simp: json_append_def fmt_append_def)

lemma rows_loop_Inr:
  "rows_loop cap jcap line item ks buf json = Inr (buf', json') \<longleftrightarrow>
     buf' = buf @ concat (map line ks) \<and> json' = json @ concat (map item ks) \<and>
     (ks = [] \<or> length buf' < cap \<and> length json' < jcap)"
proof (induction ks arbitrary: buf json)
  case (Cons i ks)
  then show ?case by auto
qed auto

section \<open>Worlds\<close>

record grid_world_row =
  gw_id :: string
  gw_url :: string
  gw_last_seen :: i64

record federation_trace =
  ft_world :: string
  ft_node :: string
  ft_kind :: string
  ft_text :: string
  ft_at :: i64

text \<open>An entry of an \<^verbatim>\<open>int\<close> array that may be NULL, and the comma before every item
  but the first.\<close>

definition flag_at :: "i32 list option \<Rightarrow> nat \<Rightarrow> bool" where
  "flag_at xs i = (case xs of None \<Rightarrow> False | Some l \<Rightarrow> l ! i \<noteq> 0)"

definition comma_at :: "nat \<Rightarrow> string" where
  "comma_at i = (if i = 0 then [] else '','')"

definition world_tag :: "i32 list option \<Rightarrow> i32 list option \<Rightarrow> i32 list option \<Rightarrow> nat \<Rightarrow> string" where
  "world_tag reachable active here i =
     (if flag_at here i then ''you are here''
      else if flag_at reachable i \<and> flag_at active i then ''reachable, active now''
      else if flag_at reachable i then ''reachable, quiet''
      else ''seeded (not yet live)'')"

definition hg_fmt_grid_worlds_unreachable :: "nat \<Rightarrow> fmt_result" where
  "hg_fmt_grid_worlds_unreachable cap =
     snprintf cap (sprintf [L ''The Grid is silent; the registry is out of reach.'', L crlf])"

definition hg_fmt_grid_worlds ::
  "nat \<Rightarrow> grid_world_row list \<Rightarrow> i32 list option \<Rightarrow> i32 list option \<Rightarrow> i32 list option \<Rightarrow> int \<Rightarrow> fmt_result" where
  "hg_fmt_grid_worlds cap rows reachable active here count =
     (let line = (\<lambda>i. sprintf [L ''  '', S (gw_id (rows ! i)), L ''  ['', S (world_tag reachable active here i),
            L '']'', L crlf]);
          item = (\<lambda>i. let idesc = snd (hg_json_escape 64 (Some (gw_id (rows ! i)))) in
            sprintf [S (comma_at i), L ''{\"id\":\"'', S idesc, L ''\",\"reachable\":'',
            S (fmt_bool (flag_at reachable i)), L '',\"active\":'', S (fmt_bool (flag_at active i)),
            L '',\"lastSeen\":'', NI (gw_last_seen (rows ! i)), L '',\"here\":'', S (fmt_bool (flag_at here i)),
            L ''}''])
      in fmt_done (
        ebind (fmt_append cap [] (sprintf [L ''Worlds linked on the Grid (say 'travel <world>'):'', L crlf])) (\<lambda>buf.
        ebind (json_append 1024 buf [] ''['') (\<lambda>json.
        ebind (rows_loop cap 1024 line item [0..<nat count] buf json) (\<lambda>(buf, json).
        ebind (json_append 1024 buf json '']'') (\<lambda>json.
        fmt_append cap buf (sprintf [L ''@event grid.worlds {\"worlds\":'', S json, L ''}'', L crlf])))))))"

section \<open>Listen and ping\<close>

definition listen_intro :: string where
  "listen_intro = ''You go still and tune the dead frequencies. The static thins, and the network plays '' @
     ''something back -- a memory it never let go of:'' @ crlf @ ''  >> ''"

definition hg_fmt_grid_listen_echo :: "nat \<Rightarrow> string option \<Rightarrow> fmt_result" where
  "hg_fmt_grid_listen_echo cap heard =
     (let esc = snd (hg_json_escape 220 (Some (or_default heard [])))
      in snprintf cap (sprintf [L listen_intro, S (or_default heard []), L '' <<'', L crlf,
           L ''@event grid.transmission {\"kind\":\"echo\",\"text\":\"'', S esc, L ''\"}'', L crlf]))"

definition hg_fmt_grid_listen_trace ::
  "nat \<Rightarrow> string option \<Rightarrow> string option \<Rightarrow> string option \<Rightarrow> fmt_result" where
  "hg_fmt_grid_listen_trace cap heard world self_world =
     (let esc = snd (hg_json_escape 220 (Some (or_default heard [])));
          foreign = (case (world, self_world) of
              (Some w, Some sw) \<Rightarrow> w \<noteq> [] \<and> w \<noteq> sw | _ \<Rightarrow> False)
      in fmt_done (
        ebind (fmt_append cap [] (sprintf [L listen_intro, S (or_default heard []), L '' <<'', L crlf])) (\<lambda>buf.
        ebind (if foreign then fmt_append cap buf (sprintf
                 [L ''  (...the signal carries from somewhere called '', S (or_default world []), L '')'', L crlf])
               else Inr buf) (\<lambda>buf.
        fmt_append cap buf (sprintf
          [L ''@event grid.transmission {\"kind\":\"echo\",\"text\":\"'', S esc, L ''\"}'', L crlf])))))"

definition hg_fmt_grid_listen_empty :: "nat \<Rightarrow> fmt_result" where
  "hg_fmt_grid_listen_empty cap = snprintf cap (sprintf
     [L ''You go still and tune the dead frequencies. Only static answers; the deep memory here is empty.'', L crlf,
      L ''@event grid.transmission {\"kind\":\"empty\",\"text\":\"\"}'', L crlf])"

text \<open>Parallel arrays that may be NULL; the texts and kinds may hold NULL pointers.\<close>

definition text_at :: "string option list option \<Rightarrow> nat \<Rightarrow> string" where
  "text_at xs i = (case xs of None \<Rightarrow> [] | Some l \<Rightarrow> or_default (l ! i) [])"

definition time_at :: "i64 list option \<Rightarrow> nat \<Rightarrow> i64" where
  "time_at xs i = (case xs of None \<Rightarrow> 0 | Some l \<Rightarrow> l ! i)"

definition hg_fmt_grid_ping_echo ::
  "nat \<Rightarrow> string option \<Rightarrow> string option list option \<Rightarrow> string option list option \<Rightarrow> i64 list option \<Rightarrow> int \<Rightarrow> fmt_result" where
  "hg_fmt_grid_ping_echo cap room_id texts kinds ats count =
     (let line = (\<lambda>i. sprintf [L ''  - '', S (text_at texts i), L crlf]);
          item = (\<lambda>i. let esc = snd (hg_json_escape 220 (Some (text_at texts i)));
                          kesc = snd (hg_json_escape 32 (Some (text_at kinds i))) in
            sprintf [S (comma_at i), L ''{\"kind\":\"'', S kesc, L ''\",\"text\":\"'', S esc, L ''\",\"at\":'',
              NI (time_at ats i), L ''}'']);
          resc = snd (hg_json_escape 80 (Some (or_default room_id [])))
      in fmt_done (
        ebind (json_append 1536 [] [] ''['') (\<lambda>json.
        ebind (if count \<le> 0 then
                 map_sum (\<lambda>t. t) (\<lambda>buf. (buf, json)) (fmt_append cap [] (sprintf
                   [L ''You key into the dead Grid. Static, a cold hum... but this node remembers nothing. Not yet.'',
                    L '' (try 'ping all')'', L crlf]))
               else
                 ebind (fmt_append cap [] (sprintf [L ''You key into the dead Grid. Static, then it remembers:'', L crlf])) (\<lambda>buf.
                 ebind (rows_loop cap 1536 line item [0..<nat count] buf json) (\<lambda>(buf, json).
                 map_sum (\<lambda>t. t) (\<lambda>buf. (buf, json)) (fmt_append cap buf
                   (sprintf [L ''  (say 'ping all' to hear the whole network)'', L crlf]))))) (\<lambda>(buf, json).
        ebind (json_append 1536 buf json '']'') (\<lambda>json.
        fmt_append cap buf (sprintf [L ''@event grid.echo {\"node\":\"'', S resc, L ''\",\"traces\":'', S json,
          L ''}'', L crlf]))))))"

definition hg_fmt_grid_ping_all :: "nat \<Rightarrow> federation_trace list \<Rightarrow> int \<Rightarrow> fmt_result" where
  "hg_fmt_grid_ping_all cap traces count =
     (if count \<le> 0 then snprintf cap (sprintf
        [L ''The deep Grid hums, vast and empty. Nothing echoes back from the other nodes -- yet.'', L crlf,
         L ''@event grid.federation {\"traces\":[]}'', L crlf])
      else
        (let line = (\<lambda>i. sprintf [L ''  - ['', S (ft_world (traces ! i)), L ''] '', S (ft_text (traces ! i)), L crlf]);
             item = (\<lambda>i. let t = traces ! i; wesc = snd (hg_json_escape 64 (Some (ft_world t)));
                             nesc = snd (hg_json_escape 80 (Some (ft_node t)));
                             kesc = snd (hg_json_escape 32 (Some (ft_kind t)));
                             tesc = snd (hg_json_escape 220 (Some (ft_text t))) in
               sprintf [S (comma_at i), L ''{\"world\":\"'', S wesc, L ''\",\"node\":\"'', S nesc,
                 L ''\",\"kind\":\"'', S kesc, L ''\",\"text\":\"'', S tesc, L ''\",\"at\":'', NI (ft_at t), L ''}''])
         in fmt_done (
           ebind (fmt_append cap [] (sprintf
             [L ''You key past your own node, into the whole dead network. It remembers, from across the Grid:'', L crlf])) (\<lambda>buf.
           ebind (json_append 2048 buf [] ''['') (\<lambda>json.
           ebind (rows_loop cap 2048 line item [0..<nat count] buf json) (\<lambda>(buf, json).
           ebind (json_append 2048 buf json '']'') (\<lambda>json.
           fmt_append cap buf (sprintf [L ''@event grid.federation {\"traces\":'', S json, L ''}'', L crlf]))))))))"

section \<open>All or nothing\<close>

lemma concat_comma_at:
  "concat (map (\<lambda>i. comma_at i @ f i) [0..<n]) = commas (map f [0..<n])"
proof (induction n)
  case (Suc n)
  then show ?case by (cases "n = 0") (simp_all add: comma_at_def commas_snoc)
qed simp

lemma fmt_done_Inr: "r = Inr t \<Longrightarrow> fmt_done r = (int (length t), t)"
  by (simp add: fmt_done_def)

lemma fmt_done_nonneg: "0 \<le> fst (fmt_done r) \<longleftrightarrow> (\<exists>t. r = Inr t)"
  by (auto simp: fmt_done_def split: sum.splits)

lemma fmt_done_fit:
  assumes "\<And>t. r = Inr t \<longleftrightarrow> t = w \<and> fits"
  shows "if fits then fmt_done r = (int (length w), w) else fst (fmt_done r) = -1"
  using assms by (auto simp: fmt_done_def split: sum.splits)

lemma map_sum_id_Inr [simp]: "map_sum (\<lambda>t. t) f r = Inr y \<longleftrightarrow> (\<exists>x. r = Inr x \<and> y = f x)"
  by (cases r) auto

text \<open>The shape the table formatters share: a headline, the rows with their JSON items, the closing
  event.  It succeeds exactly when the whole text fits the buffer and the whole array its own.\<close>

lemma table_fits:
  assumes "concat (map item [0..<n]) = commas (map render vs)"
  shows "ebind (fmt_append cap [] heading) (\<lambda>buf.
      ebind (json_append jcap buf [] ''['') (\<lambda>json.
      ebind (rows_loop cap jcap line item [0..<n] buf json) (\<lambda>(buf, json).
      ebind (json_append jcap buf json '']'') (\<lambda>json. fmt_append cap buf (closing json))))) = Inr t \<longleftrightarrow>
    t = heading @ concat (map line [0..<n]) @ closing (render (JArr vs)) \<and>
    length (heading @ concat (map line [0..<n]) @ closing (render (JArr vs))) < cap \<and>
    length (render (JArr vs)) < jcap"
  using assms by (auto simp: rows_loop_Inr)

definition world_json :: "grid_world_row list \<Rightarrow> i32 list option \<Rightarrow> i32 list option \<Rightarrow> i32 list option \<Rightarrow> nat \<Rightarrow> jval" where
  "world_json rows reachable active here i = JObj
     [(''id'', JStr (gw_id (rows ! i))), (''reachable'', JBool (flag_at reachable i)),
      (''active'', JBool (flag_at active i)), (''lastSeen'', JInt (sint (gw_last_seen (rows ! i)))),
      (''here'', JBool (flag_at here i))]"

definition worlds_prose ::
  "grid_world_row list \<Rightarrow> i32 list option \<Rightarrow> i32 list option \<Rightarrow> i32 list option \<Rightarrow> nat \<Rightarrow> string" where
  "worlds_prose rows reachable active here n =
     ''Worlds linked on the Grid (say 'travel <world>'):'' @ crlf @
     concat (map (\<lambda>i. ''  '' @ gw_id (rows ! i) @ ''  ['' @ world_tag reachable active here i @ '']'' @ crlf) [0..<n])"

lemma world_item:
  assumes "nul_free (gw_id (rows ! i))" and "length (json_esc (gw_id (rows ! i))) < 64"
  shows "sprintf [S (comma_at i), L ''{\"id\":\"'', S (snd (hg_json_escape 64 (Some (gw_id (rows ! i))))), L ''\",\"reachable\":'',
            S (fmt_bool (flag_at reachable i)), L '',\"active\":'', S (fmt_bool (flag_at active i)),
            L '',\"lastSeen\":'', NI (gw_last_seen (rows ! i)), L '',\"here\":'', S (fmt_bool (flag_at here i)),
            L ''}''] = comma_at i @ render (world_json rows reachable active here i)"
  using assms by (simp add: hg_json_escape_fits world_json_def event_templates)

lemma items_commas:
  assumes "\<And>i. i < n \<Longrightarrow> item i = comma_at i @ render (f i)"
  shows "concat (map item [0..<n]) = commas (map render (map f [0..<n]))"
proof -
  have "concat (map item [0..<n]) = concat (map (\<lambda>i. comma_at i @ (render \<circ> f) i) [0..<n])"
    using assms by (intro arg_cong [where f = concat] map_cong) simp_all
  then show ?thesis by (simp add: concat_comma_at comp_def)
qed

definition worlds_json ::
  "grid_world_row list \<Rightarrow> i32 list option \<Rightarrow> i32 list option \<Rightarrow> i32 list option \<Rightarrow> nat \<Rightarrow> jval" where
  "worlds_json rows reachable active here n = JArr (map (world_json rows reachable active here) [0..<n])"

definition worlds_text ::
  "grid_world_row list \<Rightarrow> i32 list option \<Rightarrow> i32 list option \<Rightarrow> i32 list option \<Rightarrow> nat \<Rightarrow> string" where
  "worlds_text rows reachable active here n = worlds_prose rows reachable active here n @
     event_line ''grid.worlds'' (JObj [(''worlds'', worlds_json rows reachable active here n)])"

text \<open>The list of worlds is all or nothing: with world ids whose escaped form fits its buffer, the
  formatter either reports -1, exactly when the whole text overflows the caller's buffer or the JSON array
  its own 1024 bytes, or it leaves a headline, a line per world and one event whose JSON lists every world
  with its flags; never a shortened list or a cut event.\<close>

lemma grid_worlds_all_or_nothing:
  assumes ids: "\<forall>i < nat count. nul_free (gw_id (rows ! i)) \<and> length (json_esc (gw_id (rows ! i))) < 64"
  shows "let w = worlds_text rows reachable active here (nat count);
             r = hg_fmt_grid_worlds cap rows reachable active here count
         in if length w < cap \<and> length (render (worlds_json rows reachable active here (nat count))) < 1024
            then r = (int (length w), w) else fst r = -1"
proof -
  have items: "concat (map (\<lambda>i. sprintf [S (comma_at i), L ''{\"id\":\"'',
        S (snd (hg_json_escape 64 (Some (gw_id (rows ! i))))), L ''\",\"reachable\":'',
        S (fmt_bool (flag_at reachable i)), L '',\"active\":'', S (fmt_bool (flag_at active i)),
        L '',\"lastSeen\":'', NI (gw_last_seen (rows ! i)), L '',\"here\":'', S (fmt_bool (flag_at here i)),
        L ''}'']) [0..<nat count])
      = commas (map render (map (world_json rows reachable active here) [0..<nat count]))"
    using ids by (intro items_commas world_item) simp_all
  show ?thesis
    unfolding hg_fmt_grid_worlds_def Let_def
    by (rule fmt_done_fit, subst table_fits [OF items])
       (auto simp: worlds_json_def worlds_text_def worlds_prose_def event_line_def jquote_def esc_char_def esc_rep_def)
qed

definition trace_json :: "federation_trace list \<Rightarrow> nat \<Rightarrow> jval" where
  "trace_json traces i = (let t = traces ! i in JObj
     [(''world'', JStr (ft_world t)), (''node'', JStr (ft_node t)), (''kind'', JStr (ft_kind t)),
      (''text'', JStr (ft_text t)), (''at'', JInt (sint (ft_at t)))])"

definition trace_fits :: "federation_trace \<Rightarrow> bool" where
  "trace_fits t \<longleftrightarrow> nul_free (ft_world t) \<and> length (json_esc (ft_world t)) < 64 \<and>
     nul_free (ft_node t) \<and> length (json_esc (ft_node t)) < 80 \<and>
     nul_free (ft_kind t) \<and> length (json_esc (ft_kind t)) < 32 \<and>
     nul_free (ft_text t) \<and> length (json_esc (ft_text t)) < 220"

lemma trace_item:
  assumes "trace_fits (traces ! i)"
  shows "sprintf [S (comma_at i), L ''{\"world\":\"'', S (snd (hg_json_escape 64 (Some (ft_world (traces ! i))))),
      L ''\",\"node\":\"'', S (snd (hg_json_escape 80 (Some (ft_node (traces ! i))))),
      L ''\",\"kind\":\"'', S (snd (hg_json_escape 32 (Some (ft_kind (traces ! i))))),
      L ''\",\"text\":\"'', S (snd (hg_json_escape 220 (Some (ft_text (traces ! i))))), L ''\",\"at\":'',
      NI (ft_at (traces ! i)), L ''}''] = comma_at i @ render (trace_json traces i)"
  using assms by (simp add: trace_fits_def hg_json_escape_fits trace_json_def event_templates)

definition federation_text :: "federation_trace list \<Rightarrow> nat \<Rightarrow> string" where
  "federation_text traces n =
     (if n = 0 then ''The deep Grid hums, vast and empty. Nothing echoes back from the other nodes -- yet.'' @ crlf
      else ''You key past your own node, into the whole dead network. It remembers, from across the Grid:'' @ crlf @
        concat (map (\<lambda>i. ''  - ['' @ ft_world (traces ! i) @ ''] '' @ ft_text (traces ! i) @ crlf) [0..<n])) @
     event_line ''grid.federation'' (JObj [(''traces'', JArr (map (trace_json traces) [0..<n]))])"

text \<open>A ping of the whole network is all or nothing too: every trace is announced, in prose and as an
  item of the event, or the formatter reports -1 (with no trace at all, what it reports is the length it
  needs).\<close>

lemma ping_all_all_or_nothing:
  assumes "\<forall>i < nat count. trace_fits (traces ! i)"
  shows "let w = federation_text traces (nat count); r = hg_fmt_grid_ping_all cap traces count
         in if length w < cap \<and> length (render (JArr (map (trace_json traces) [0..<nat count]))) < 2048
            then r = (int (length w), w) else fst r = -1 \<or> count \<le> 0 \<and> r = snprintf cap w"
proof (cases "count \<le> 0")
  case True
  then have "hg_fmt_grid_ping_all cap traces count = snprintf cap (federation_text traces (nat count))"
    by (simp add: hg_fmt_grid_ping_all_def federation_text_def event_templates)
  with True show ?thesis by (simp add: snprintf_fits)
next
  case False
  have items: "concat (map (\<lambda>i. sprintf [S (comma_at i), L ''{\"world\":\"'',
      S (snd (hg_json_escape 64 (Some (ft_world (traces ! i))))),
      L ''\",\"node\":\"'', S (snd (hg_json_escape 80 (Some (ft_node (traces ! i))))),
      L ''\",\"kind\":\"'', S (snd (hg_json_escape 32 (Some (ft_kind (traces ! i))))),
      L ''\",\"text\":\"'', S (snd (hg_json_escape 220 (Some (ft_text (traces ! i))))), L ''\",\"at\":'',
      NI (ft_at (traces ! i)), L ''}'']) [0..<nat count])
      = commas (map render (map (trace_json traces) [0..<nat count]))"
    using assms by (intro items_commas trace_item) simp_all
  from False have "if length (federation_text traces (nat count)) < cap \<and>
        length (render (JArr (map (trace_json traces) [0..<nat count]))) < 2048
      then hg_fmt_grid_ping_all cap traces count =
        (int (length (federation_text traces (nat count))), federation_text traces (nat count))
      else fst (hg_fmt_grid_ping_all cap traces count) = -1"
    unfolding hg_fmt_grid_ping_all_def Let_def if_not_P [OF False]
    by (intro fmt_done_fit, subst table_fits [OF items])
       (auto simp: federation_text_def event_line_def jquote_def esc_char_def esc_rep_def)
  then show ?thesis by (auto simp: Let_def)
qed

section \<open>Ping of the local node\<close>

definition echo_json :: "string option list option \<Rightarrow> string option list option \<Rightarrow> i64 list option \<Rightarrow> nat \<Rightarrow> jval" where
  "echo_json texts kinds ats i = JObj
     [(''kind'', JStr (text_at kinds i)), (''text'', JStr (text_at texts i)), (''at'', JInt (sint (time_at ats i)))]"

definition echo_event ::
  "string \<Rightarrow> string option list option \<Rightarrow> string option list option \<Rightarrow> i64 list option \<Rightarrow> nat \<Rightarrow> jval" where
  "echo_event room texts kinds ats n = JObj
     [(''node'', JStr room), (''traces'', JArr (map (echo_json texts kinds ats) [0..<n]))]"

definition echo_text ::
  "string \<Rightarrow> string option list option \<Rightarrow> string option list option \<Rightarrow> i64 list option \<Rightarrow> nat \<Rightarrow> string" where
  "echo_text room texts kinds ats n =
     (if n = 0 then ''You key into the dead Grid. Static, a cold hum... but this node remembers nothing. Not yet.''
        @ '' (try 'ping all')'' @ crlf
      else ''You key into the dead Grid. Static, then it remembers:'' @ crlf @
        concat (map (\<lambda>i. ''  - '' @ text_at texts i @ crlf) [0..<n]) @
        ''  (say 'ping all' to hear the whole network)'' @ crlf) @
     event_line ''grid.echo'' (echo_event room texts kinds ats n)"

definition echo_fits :: "string option list option \<Rightarrow> string option list option \<Rightarrow> nat \<Rightarrow> bool" where
  "echo_fits texts kinds i \<longleftrightarrow> nul_free (text_at texts i) \<and> length (json_esc (text_at texts i)) < 220 \<and>
     nul_free (text_at kinds i) \<and> length (json_esc (text_at kinds i)) < 32"

lemma echo_item:
  assumes "echo_fits texts kinds i"
  shows "sprintf [S (comma_at i), L ''{\"kind\":\"'', S (snd (hg_json_escape 32 (Some (text_at kinds i)))),
      L ''\",\"text\":\"'', S (snd (hg_json_escape 220 (Some (text_at texts i)))), L ''\",\"at\":'',
      NI (time_at ats i), L ''}''] = comma_at i @ render (echo_json texts kinds ats i)"
  using assms by (simp add: echo_fits_def hg_json_escape_fits echo_json_def event_templates)

lemma echo_table_fits:
  assumes "concat (map item [0..<n]) = commas (map render vs)"
  shows "ebind (json_append jcap [] [] ''['') (\<lambda>json.
      ebind (ebind (fmt_append cap [] heading) (\<lambda>buf.
        ebind (rows_loop cap jcap line item [0..<n] buf json) (\<lambda>(buf, json).
        map_sum (\<lambda>t. t) (\<lambda>buf. (buf, json)) (fmt_append cap buf footer)))) (\<lambda>(buf, json).
      ebind (json_append jcap buf json '']'') (\<lambda>json. fmt_append cap buf (closing json)))) = Inr t \<longleftrightarrow>
    t = heading @ concat (map line [0..<n]) @ footer @ closing (render (JArr vs)) \<and>
    length (heading @ concat (map line [0..<n]) @ footer @ closing (render (JArr vs))) < cap \<and>
    length (render (JArr vs)) < jcap"
  using assms by (auto simp: rows_loop_Inr)

text \<open>A ping of the room's own node is all or nothing: the formatter reports -1, or the reply names every
  remembered trace of the node once in prose and once in the event, in order, with the node's id.\<close>

lemma ping_echo_all_or_nothing:
  assumes rows: "\<forall>i < nat count. echo_fits texts kinds i"
    and room: "nul_free (or_default room_id [])" "length (json_esc (or_default room_id [])) < 80"
  shows "let w = echo_text (or_default room_id []) texts kinds ats (nat count);
             r = hg_fmt_grid_ping_echo cap room_id texts kinds ats count
         in if length w < cap \<and> length (render (JArr (map (echo_json texts kinds ats) [0..<nat count]))) < 1536
            then r = (int (length w), w) else fst r = -1"
proof -
  have items: "concat (map (\<lambda>i. sprintf [S (comma_at i), L ''{\"kind\":\"'',
      S (snd (hg_json_escape 32 (Some (text_at kinds i)))),
      L ''\",\"text\":\"'', S (snd (hg_json_escape 220 (Some (text_at texts i)))), L ''\",\"at\":'',
      NI (time_at ats i), L ''}'']) [0..<nat count])
      = commas (map render (map (echo_json texts kinds ats) [0..<nat count]))"
    using rows by (intro items_commas echo_item) simp_all
  show ?thesis
  proof (cases "count \<le> 0")
    case True
    then show ?thesis
      unfolding hg_fmt_grid_ping_echo_def Let_def if_P [OF True]
      using room by (intro fmt_done_fit)
        (auto simp: echo_text_def echo_event_def event_line_def jquote_def esc_char_def esc_rep_def
           hg_json_escape_fits commas_def)
  next
    case False
    then show ?thesis
      unfolding hg_fmt_grid_ping_echo_def Let_def if_not_P [OF False]
      using room by (intro fmt_done_fit, subst echo_table_fits [OF items])
        (auto simp: echo_text_def echo_event_def event_line_def jquote_def esc_char_def esc_rep_def
           hg_json_escape_fits commas_Cons2)
  qed
qed

section \<open>What the returned length means\<close>

definition handoff_text :: "string \<Rightarrow> string \<Rightarrow> string" where
  "handoff_text w u = ''The Grid routes you toward '' @ w @
     ''. Reconnect there and your canonical character follows:'' @ crlf @ ''    '' @ u @ crlf @
     event_line ''grid.travel'' (JObj [(''to'', JStr w), (''url'', JStr u)])"

lemma handoff_refines:
  assumes "nul_free w" and "nul_free u" and "length (json_esc w) < 64" and "length (json_esc u) < 176"
  shows "hg_fmt_grid_travel_handoff cap (Some w) (Some u) = snprintf cap (handoff_text w u)"
  using assms
  by (simp add: hg_fmt_grid_travel_handoff_def handoff_text_def hg_json_escape_fits or_default_def Let_def event_templates)

lemma length_handoff_text:
  "json_plain w \<Longrightarrow> json_plain u \<Longrightarrow> length (handoff_text w u) = 129 + 2 * (length w + length u)"
  by (simp add: handoff_text_def event_templates)

lemma snprintf_whole: "0 < cap \<Longrightarrow> snd (snprintf cap s) = s \<longleftrightarrow> length s < cap"
  by (auto simp: snprintf_def)

text \<open>The formatters return the length they would have needed, not -1, when the text is cut: the hand-off
  to another world, in the caller's buffer of 512 bytes, returns 129 plus twice the lengths of the world's id
  and url, which is the length of the buffer's text only while it stays below 512; the registry's longest
  entries (47 and 159 bytes) pass that, and the header's contract (-1 on truncation) is not met.\<close>

lemma travel_handoff_length:
  assumes "json_plain w" and "json_plain u" and "length w < 48" and "length u < 160"
  shows "fst (hg_fmt_grid_travel_handoff 512 (Some w) (Some u)) = 129 + 2 * (int (length w) + int (length u)) \<and>
    (snd (hg_fmt_grid_travel_handoff 512 (Some w) (Some u)) = handoff_text w u \<longleftrightarrow> length w + length u < 192)"
  using assms
  by (simp add: handoff_refines json_plain_nul_free length_handoff_text snprintf_whole) arith

definition identity_json :: "char_identity_fields \<Rightarrow> jval" where
  "identity_json f = JObj
     [(''name'', JStr (or_default (cf_name f) [])), (''level'', JInt (sint (cf_level f))),
      (''xp'', JInt (sint (cf_xp f))), (''gold'', JInt (sint (cf_gold f))),
      (''faction'', JStr (nonempty_or (cf_faction f) ''none'')), (''morality'', JInt (sint (cf_morality f))),
      (''title'', JStr (or_default (cf_title f) [])), (''race'', JStr (nonempty_or (cf_race f) ''human'')),
      (''ashsworn'', JBool (cf_ashsworn f \<noteq> 0))]"

definition identity_prose :: "char_identity_fields \<Rightarrow> string" where
  "identity_prose f = ''The Grid reads you back: '' @ or_default (cf_name f) [] @ '', level '' @
     int_dec (sint (cf_level f)) @ '' '' @ nonempty_or (cf_race f) ''human'' @
     (if nonempty_or (cf_title f) [] \<noteq> [] then '' '' else []) @ nonempty_or (cf_title f) [] @ '', '' @
     nonempty_or (cf_faction f) ''unaligned'' @ '' standing, morality '' @ int_dec (sint (cf_morality f)) @ ''.'' @ crlf"

definition identity_fits :: "char_identity_fields \<Rightarrow> bool" where
  "identity_fits f \<longleftrightarrow>
     nul_free (or_default (cf_name f) []) \<and> length (json_esc (or_default (cf_name f) [])) < 40 \<and>
     nul_free (nonempty_or (cf_faction f) ''none'') \<and> length (json_esc (nonempty_or (cf_faction f) ''none'')) < 24 \<and>
     nul_free (or_default (cf_title f) []) \<and> length (json_esc (or_default (cf_title f) [])) < 64 \<and>
     nul_free (nonempty_or (cf_race f) ''human'') \<and> length (json_esc (nonempty_or (cf_race f) ''human'')) < 24"

lemma identity_refines:
  assumes "identity_fits f"
  shows "hg_fmt_char_identity cap (Some f) =
    snprintf cap (identity_prose f @ event_line ''char.identity'' (identity_json f))"
  using assms
  by (simp add: hg_fmt_char_identity_def identity_fits_def identity_prose_def identity_json_def
      hg_json_escape_fits Let_def event_templates)

end
