(* ===== verification/Auth.thy ===== *)
theory Auth
  imports HG_Prelude
begin

text \<open>
  \<^verbatim>\<open>ffi/auth.c\<close>: the keeper token from the environment and the passphrases of players.
  The environment variable is an argument; the random source, \<^verbatim>\<open>crypt_gensalt_rn\<close> and
  \<^verbatim>\<open>crypt_r\<close> (libxcrypt and OpenSSL) are parameters, with what the program relies on as
  hypotheses where a property needs it.
\<close>

unbundle bit_operations_syntax

section \<open>Comparing without early exit\<close>

text \<open>The byte of a C string at an index, its terminator included.  Past the terminator the value never
  matters: there the other operand has a byte that is not 0, so the difference is already recorded.\<close>

definition byte_at :: "string \<Rightarrow> nat \<Rightarrow> 8 word" where
  "byte_at s i = (if i < length s then word_of_nat (of_char (s ! i)) else 0)"

definition constant_time_eq :: "string \<Rightarrow> string \<Rightarrow> nat \<Rightarrow> bool" where
  "constant_time_eq a b n = (fold (\<lambda>i diff. diff OR (byte_at a i XOR byte_at b i)) [0..<n] 0 = 0)"

lemma word_or_eq_0: "a OR b = 0 \<longleftrightarrow> a = 0 \<and> b = (0 :: 'a :: len word)"
  by (simp add: bit_eq_iff bit_or_iff; blast)

lemma word_xor_eq_0: "a XOR b = 0 \<longleftrightarrow> a = (b :: 'a :: len word)"
  by (simp add: bit_eq_iff bit_xor_iff; blast)

lemma fold_or_eq_0:
  "fold (\<lambda>i d. d OR f i) xs d = 0 \<longleftrightarrow> d = (0 :: 'a :: len word) \<and> (\<forall>i \<in> set xs. f i = 0)"
  by (induction xs arbitrary: d) (auto simp: word_or_eq_0)

lemma constant_time_eq_iff: "constant_time_eq a b n \<longleftrightarrow> (\<forall>i < n. byte_at a i = byte_at b i)"
  by (simp add: constant_time_eq_def fold_or_eq_0 word_xor_eq_0 Ball_def)

lemma unat_char_byte: "unat (word_of_nat (of_char c) :: 8 word) = of_char c"
  by (simp add: unat_of_nat)

lemma char_byte_inj: "(word_of_nat (of_char c) :: 8 word) = word_of_nat (of_char d) \<longleftrightarrow> c = d"
  by (metis of_char_eq_iff unat_char_byte)

lemma byte_at_in: "i < length s \<Longrightarrow> byte_at s i = byte_at t i \<longleftrightarrow> (if i < length t then s ! i = t ! i else s ! i = NUL)"
proof -
  have "(word_of_nat (of_char c) :: 8 word) = 0 \<longleftrightarrow> c = NUL" for c
    using char_byte_inj [of c NUL] by simp
  then show "i < length s \<Longrightarrow> ?thesis" by (simp add: byte_at_def char_byte_inj)
qed

lemma constant_time_eq_prefix:
  assumes "nul_free b"
  shows "constant_time_eq a b (length b) \<longleftrightarrow> take (length b) a = b"
proof -
  have nz: "b ! i \<noteq> NUL" if "i < length b" for i
    using assms that by (auto simp: nul_free_def in_set_conv_nth)
  have "(\<forall>i < length b. byte_at b i = byte_at a i) \<longleftrightarrow> (\<forall>i < length b. i < length a \<and> b ! i = a ! i)"
    using nz by (auto simp: byte_at_in split: if_splits)
  also have "\<dots> \<longleftrightarrow> take (length b) a = b"
  proof
    assume eq: "\<forall>i < length b. i < length a \<and> b ! i = a ! i"
    have "length b \<le> length a"
      using eq by (cases "length b") auto
    with eq show "take (length b) a = b" by (intro nth_equalityI) simp_all
  next
    assume eq: "take (length b) a = b"
    then have "length b \<le> length a" by (metis length_take min.cobounded1)
    with eq show "\<forall>i < length b. i < length a \<and> b ! i = a ! i" by (metis nth_take order_less_le_trans)
  qed
  finally show ?thesis by (simp add: constant_time_eq_iff eq_commute)
qed

section \<open>The keeper token\<close>

text \<open>\<^verbatim>\<open>isspace\<close> in the C locale.\<close>

definition isspace :: "char \<Rightarrow> bool" where
  "isspace c \<longleftrightarrow> (let n = of_char c :: nat in 9 \<le> n \<and> n \<le> 13 \<or> n = 32)"

definition hg_auth_require_admin_token :: "string option \<Rightarrow> int" where
  "hg_auth_require_admin_token expected =
     (case expected of None \<Rightarrow> -1 | Some e \<Rightarrow> if e = [] then -1 else 0)"

text \<open>The second loop of the trim shortens the length while the last byte is a space.\<close>

fun trim_len :: "string \<Rightarrow> nat \<Rightarrow> nat" where
  "trim_len s 0 = 0"
| "trim_len s (Suc n) = (if isspace (s ! n) then trim_len s n else Suc n)"

definition hg_auth_verify_admin_token :: "string option \<Rightarrow> string option \<Rightarrow> bool" where
  "hg_auth_verify_admin_token expected token =
     (case expected of
        None \<Rightarrow> False
      | Some e \<Rightarrow>
          if e = [] then False
          else case token of
            None \<Rightarrow> False
          | Some t0 \<Rightarrow>
              let t = dropWhile isspace t0; tlen = trim_len t (length t)
              in if tlen \<noteq> length e \<or> tlen = 0 then False else constant_time_eq t e tlen)"

definition rstrip :: "string \<Rightarrow> string" where
  "rstrip s = rev (dropWhile isspace (rev s))"

definition strip :: "string \<Rightarrow> string" where
  "strip s = rstrip (dropWhile isspace s)"

lemma rstrip_snoc: "rstrip (s @ [c]) = (if isspace c then rstrip s else s @ [c])"
  by (simp add: rstrip_def)

lemma trim_len_append: "n \<le> length s \<Longrightarrow> trim_len (s @ t) n = trim_len s n"
  by (induction n) (simp_all add: nth_append)

lemma trim_len_le: "trim_len s n \<le> n"
  by (induction n) simp_all

lemma take_trim_len: "take (trim_len s (length s)) s = rstrip s"
proof (induction s rule: rev_induct)
  case Nil
  show ?case by (simp add: rstrip_def)
next
  case (snoc c s)
  have "trim_len s (length s) \<le> length s" by (rule trim_len_le)
  with snoc show ?case by (simp add: rstrip_snoc trim_len_append)
qed

lemma trim_len_rstrip: "trim_len s (length s) = length (rstrip s)"
  using take_trim_len [of s] trim_len_le [of s "length s"] by (metis length_take min.absorb2)

text \<open>C27. The keeper's token check accepts exactly the configured token: the variable is set and not empty,
  and what the player typed, stripped of surrounding white space, is the token, byte for byte.  The
  comparison looks at every byte whatever the outcome of the earlier ones.\<close>

theorem admin_token_exact:
  assumes "nul_free e"
  shows "hg_auth_verify_admin_token (Some e) (Some t) \<longleftrightarrow> e \<noteq> [] \<and> strip t = e"
proof (cases "trim_len (dropWhile isspace t) (length (dropWhile isspace t)) = length e")
  case True
  then have "take (length e) (dropWhile isspace t) = strip t"
    using take_trim_len [of "dropWhile isspace t"] by (simp add: strip_def)
  with True assms show ?thesis
    by (simp add: hg_auth_verify_admin_token_def Let_def constant_time_eq_prefix)
next
  case False
  then have "strip t \<noteq> e" by (auto simp: strip_def trim_len_rstrip)
  with False show ?thesis by (simp add: hg_auth_verify_admin_token_def Let_def)
qed

theorem admin_token_exact_witness:
  "hg_auth_verify_admin_token (Some ''ash'') (Some '' ash '') \<and> \<not> hg_auth_verify_admin_token (Some ''ash'') (Some ''as'')"
  using admin_token_exact [of "''ash''" "'' ash ''"] admin_token_exact [of "''ash''" "''as''"]
  by (simp add: strip_def rstrip_def isspace_def)

section \<open>Passphrases\<close>

definition hg_auth_phrase_ok :: "string option \<Rightarrow> bool" where
  "hg_auth_phrase_ok phrase = (case phrase of None \<Rightarrow> False | Some p \<Rightarrow> 8 \<le> length p \<and> length p \<le> 128)"

text \<open>\<open>rnd\<close> is the outcome of \<^verbatim>\<open>RAND_bytes\<close>, \<open>gensalt\<close> is
  \<^verbatim>\<open>crypt_gensalt_rn\<close> on prefix, cost, random bytes and output size.\<close>

type_synonym gensalt = "string \<Rightarrow> nat \<Rightarrow> string \<Rightarrow> nat \<Rightarrow> string option"
type_synonym crypt = "string \<Rightarrow> string \<Rightarrow> string option"

definition make_bcrypt_salt :: "string option \<Rightarrow> gensalt \<Rightarrow> nat \<Rightarrow> string option" where
  "make_bcrypt_salt rnd gensalt out_len =
     (if out_len < 30 then None
      else case rnd of None \<Rightarrow> None | Some raw \<Rightarrow> gensalt ''$2b$'' 10 raw out_len)"

definition crypt_failed :: "string option \<Rightarrow> bool" where
  "crypt_failed h = (case h of None \<Rightarrow> True | Some s \<Rightarrow> take 1 s = ''*'')"

definition hg_auth_hash_passphrase ::
  "crypt \<Rightarrow> gensalt \<Rightarrow> string option \<Rightarrow> string option \<Rightarrow> nat \<Rightarrow> string option" where
  "hg_auth_hash_passphrase crypt gensalt rnd phrase out_len =
     (if \<not> hg_auth_phrase_ok phrase \<or> out_len < 72 then None
      else case make_bcrypt_salt rnd gensalt 64 of
        None \<Rightarrow> None
      | Some salt \<Rightarrow>
          let h = crypt (or_default phrase []) salt
          in if crypt_failed h then None
             else if out_len \<le> length (or_default h []) then None else h)"

definition hg_auth_verify_passphrase :: "crypt \<Rightarrow> string option \<Rightarrow> string option \<Rightarrow> bool" where
  "hg_auth_verify_passphrase crypt phrase hash =
     (case hash of
        None \<Rightarrow> False
      | Some h \<Rightarrow>
          if \<not> hg_auth_phrase_ok phrase \<or> h = [] then False
          else if take 2 h \<noteq> ''$2'' then False
          else let got = crypt (or_default phrase []) h
               in if crypt_failed got then False
                  else constant_time_eq (or_default got []) h (length h))"

lemma crypt_okE:
  assumes "\<not> crypt_failed h"
  obtains s where "h = Some s" "take 1 s \<noteq> ''*''"
  using assms by (auto simp: crypt_failed_def split: option.splits)

lemma passphrase_accepted_aux:
  assumes "nul_free h"
  shows "hg_auth_verify_passphrase crypt (Some p) (Some h) \<longleftrightarrow>
     8 \<le> length p \<and> length p \<le> 128 \<and> take 2 h = ''$2'' \<and>
     (\<exists>got. crypt p h = Some got \<and> take 1 got \<noteq> ''*'' \<and> take (length h) got = h)"
  using assms
  by (cases "h = []"; cases "crypt p h")
     (auto simp: hg_auth_verify_passphrase_def hg_auth_phrase_ok_def crypt_failed_def or_default_def Let_def
       constant_time_eq_prefix)

text \<open>What the passphrase check accepts: a phrase of 8 to 128 bytes whose recomputed hash starts with
  the stored one.  As the stored text bounds the comparison, a stored hash cut to its first bytes is matched
  by any longer hash with that prefix: the check relies on the record being whole.\<close>

lemma passphrase_accepted_iff:
  assumes "nul_free h"
  shows "hg_auth_verify_passphrase crypt (Some p) (Some h) \<longleftrightarrow>
     8 \<le> length p \<and> length p \<le> 128 \<and> take 2 h = ''$2'' \<and>
     (\<exists>got. crypt p h = Some got \<and> take 1 got \<noteq> ''*'' \<and> take (length h) got = h)"
  by (rule passphrase_accepted_aux [OF assms])

text \<open>What is documented of \<^verbatim>\<open>crypt_gensalt_rn\<close> and of \<^verbatim>\<open>crypt_r\<close> for the method the code
  asks for (\<^verbatim>\<open>$2b$\<close>, bcrypt): the setting has the prefix of its method; under such a setting a hash is 60
  printing characters with that prefix, and hashing the same phrase with the hash as the setting gives the hash again.
  Nothing is said of settings of other methods.\<close>

definition bcrypt_text :: "string \<Rightarrow> bool" where
  "bcrypt_text s \<longleftrightarrow> take 4 s = ''$2b$''"

definition bcrypt_documented :: "crypt \<Rightarrow> gensalt \<Rightarrow> bool" where
  "bcrypt_documented crypt gensalt \<longleftrightarrow>
     (\<forall>raw s. gensalt ''$2b$'' 10 raw 64 = Some s \<longrightarrow> bcrypt_text s) \<and>
     (\<forall>p s h. bcrypt_text s \<longrightarrow> crypt p s = Some h \<longrightarrow> take 1 h \<noteq> ''*'' \<longrightarrow>
        bcrypt_text h \<and> length h = 60 \<and> nul_free h \<and> crypt p h = Some h)"

text \<open>C15. A passphrase that was stored is recognised.  The code hashes with a setting of the method bcrypt; given what
  is documented of that method (a setting and its hashes start with \<^verbatim>\<open>$2b$\<close>, a hash has 60 characters, and
  hashing under a hash repeats it), once hashing succeeded the check accepts the phrase, and it accepts another phrase
  of allowed length only on a collision of the hash function.  The stored text fits the session's 72-byte cell.\<close>

theorem passphrase_roundtrip:
  assumes h: "hg_auth_hash_passphrase crypt gensalt rnd (Some p) 72 = Some h"
    and documented: "bcrypt_documented crypt gensalt"
  shows "hg_auth_verify_passphrase crypt (Some p) (Some h) \<and> length h < 72 \<and>
     (hg_auth_verify_passphrase crypt (Some q) (Some h) \<longleftrightarrow>
        8 \<le> length q \<and> length q \<le> 128 \<and> crypt q h = crypt p h)"
proof -
  from h obtain salt where ok: "hg_auth_phrase_ok (Some p)" and salt: "make_bcrypt_salt rnd gensalt 64 = Some salt"
    and c: "crypt p salt = Some h" and nf: "take 1 h \<noteq> ''*''" and len: "length h < 72"
    by (auto simp: hg_auth_hash_passphrase_def crypt_failed_def or_default_def Let_def split: if_splits option.splits)
  from salt obtain raw where "gensalt ''$2b$'' 10 raw 64 = Some salt"
    by (auto simp: make_bcrypt_salt_def split: option.splits)
  with documented have "bcrypt_text salt" by (auto simp: bcrypt_documented_def)
  with documented c nf have b: "bcrypt_text h" "length h = 60" "nul_free h" "crypt p h = Some h"
    unfolding bcrypt_documented_def by blast+
  have wide: "length g = 60" if "crypt q h = Some g" "take 1 g \<noteq> ''*''" for g
    using documented b(1) that unfolding bcrypt_documented_def by blast
  have "take 2 h = take 2 (take 4 h)" by (simp only: take_take min_def) simp
  also have "\<dots> = take 2 ''$2b$''" using b(1) by (simp only: bcrypt_text_def)
  finally have "take 2 h = ''$2''" by simp
  then have "hg_auth_verify_passphrase crypt (Some q) (Some h) \<longleftrightarrow>
      8 \<le> length q \<and> length q \<le> 128 \<and> crypt q h = crypt p h"
    and "hg_auth_verify_passphrase crypt (Some p) (Some h) \<longleftrightarrow> 8 \<le> length p \<and> length p \<le> 128"
    using wide nf b(2, 4) by (auto simp: passphrase_accepted_aux [OF b(3)])
  with ok len show ?thesis by (simp add: hg_auth_phrase_ok_def)
qed

text \<open>An instance of the parameters on which the hypotheses hold: a transparent hash of the right shape.\<close>

definition plain_crypt :: crypt where
  "plain_crypt q s = (if take 2 s = ''$2'' \<and> nul_free q
     then Some (''$2b$10$'' @ take 53 (q @ replicate 53 (CHR ''x''))) else None)"

lemma nul_free_replicate_x [simp]: "nul_free (replicate n (CHR ''x''))"
  by (simp add: nul_free_def)

lemma plain_crypt_Some: "plain_crypt q s = Some g \<longleftrightarrow>
    take 2 s = ''$2'' \<and> nul_free q \<and> g = ''$2b$10$'' @ take 53 (q @ replicate 53 (CHR ''x''))"
  by (auto simp: plain_crypt_def)

theorem passphrase_roundtrip_witness:
  "hg_auth_hash_passphrase plain_crypt (\<lambda>_ _ _ _. Some ''$2b$10$'') (Some []) (Some ''password'') 72
     = Some (''$2b$10$password'' @ replicate 45 (CHR ''x'')) \<and>
   hg_auth_verify_passphrase plain_crypt (Some ''password'') (Some (''$2b$10$password'' @ replicate 45 (CHR ''x''))) \<and>
   \<not> hg_auth_verify_passphrase plain_crypt (Some ''passw0rd'') (Some (''$2b$10$password'' @ replicate 45 (CHR ''x'')))"
proof -
  have c: "plain_crypt ''password'' s = Some (''$2b$10$password'' @ replicate 45 (CHR ''x''))" if "take 2 s = ''$2''" for s
    using that by (simp add: plain_crypt_def)
  then have h: "hg_auth_hash_passphrase plain_crypt (\<lambda>_ _ _ _. Some ''$2b$10$'') (Some []) (Some ''password'') 72
     = Some (''$2b$10$password'' @ replicate 45 (CHR ''x''))"
    by (simp add: hg_auth_hash_passphrase_def hg_auth_phrase_ok_def make_bcrypt_salt_def or_default_def
        crypt_failed_def)
  have doc: "bcrypt_documented plain_crypt (\<lambda>_ _ _ _. Some ''$2b$10$'')"
    by (auto simp: bcrypt_documented_def bcrypt_text_def plain_crypt_Some)
  have "hg_auth_verify_passphrase plain_crypt (Some q) (Some (''$2b$10$password'' @ replicate 45 (CHR ''x''))) \<longleftrightarrow>
      8 \<le> length q \<and> length q \<le> 128 \<and>
      plain_crypt q (''$2b$10$password'' @ replicate 45 (CHR ''x'')) =
      plain_crypt ''password'' (''$2b$10$password'' @ replicate 45 (CHR ''x''))" for q
    by (rule passphrase_roundtrip [OF h doc, THEN conjunct2, THEN conjunct2])
  with h show ?thesis by (simp add: plain_crypt_def)
qed

end
