(* ===== verification/Policy.thy ===== *)
theory Policy
  imports Format
begin

text \<open>
  The decisions the assembly side authors and the C emitters serialise: the brand over a survivor's
  head and the regard they are held in, the dream of a rest, the moral menu of a room and the kinds of
  trace a prune removes (\<^verbatim>\<open>asm/actions.asm\<close>), and the list of keepers
  (\<^verbatim>\<open>asm/social_ledger.asm\<close>).
\<close>

section \<open>Brand and regard\<close>

definition hg_brand_standing :: "session option \<Rightarrow> string" where
  "hg_brand_standing sp =
     (case sp of None \<Rightarrow> []
      | Some s \<Rightarrow>
          if s_ashsworn s \<noteq> 0 then ''ash-sworn''
          else if s_faction s = ''front'' then ''Cinder Front''
          else if s_faction s = ''ally'' then ''Free Folk ally''
          else if 50 \<le> sint (s_morality s) then ''a beacon of the wastes''
          else if sint (s_morality s) \<le> -50 then ''reviled''
          else [])"

definition hg_regard_of :: "session \<Rightarrow> string" where
  "hg_regard_of s =
     (if s_ashsworn s \<noteq> 0 then ''branded''
      else if 50 \<le> sint (s_morality s) then ''honored''
      else if sint (s_morality s) \<le> -50 then ''feared''
      else if s_faction s = ''ally'' then ''trusted''
      else if s_faction s = ''front'' then ''front''
      else ''neutral'')"

lemma brand_plain [simp]: "json_plain (hg_brand_standing sp)"
  by (simp add: hg_brand_standing_def esc_rep_def split: option.splits)

lemma regard_plain [simp]: "json_plain (hg_regard_of s)"
  by (simp add: hg_regard_of_def esc_rep_def)

lemma length_brand [len_bounds]: "length (hg_brand_standing sp) \<le> 22"
  by (simp add: hg_brand_standing_def split: option.splits)

lemma length_regard [len_bounds]: "length (hg_regard_of s) \<le> 8"
  by (simp add: hg_regard_of_def)

section \<open>Dreams\<close>

definition dream_front :: string where
  "dream_front = ''You dream of a coin that will not stop being warm in your hand, '' @
     ''and a line of faces that have learned not to look at you.''"

definition dream_good :: string where
  "dream_good = ''You dream of names you spoke once into dead static -- and the '' @
     ''static, impossibly, speaking them back to you, one by one, refusing to forget.''"

definition dream_bad :: string where
  "dream_bad = ''You dream of a ledger writing itself in the dark, every line a thing you told yourself did not count.''"

definition dream_neutral :: string where
  "dream_neutral = ''You dream of the wastes seen from above, the dead network laid '' @
     ''out like veins -- and somewhere down in it, a single cursor, '' @
     ''blinking your name, waiting to see what you make of it.''"

definition dream_personal :: "string \<Rightarrow> string" where
  "dream_personal who = sprintf [L ''You dream of '', S who,
     L '', the way they looked when you cut them loose -- '',
     L ''and the Grid, stubborn, keeping that face lit in the dark so you cannot pretend it did not happen.'']"

text \<open>The fixed dreams are passed to \<^verbatim>\<open>snprintf\<close> as the format; none has a conversion.\<close>

definition hg_dream_compose :: "nat \<Rightarrow> nat \<Rightarrow> session \<Rightarrow> int \<times> string \<times> string" where
  "hg_dream_compose tcap scap s =
     (if tcap < 32 then (-1, [], [])
      else
        let tainted = s_faction s = ''front'' \<or> s_ashsworn s \<noteq> 0 \<or> sint (s_morality s) \<le> -50
        in if s_last_freed s \<noteq> [] \<and> \<not> tainted then
             (let (n, t) = snprintf tcap (dream_personal (s_last_freed s))
              in if int tcap \<le> n then (-1, t, []) else (1, t, copy_cap scap (s_last_freed s)))
           else
             (let (n, t) = snprintf tcap (if tainted then dream_front
                    else if 25 \<le> sint (s_morality s) then dream_good
                    else if sint (s_morality s) \<le> -10 then dream_bad else dream_neutral)
              in if int tcap \<le> n then (-1, t, []) else (0, t, [])))"

section \<open>Action menus\<close>

text \<open>The menu under construction and whether nothing was added yet.  The copy stops with a failure when
  the buffer would fill; comparisons are on 32 bits, which the capacities of the callers stay far below.

  The fragment comes in \<^verbatim>\<open>rsi\<close>, and the routine calls \<^verbatim>\<open>strlen\<close> twice, on the menu and on the
  fragment, before it copies what \<^verbatim>\<open>rsi\<close> points at; the calling convention lets \<^verbatim>\<open>strlen\<close>
  change that register.  \<open>kept m t\<close> is the text it leads to after the call on \<open>m\<close> when it led to
  \<open>t\<close> before: the length that is checked is that of the text after the first call, the text that is copied the
  one after the second.\<close>

definition add_action ::
  "(string \<Rightarrow> string \<Rightarrow> string) \<Rightarrow> nat \<Rightarrow> string \<Rightarrow> string \<times> bool \<Rightarrow> (string \<times> bool) option" where
  "add_action kept cap frag = (\<lambda>(buf, first).
     (let measured = kept buf frag; copied = kept measured measured;
          started = (if first then Some buf
            else if length buf < 1 \<or> cap \<le> length buf + 1 then None else Some (buf @ '',''))
      in case started of
           None \<Rightarrow> None
         | Some b \<Rightarrow> if cap \<le> length b + length measured then None else Some (b @ copied, False)))"

definition add_if ::
  "(string \<Rightarrow> string \<Rightarrow> string) \<Rightarrow> bool \<Rightarrow> nat \<Rightarrow> string \<Rightarrow> string \<times> bool \<Rightarrow> (string \<times> bool) option" where
  "add_if kept c cap frag st = (if c then add_action kept cap frag st else Some st)"

text \<open>What the routine relies on: \<^verbatim>\<open>strlen\<close> leaves \<^verbatim>\<open>rsi\<close> alone.\<close>

definition strlen_keeps_rsi :: "(string \<Rightarrow> string \<Rightarrow> string) \<Rightarrow> bool" where
  "strlen_keeps_rsi kept \<longleftrightarrow> (\<forall>m t. kept m t = t)"

text \<open>The flags of a session: hunted by the Front, sworn to it, ally of the free folk, ash-sworn.\<close>

definition hunted :: "session \<Rightarrow> bool" where
  "hunted s \<longleftrightarrow> case_eq (s_race s) ''elf'' \<or> case_eq (s_race s) ''dustkin''"

definition act_m_defend :: string where
  "act_m_defend = ''{\"verb\":\"defend\",\"label\":\"stand with the people the Front would erase\",'' @
     ''\"kind\":\"moral\",\"valence\":\"virtuous\"}''"

definition act_m_join_grave :: string where
  "act_m_join_grave = ''{\"verb\":\"join\",\"label\":\"take the Front coin and help sort the living\",'' @
     ''\"kind\":\"moral\",\"valence\":\"grave\"}''"

definition act_m_join_corrupt :: string where
  "act_m_join_corrupt = ''{\"verb\":\"join\",\"label\":\"take the Front coin and help sort the living\",'' @
     ''\"kind\":\"moral\",\"valence\":\"corrupt\"}''"

definition act_m_sell :: string where
  "act_m_sell = ''{\"verb\":\"sell\",\"label\":\"sell salvage for honest coin\",\"kind\":\"trade\"}''"

definition act_m_steal :: string where
  "act_m_steal = ''{\"verb\":\"steal\",\"label\":\"steal from the vendor (quick gold, corrupting)\",'' @
     ''\"kind\":\"moral\",\"valence\":\"corrupt\"}''"

definition act_tavern :: string where
  "act_tavern = ''[{\"verb\":\"talk\",\"label\":\"talk to whoever shares your room\",\"kind\":\"social\"},'' @
     ''{\"verb\":\"buy dust\",\"label\":\"buy dust: 10 gold a packet '' @
     ''(using it heals, but addicts and corrupts)\",\"kind\":\"moral\",\"valence\":\"corrupt\"}]''"

definition act_d_defy :: string where
  "act_d_defy = ''{\"verb\":\"defy\",\"label\":\"defy the Ashmonger and defect to the free folk\",'' @
     ''\"kind\":\"moral\",\"valence\":\"virtuous\"}''"

definition act_d_talk :: string where
  "act_d_talk = ''{\"verb\":\"talk\",\"label\":\"face the Ashmonger\",\"kind\":\"social\"}''"

definition act_d_join_grave :: string where
  "act_d_join_grave = ''{\"verb\":\"join\",\"label\":\"kneel to the Ashmonger against your own (the kapo)\",'' @
     ''\"kind\":\"moral\",\"valence\":\"grave\"}''"

definition act_d_join_corrupt :: string where
  "act_d_join_corrupt = ''{\"verb\":\"join\",\"label\":\"pledge yourself to the Cinder Front\",'' @
     ''\"kind\":\"moral\",\"valence\":\"corrupt\"}''"

definition close_menu :: "nat \<Rightarrow> string \<times> bool \<Rightarrow> string option" where
  "close_menu cap = (\<lambda>(buf, first). if cap \<le> length buf then None else Some (buf @ '']''))"

text \<open>None is the return value -1; otherwise the returned length is that of the text.\<close>

definition hg_actions_json_for ::
  "(string \<Rightarrow> string \<Rightarrow> string) \<Rightarrow> nat \<Rightarrow> session option \<Rightarrow> string option" where
  "hg_actions_json_for kept cap sp =
     (case sp of None \<Rightarrow> None
      | Some s \<Rightarrow>
         if cap < 8 then None
         else if s_room s = 2 then
           Option.bind (add_if kept (s_faction s \<noteq> ''front'' \<and> s_faction s \<noteq> ''ally'' \<and> s_mkt_resolved s = 0)
               cap act_m_defend (''['', True)) (\<lambda>st.
           Option.bind (add_if kept (s_faction s \<noteq> ''front'' \<and> s_faction s \<noteq> ''ally'' \<and> s_mkt_resolved s = 0)
               cap (if hunted s then act_m_join_grave else act_m_join_corrupt) st) (\<lambda>st.
           Option.bind (add_if kept (s_faction s \<noteq> ''front'' \<and> s_ashsworn s = 0) cap act_m_sell st) (\<lambda>st.
           Option.bind (add_action kept cap act_m_steal st) (close_menu cap))))
         else if s_room s = 1 then
           (if cap < length act_tavern + 1 then None else Some act_tavern)
         else if s_room s = 23 then
           Option.bind (if s_faction s = ''front'' then add_action kept cap act_d_defy (''['', True)
              else add_if kept (s_faction s \<noteq> ''ally'') cap
                     (if hunted s then act_d_join_grave else act_d_join_corrupt) (''['', True)) (\<lambda>st.
           Option.bind (add_action kept cap act_d_talk st) (close_menu cap))
         else Some ''[]'')"

section \<open>Prune kinds\<close>

definition prune_kinds :: "string list" where
  "prune_kinds = [''ghost'', ''passage'', ''recall'']"

definition hg_prune_kind_ambient :: "string option \<Rightarrow> bool" where
  "hg_prune_kind_ambient kind = (case kind of None \<Rightarrow> False | Some k \<Rightarrow> k \<in> set prune_kinds)"

definition hg_prune_ambient_count :: int where "hg_prune_ambient_count = 3"

definition hg_prune_ambient_at :: "int \<Rightarrow> string option" where
  "hg_prune_ambient_at i = (if i < 0 \<or> 3 \<le> i then None else Some (prune_kinds ! nat i))"

section \<open>Keepers\<close>

text \<open>\<^verbatim>\<open>ADMINS\<close> is cut at spaces, tabs and commas into at most 16 names of at most 32
  bytes; an unset or empty variable stands for the default keeper.\<close>

definition is_sep :: "char \<Rightarrow> bool" where
  "is_sep c \<longleftrightarrow> c = CHR '' '' \<or> c = CHR 0x09 \<or> c = CHR '',''"

function admin_tokens :: "nat \<Rightarrow> string \<Rightarrow> string list" where
  "admin_tokens count s =
     (let t = dropWhile is_sep s
      in if t = [] \<or> 16 \<le> count then []
         else take 32 (takeWhile (\<lambda>c. \<not> is_sep c) t)
              # admin_tokens (Suc count) (dropWhile (\<lambda>c. \<not> is_sep c) t))"
  by pat_completeness auto
termination by (relation "measure (\<lambda>(count, s). 16 - count)") auto

declare admin_tokens.simps [simp del]

definition admins :: "string option \<Rightarrow> string list" where
  "admins env = admin_tokens 0 (nonempty_or env ''skyphusion'')"

definition hg_is_admin :: "string option \<Rightarrow> string option \<Rightarrow> bool" where
  "hg_is_admin env name = (case name of None \<Rightarrow> False | Some n \<Rightarrow> list_ex (\<lambda>a. case_eq a n) (admins env))"

section \<open>What a menu offers\<close>

text \<open>An action as data: verb, label, kind and an optional valence.\<close>

type_synonym action = "string \<times> string \<times> string \<times> string option"

definition action_json :: "action \<Rightarrow> jval" where
  "action_json = (\<lambda>(verb, label, kind, valence). JObj
     ([(''verb'', JStr verb), (''label'', JStr label), (''kind'', JStr kind)] @
      (case valence of None \<Rightarrow> [] | Some v \<Rightarrow> [(''valence'', JStr v)])))"

text \<open>The races the Front hunts, in any letter case.\<close>

definition persecuted :: "session \<Rightarrow> bool" where
  "persecuted s \<longleftrightarrow> map to_lower (s_race s) \<in> {''elf'', ''dustkin''}"

lemma hunted_persecuted: "hunted s = persecuted s"
  by (auto simp: hunted_def persecuted_def case_eq_def to_lower_def)

definition join_valence :: "session \<Rightarrow> string" where
  "join_valence s = (if persecuted s then ''grave'' else ''corrupt'')"

definition market_menu :: "session \<Rightarrow> action list" where
  "market_menu s =
     (if s_faction s \<noteq> ''front'' \<and> s_faction s \<noteq> ''ally'' \<and> s_mkt_resolved s = 0 then
        [(''defend'', ''stand with the people the Front would erase'', ''moral'', Some ''virtuous''),
         (''join'', ''take the Front coin and help sort the living'', ''moral'', Some (join_valence s))]
      else []) @
     (if s_faction s \<noteq> ''front'' \<and> s_ashsworn s = 0 then
        [(''sell'', ''sell salvage for honest coin'', ''trade'', None)] else []) @
     [(''steal'', ''steal from the vendor (quick gold, corrupting)'', ''moral'', Some ''corrupt'')]"

definition dais_menu :: "session \<Rightarrow> action list" where
  "dais_menu s =
     (if s_faction s = ''front'' then
        [(''defy'', ''defy the Ashmonger and defect to the free folk'', ''moral'', Some ''virtuous'')]
      else if s_faction s = ''ally'' then []
      else [(''join'', if persecuted s then ''kneel to the Ashmonger against your own (the kapo)''
               else ''pledge yourself to the Cinder Front'', ''moral'', Some (join_valence s))]) @
     [(''talk'', ''face the Ashmonger'', ''social'', None)]"

definition tavern_menu :: "action list" where
  "tavern_menu =
     [(''talk'', ''talk to whoever shares your room'', ''social'', None),
      (''buy dust'', ''buy dust: 10 gold a packet (using it heals, but addicts and corrupts)'', ''moral'', Some ''corrupt'')]"

definition menu :: "session \<Rightarrow> action list" where
  "menu s = (if s_room s = 2 then market_menu s else if s_room s = 1 then tavern_menu
     else if s_room s = 23 then dais_menu s else [])"

lemmas menu_texts = act_m_defend_def act_m_join_grave_def act_m_join_corrupt_def act_m_sell_def act_m_steal_def
  act_d_defy_def act_d_talk_def act_d_join_grave_def act_d_join_corrupt_def act_tavern_def

lemma length_menu_texts [simp]:
  "length act_m_defend \<le> 120" "length act_m_join_grave \<le> 120" "length act_m_join_corrupt \<le> 120"
  "length act_m_sell \<le> 120" "length act_m_steal \<le> 120" "length act_d_defy \<le> 120" "length act_d_talk \<le> 120"
  "length act_d_join_grave \<le> 120" "length act_d_join_corrupt \<le> 120"
  by (simp_all add: menu_texts)

text \<open>Adding fragments one after another; with at most eight short ones nothing overflows.\<close>

fun build :: "(string \<Rightarrow> string \<Rightarrow> string) \<Rightarrow> nat \<Rightarrow> string list \<Rightarrow> string \<times> bool \<Rightarrow> (string \<times> bool) option" where
  "build kept cap [] st = Some st"
| "build kept cap (f # fs) st = Option.bind (add_action kept cap f st) (build kept cap fs)"

lemma build_append: "build kept cap (fs @ gs) st = Option.bind (build kept cap fs st) (build kept cap gs)"
proof (induction fs arbitrary: st)
  case (Cons f fs)
  then show ?case by (cases "add_action kept cap f st") simp_all
qed simp

lemma add_if_build: "add_if kept c cap f st = build kept cap (if c then [f] else []) st"
  by (cases "add_action kept cap f st") (simp_all add: add_if_def)

lemma add_action_build: "add_action kept cap f st = build kept cap [f] st"
  by (cases "add_action kept cap f st") simp_all

lemma length_commas_le:
  "\<forall>f \<in> set fs. length f \<le> 120 \<Longrightarrow> length (commas fs) \<le> 121 * length fs"
proof (induction fs)
  case (Cons f fs)
  then show ?case by (cases fs) (simp_all add: commas_Cons2)
qed simp

lemma strlen_keepsD: "strlen_keeps_rsi kept \<Longrightarrow> kept = (\<lambda>_ t. t)"
  by (intro ext) (simp add: strlen_keeps_rsi_def)

lemma build_spec:
  "\<forall>f \<in> set fs. length f \<le> 120 \<Longrightarrow> length fs \<le> 8 \<Longrightarrow>
     build (\<lambda>_ t. t) 1200 fs (''['', True) = Some (CHR ''['' # commas fs, fs = [])"
proof (induction fs rule: rev_induct)
  case (snoc f fs)
  then have "length (commas fs) \<le> 121 * length fs" and "length f \<le> 120"
    by (simp_all add: length_commas_le)
  with snoc show ?case
    by (cases "fs = []") (simp_all add: build_append add_action_def commas_snoc)
qed simp

lemma close_build:
  assumes "strlen_keeps_rsi kept" and "\<forall>f \<in> set fs. length f \<le> 120" and "length fs \<le> 8"
  shows "Option.bind (build kept 1200 fs (''['', True)) (close_menu 1200) = Some (CHR ''['' # commas fs @ '']'')"
  using build_spec [OF assms(2, 3)] strlen_keepsD [OF assms(1)] length_commas_le [OF assms(2)] assms(3) by (simp add: close_menu_def)

lemma menu_fragments:
  "act_m_defend = render (action_json (''defend'', ''stand with the people the Front would erase'', ''moral'', Some ''virtuous''))"
  "(if hunted s then act_m_join_grave else act_m_join_corrupt) =
     render (action_json (''join'', ''take the Front coin and help sort the living'', ''moral'', Some (join_valence s)))"
  "act_m_sell = render (action_json (''sell'', ''sell salvage for honest coin'', ''trade'', None))"
  "act_m_steal = render (action_json (''steal'', ''steal from the vendor (quick gold, corrupting)'', ''moral'', Some ''corrupt''))"
  "act_d_defy = render (action_json (''defy'', ''defy the Ashmonger and defect to the free folk'', ''moral'', Some ''virtuous''))"
  "act_d_talk = render (action_json (''talk'', ''face the Ashmonger'', ''social'', None))"
  "(if hunted s then act_d_join_grave else act_d_join_corrupt) =
     render (action_json (''join'', if persecuted s then ''kneel to the Ashmonger against your own (the kapo)''
               else ''pledge yourself to the Cinder Front'', ''moral'', Some (join_valence s)))"
  by (simp_all add: hunted_persecuted menu_texts action_json_def join_valence_def jquote_def commas_def esc_char_def esc_rep_def)

lemma tavern_fragment: "act_tavern = render (JArr (map action_json tavern_menu))"
  by (simp add: menu_texts action_json_def tavern_menu_def jquote_def commas_def esc_char_def esc_rep_def)

lemma market_menu_refines:
  assumes "strlen_keeps_rsi kept" and "s_room s = 2"
  shows "hg_actions_json_for kept 1200 (Some s) = Some (render (JArr (map action_json (market_menu s))))"
proof -
  let ?open = "s_faction s \<noteq> ''front'' \<and> s_faction s \<noteq> ''ally'' \<and> s_mkt_resolved s = 0"
  let ?join = "if hunted s then act_m_join_grave else act_m_join_corrupt"
  let ?fs = "(if ?open then [act_m_defend] else []) @ (if ?open then [?join] else []) @
      (if s_faction s \<noteq> ''front'' \<and> s_ashsworn s = 0 then [act_m_sell] else []) @ [act_m_steal]"
  have "hg_actions_json_for kept 1200 (Some s) = Option.bind (build kept 1200 ?fs (''['', True)) (close_menu 1200)"
    using assms(2) unfolding hg_actions_json_for_def
    by (simp only: option.case add_if_build add_action_build build_append bind_assoc) simp
  also have "\<dots> = Some (CHR ''['' # commas ?fs @ '']'')" by (rule close_build [OF assms(1)]) auto
  also have "?fs = map render (map action_json (market_menu s))"
    unfolding menu_fragments by (simp add: market_menu_def)
  finally show ?thesis by simp
qed

lemma dais_menu_refines:
  assumes "strlen_keeps_rsi kept" and "s_room s = 23"
  shows "hg_actions_json_for kept 1200 (Some s) = Some (render (JArr (map action_json (dais_menu s))))"
proof -
  let ?join = "if hunted s then act_d_join_grave else act_d_join_corrupt"
  let ?fs = "(if s_faction s = ''front'' then [act_d_defy]
      else (if s_faction s \<noteq> ''ally'' then [?join] else [])) @ [act_d_talk]"
  have "hg_actions_json_for kept 1200 (Some s) = Option.bind (build kept 1200 ?fs (''['', True)) (close_menu 1200)"
    using assms(2) unfolding hg_actions_json_for_def
    by (cases "s_faction s = ''front''")
       (simp_all only: option.case add_if_build add_action_build build_append bind_assoc if_True if_False, simp_all)
  also have "\<dots> = Some (CHR ''['' # commas ?fs @ '']'')" by (rule close_build [OF assms(1)]) auto
  also have "?fs = map render (map action_json (dais_menu s))"
    unfolding menu_fragments by (simp add: dais_menu_def)
  finally show ?thesis by simp
qed

lemma tavern_menu_refines:
  assumes "s_room s = 1"
  shows "hg_actions_json_for kept 1200 (Some s) = Some (render (JArr (map action_json tavern_menu)))"
proof -
  have "length act_tavern < 1200" by (simp add: act_tavern_def)
  with assms show ?thesis by (simp add: hg_actions_json_for_def tavern_fragment [symmetric] del: render.simps)
qed

lemma menu_refines:
  assumes "strlen_keeps_rsi kept"
  shows "hg_actions_json_for kept 1200 (Some s) = Some (render (JArr (map action_json (menu s))))"
proof -
  consider "s_room s = 2" | "s_room s = 1" | "s_room s = 23" | "s_room s \<noteq> 2 \<and> s_room s \<noteq> 1 \<and> s_room s \<noteq> 23"
    by blast
  then show ?thesis
  proof cases
    case 4
    then show ?thesis by (simp add: hg_actions_json_for_def menu_def)
  qed (simp_all only: market_menu_refines [OF assms] tavern_menu_refines dais_menu_refines [OF assms] menu_def, simp_all)
qed



section \<open>What is dreamt\<close>

definition tainted :: "session \<Rightarrow> bool" where
  "tainted s \<longleftrightarrow> s_faction s = ''front'' \<or> s_ashsworn s \<noteq> 0 \<or> sint (s_morality s) \<le> -50"

definition dreams_of :: "session \<Rightarrow> string option" where
  "dreams_of s = (if s_last_freed s \<noteq> [] \<and> \<not> tainted s then Some (s_last_freed s) else None)"

definition dream_text :: "session \<Rightarrow> string" where
  "dream_text s = (case dreams_of s of
     Some who \<Rightarrow> dream_personal who
   | None \<Rightarrow> if tainted s then dream_front
        else if 25 \<le> sint (s_morality s) then dream_good
        else if sint (s_morality s) \<le> -10 then dream_bad else dream_neutral)"

lemma length_dreams:
  "length dream_front \<le> 180" "length dream_good \<le> 180" "length dream_bad \<le> 180" "length dream_neutral \<le> 180"
  "length (dream_personal who) \<le> 180 + length who"
  by (simp_all add: dream_front_def dream_good_def dream_bad_def dream_neutral_def dream_personal_def)

lemma dreams_plain:
  "json_plain dream_front" "json_plain dream_good" "json_plain dream_bad" "json_plain dream_neutral"
  "json_plain who \<Longrightarrow> json_plain (dream_personal who)"
  by (simp_all add: dream_front_def dream_good_def dream_bad_def dream_neutral_def dream_personal_def esc_rep_def)

lemma length_dream_text: "length (s_last_freed s) < 40 \<Longrightarrow> length (dream_text s) \<le> 220"
  using length_dreams(1-4) length_dreams(5) [of "s_last_freed s"]
  by (auto simp: dream_text_def dreams_of_def)

lemma dream_text_plain: "json_plain (s_last_freed s) \<Longrightarrow> json_plain (dream_text s)"
  by (simp add: dream_text_def dreams_of_def dreams_plain)

lemma dream_compose_tainted:
  "hg_dream_compose tcap scap s = (if tcap < 32 then (-1, [], [])
     else if dreams_of s \<noteq> None then
       (let (n, t) = snprintf tcap (dream_text s)
        in if int tcap \<le> n then (-1, t, []) else (1, t, copy_cap scap (s_last_freed s)))
     else (let (n, t) = snprintf tcap (dream_text s) in if int tcap \<le> n then (-1, t, []) else (0, t, [])))"
  unfolding hg_dream_compose_def dreams_of_def dream_text_def tainted_def Let_def by simp

lemma dream_compose_fits:
  assumes "length (s_last_freed s) < 40"
  shows "hg_dream_compose 512 40 s =
    (case dreams_of s of None \<Rightarrow> (0, dream_text s, []) | Some who \<Rightarrow> (1, dream_text s, who))"
proof -
  have "length (dream_text s) < 512" using length_dream_text [OF assms] by simp
  moreover have "who = s_last_freed s" if "dreams_of s = Some who" for who
    using that by (auto simp: dreams_of_def split: if_splits)
  ultimately show ?thesis
    using assms by (auto simp: dream_compose_tainted snprintf_fits copy_cap_id split: option.split)
qed

text \<open>A dream always reaches its dreamer: with the buffers of the callers nothing is cut, the client decodes
  one of the five dreams, and it is personal, naming the last captive the survivor freed, exactly when there
  is one and the survivor is not tainted (sworn to the Front, ash-sworn, or of morality -50 or less).\<close>

lemma dream_decodes:
  assumes "cells_ok s" and "json_plain (s_last_freed s)"
  shows "parse_event (snd (hg_fmt_dream hg_dream_compose 4096 s)) = Some (''char.dream'',
    JObj ([(''text'', JStr (dream_text s)), (''personal'', JBool (dreams_of s \<noteq> None))] @
      (case dreams_of s of None \<Rightarrow> [] | Some who \<Rightarrow> [(''subject'', JStr who)])))"
proof -
  from assms(1) have len: "length (s_last_freed s) < 40" by (simp add: cells_ok_def cell_ok_def)
  have plain: "json_plain (dream_text s)" and short: "length (dream_text s) \<le> 220"
    using dream_text_plain [OF assms(2)] length_dream_text [OF len] by simp_all
  note simps = dream_compose_fits [OF len] json_plain_nul_free event_line_def jquote_def commas_def
    esc_char_def esc_rep_def fmt_bool_def
  show ?thesis
  proof (cases "dreams_of s")
    case None
    let ?v = "JObj [(''text'', JStr (dream_text s)), (''personal'', JBool False)]"
    have c: "hg_dream_compose 512 40 s = (0, dream_text s, [])" using None by (simp add: dream_compose_fits [OF len])
    have "hg_fmt_dream hg_dream_compose 4096 s = snprintf 4096 (event_line ''char.dream'' ?v)"
      using dream_refines [where compose = hg_dream_compose and cap = 4096, OF c] plain short by (simp add: json_plain_nul_free Let_def del: render.simps)
    moreover have "length (event_line ''char.dream'' ?v) < 4096" using plain short by (simp add: simps)
    ultimately show ?thesis using None by (simp add: parse_event_snprintf)
  next
    case (Some who)
    let ?v = "JObj [(''text'', JStr (dream_text s)), (''personal'', JBool True), (''subject'', JStr who)]"
    from Some have who: "who = s_last_freed s" by (auto simp: dreams_of_def split: if_splits)
    with assms(2) len have sub: "json_plain who" "length who < 40" by simp_all
    have c: "hg_dream_compose 512 40 s = (1, dream_text s, who)" using Some by (simp add: dream_compose_fits [OF len])
    have "hg_fmt_dream hg_dream_compose 4096 s = snprintf 4096 (event_line ''char.dream'' ?v)"
      using dream_refines [where compose = hg_dream_compose and cap = 4096, OF c] plain short sub by (simp add: json_plain_nul_free Let_def del: render.simps)
    moreover have "length (event_line ''char.dream'' ?v) < 4096" using plain short sub by (simp add: simps)
    ultimately show ?thesis using Some by (simp add: parse_event_snprintf)
  qed
qed

section \<open>Keepers and prune kinds\<close>

lemma admin_tokens_bounds:
  "length (admin_tokens n s) \<le> 16 - n \<and>
   (\<forall>a \<in> set (admin_tokens n s). a \<noteq> [] \<and> length a \<le> 32 \<and> (\<forall>c \<in> set a. \<not> is_sep c))"
proof (induction n s rule: admin_tokens.induct)
  case (1 n s)
  let ?t = "dropWhile is_sep s"
  show ?case
  proof (cases "?t = [] \<or> 16 \<le> n")
    case True
    then have "admin_tokens n s = []" by (simp add: admin_tokens.simps [of n s] Let_def)
    then show ?thesis by simp
  next
    case False
    then have "\<not> is_sep (hd ?t)" by (simp add: hd_dropWhile)
    then have ne: "takeWhile (\<lambda>c. \<not> is_sep c) ?t \<noteq> []" using False by (cases ?t) simp_all
    have sep: "\<forall>c \<in> set (take 32 (takeWhile (\<lambda>c. \<not> is_sep c) ?t)). \<not> is_sep c"
      by (auto dest!: in_set_takeD set_takeWhileD)
    define w where "w = take 32 (takeWhile (\<lambda>c. \<not> is_sep c) ?t)"
    define rest where "rest = admin_tokens (Suc n) (dropWhile (\<lambda>c. \<not> is_sep c) ?t)"
    have "length rest \<le> 16 - Suc n" and "\<forall>a \<in> set rest. a \<noteq> [] \<and> length a \<le> 32 \<and> (\<forall>c \<in> set a. \<not> is_sep c)"
      unfolding rest_def using 1 [OF refl False] by (rule conjunct1) (rule conjunct2 [OF 1 [OF refl False]])
    moreover have "w \<noteq> []" unfolding w_def using ne by (metis take_eq_Nil zero_neq_numeral)
    moreover have "length w \<le> 32" unfolding w_def by (simp only: length_take min.cobounded2)
    moreover have "\<forall>c \<in> set w. \<not> is_sep c" unfolding w_def by (rule sep)
    moreover have "admin_tokens n s = w # rest"
      using False by (simp add: admin_tokens.simps [of n s] Let_def w_def rest_def)
    moreover have "n < 16" using False by (simp only: de_Morgan_disj not_le)
    ultimately show ?thesis by simp
  qed
qed

definition keeper_name :: "string \<Rightarrow> bool" where
  "keeper_name a \<longleftrightarrow> a \<noteq> [] \<and> length a \<le> 32 \<and> \<not> list_ex is_sep a"

text \<open>The keeper list is bounded whatever the environment says: at most 16 names of 1 to 32 bytes without
  separators, so no one is a keeper under an empty name, and without the variable the only keeper is the
  default one, in any letter case.\<close>

lemma keepers_bounded:
  "length (admins env) \<le> 16 \<and> list_all keeper_name (admins env) \<and>
   \<not> hg_is_admin env (Some []) \<and>
   (hg_is_admin None (Some n) \<longleftrightarrow> case_eq n ''skyphusion'')"
proof -
  have d: "admins None = [''skyphusion'']" by code_simp
  have b: "length (admins env) \<le> 16" "list_all keeper_name (admins env)"
    using admin_tokens_bounds [of 0] unfolding admins_def list_all_iff keeper_name_def list_ex_iff
    by (simp, blast)
  then have "\<not> hg_is_admin env (Some [])"
    by (auto simp: hg_is_admin_def list_ex_iff list_all_iff keeper_name_def case_eq_def)
  moreover have "hg_is_admin None (Some n) \<longleftrightarrow> case_eq n ''skyphusion''"
    unfolding hg_is_admin_def d using case_eq_sym by auto
  ultimately show ?thesis using b by blast
qed

lemma length_prune_kinds: "length prune_kinds = 3"
  by (simp add: prune_kinds_def)

lemma prune_kinds_indexed:
  "hg_prune_kind_ambient (Some k) \<longleftrightarrow> (\<exists>i. 0 \<le> i \<and> i < hg_prune_ambient_count \<and> hg_prune_ambient_at i = Some k)"
proof
  assume "hg_prune_kind_ambient (Some k)"
  then obtain j where "j < length prune_kinds" "prune_kinds ! j = k"
    by (auto simp: hg_prune_kind_ambient_def in_set_conv_nth)
  then show "\<exists>i. 0 \<le> i \<and> i < hg_prune_ambient_count \<and> hg_prune_ambient_at i = Some k"
    by (intro exI [of _ "int j"])
       (simp add: hg_prune_ambient_count_def hg_prune_ambient_at_def length_prune_kinds)
next
  assume "\<exists>i. 0 \<le> i \<and> i < hg_prune_ambient_count \<and> hg_prune_ambient_at i = Some k"
  then obtain i where i: "0 \<le> i" "i < 3" "prune_kinds ! nat i = k"
    by (auto simp: hg_prune_ambient_count_def hg_prune_ambient_at_def split: if_splits)
  then have "nat i < length prune_kinds" by (simp add: length_prune_kinds)
  with i(3) show "hg_prune_kind_ambient (Some k)"
    by (auto simp: hg_prune_kind_ambient_def in_set_conv_nth)
qed

end
