(* ===== verification/Registry.thy ===== *)
theory Registry
  imports Outbox Policy Rooms "HOL-Library.Multiset"
begin

text \<open>
  The registry of players in the world (\<^verbatim>\<open>asm/combat.asm\<close>: the session table of 32 slots
  with its socket column and count) and the walks over it of \<^verbatim>\<open>ffi/format.c\<close>: delivery to
  a room or to everyone, and the JSON list of the players of a room.
\<close>

section \<open>The world's state\<close>

record wstate = store +
  table :: "addr list"
  wsi_table :: "addr list"
  session_count :: i64
  world_tick :: i64
  rat_alive :: i64
  cache_gold :: "i64 list"

definition hg_session_at :: "'a wstate_scheme \<Rightarrow> int \<Rightarrow> addr" where
  "hg_session_at st i = (if 0 \<le> i \<and> i < int MAX_SESSIONS then table st ! nat i else 0)"

definition hg_session_count :: "'a wstate_scheme \<Rightarrow> i64" where
  "hg_session_count st = session_count st"

definition hg_world_tick_value :: "'a wstate_scheme \<Rightarrow> i64" where
  "hg_world_tick_value st = world_tick st"

section \<open>Entering and leaving\<close>

text \<open>The search of \<^verbatim>\<open>hg_session_register\<close>: the first slot that is free (\<open>True\<close>) or
  already holds the session (\<open>False\<close>).\<close>

fun find_slot :: "addr \<Rightarrow> addr list \<Rightarrow> nat \<Rightarrow> (bool \<times> nat) option" where
  "find_slot a [] i = None"
| "find_slot a (t # ts) i =
     (if t = 0 then Some (True, i) else if t = a then Some (False, i) else find_slot a ts (Suc i))"

definition hg_session_register :: "addr \<Rightarrow> addr \<Rightarrow> 'a wstate_scheme \<Rightarrow> 'a wstate_scheme" where
  "hg_session_register a wsi st =
     (let st = upd_sess a (\<lambda>s. s\<lparr>s_wsi := wsi\<rparr>) st
      in case find_slot a (table st) 0 of
           None \<Rightarrow> st
         | Some (True, i) \<Rightarrow> st\<lparr>table := (table st)[i := a], session_count := session_count st + 1,
             wsi_table := (wsi_table st)[i := wsi]\<rparr>
         | Some (False, i) \<Rightarrow> st\<lparr>wsi_table := (wsi_table st)[i := wsi]\<rparr>)"

fun find_entry :: "addr \<Rightarrow> addr list \<Rightarrow> nat \<Rightarrow> nat option" where
  "find_entry a [] i = None"
| "find_entry a (t # ts) i = (if t = a then Some i else find_entry a ts (Suc i))"

definition hg_session_unregister :: "addr \<Rightarrow> 'a wstate_scheme \<Rightarrow> 'a wstate_scheme" where
  "hg_session_unregister a st =
     (let st = upd_sess a (\<lambda>s. s\<lparr>s_wsi := 0\<rparr>) st
      in case find_entry a (table st) 0 of
           None \<Rightarrow> st
         | Some i \<Rightarrow> st\<lparr>table := (table st)[i := 0], wsi_table := (wsi_table st)[i := 0],
             session_count := session_count st - 1\<rparr>)"

definition players :: "addr list \<Rightarrow> addr list" where
  "players t = filter (\<lambda>a. a \<noteq> 0) t"

definition reg_ok :: "'a wstate_scheme \<Rightarrow> bool" where
  "reg_ok st \<longleftrightarrow> length (table st) = MAX_SESSIONS \<and> length (wsi_table st) = MAX_SESSIONS \<and>
     distinct (players (table st)) \<and> session_count st = word_of_nat (length (players (table st)))"

lemma find_slot_Some:
  "find_slot a ts i = Some (b, j) \<Longrightarrow> i \<le> j \<and> j - i < length ts \<and>
     (if b then ts ! (j - i) = 0 else ts ! (j - i) = a) \<and> (\<forall>k < j - i. ts ! k \<noteq> 0 \<and> ts ! k \<noteq> a)"
proof (induction ts arbitrary: i)
  case (Cons t ts)
  show ?case
  proof (cases "t = 0 \<or> t = a")
    case True
    with Cons.prems show ?thesis by (auto split: if_splits)
  next
    case False
    with Cons.prems Cons.IH [of "Suc i"] have
      "Suc i \<le> j \<and> j - Suc i < length ts \<and> (if b then ts ! (j - Suc i) = 0 else ts ! (j - Suc i) = a) \<and>
       (\<forall>k < j - Suc i. ts ! k \<noteq> 0 \<and> ts ! k \<noteq> a)" by simp
    moreover from this have "j - i = Suc (j - Suc i)" by linarith
    ultimately show ?thesis using False by (auto simp: less_Suc_eq_0_disj)
  qed
qed simp

lemma find_slot_None: "find_slot a ts i = None \<longleftrightarrow> 0 \<notin> set ts \<and> a \<notin> set ts"
  by (induction ts arbitrary: i) auto

lemma find_entry_None: "find_entry a ts i = None \<longleftrightarrow> a \<notin> set ts"
  by (induction ts arbitrary: i) auto

lemma find_entry_Some: "find_entry a ts i = Some j \<Longrightarrow> i \<le> j \<and> j - i < length ts \<and> ts ! (j - i) = a"
proof (induction ts arbitrary: i)
  case (Cons t ts)
  then show ?case
  proof (cases "t = a")
    case False
    with Cons have "Suc i \<le> j \<and> j - Suc i < length ts \<and> ts ! (j - Suc i) = a" by auto
    moreover from this have "j - i = Suc (j - Suc i)" by linarith
    ultimately show ?thesis by simp
  qed auto
qed simp

lemma players_simps [simp]:
  "players [] = []"
  "players (t # ts) = (if t = 0 then players ts else t # players ts)"
  by (simp_all add: players_def)

lemma set_players: "set (players ts) = set ts - {0}"
  by (auto simp: players_def)

lemma players_update:
  "i < length ts \<Longrightarrow> mset (players (ts[i := a])) + (if ts ! i = 0 then {#} else {#ts ! i#}) =
    mset (players ts) + (if a = 0 then {#} else {#a#})"
proof (induction ts arbitrary: i)
  case (Cons t ts)
  show ?case
  proof (cases i)
    case (Suc j)
    with Cons.prems have "j < length ts" by simp
    from Cons.IH [OF this] Suc show ?thesis
      by (cases "t = 0"; cases "ts ! j = 0"; cases "a = 0") (simp_all add: add_mset_commute)
  qed (simp add: add_mset_commute)
qed simp

lemma players_insert:
  assumes "i < length ts" and "ts ! i = 0" and "a \<noteq> 0"
  shows "mset (players (ts[i := a])) = mset (a # players ts)"
  using players_update [OF assms(1), of a] assms by simp

lemma players_delete:
  assumes "i < length ts" and "ts ! i = a" and "a \<noteq> 0"
  shows "mset (a # players (ts[i := 0])) = mset (players ts)"
  using players_update [OF assms(1), of 0] assms by simp

lemma register_None:
  "find_slot a (table st) 0 = None \<Longrightarrow> hg_session_register a wsi st = upd_sess a (\<lambda>s. s\<lparr>s_wsi := wsi\<rparr>) st"
  by (simp add: hg_session_register_def upd_sess_def)

lemma upd_sess_wstate [simp]:
  "table (upd_sess a f st) = table st" "wsi_table (upd_sess a f st) = wsi_table st"
  "session_count (upd_sess a f st) = session_count st" "world_tick (upd_sess a f st) = world_tick st"
  "rat_alive (upd_sess a f st) = rat_alive st" "cache_gold (upd_sess a f st) = cache_gold st"
  by (simp_all add: upd_sess_def)

lemma register_effect:
  assumes ok: "reg_ok st" and a: "a \<noteq> 0" "a \<notin> set (table st)"
  shows "reg_ok (hg_session_register a wsi st) \<and>
    set (players (table (hg_session_register a wsi st))) =
      (if 0 \<in> set (table st) then insert a (set (players (table st))) else set (players (table st)))"
proof (cases "find_slot a (table st) 0")
  case None
  with ok show ?thesis by (auto simp: register_None find_slot_None reg_ok_def)
next
  case (Some bi)
  then obtain b i where bi: "find_slot a (table st) 0 = Some (b, i)" by (cases bi) simp
  from find_slot_Some [OF bi] a(2) have i: "i < length (table st)" and z: "table st ! i = 0" and b: b
    by (auto split: if_splits dest: nth_mem)
  have m: "mset (players ((table st)[i := a])) = mset (a # players (table st))"
    by (rule players_insert [OF i z a(1)])
  have len: "length (players ((table st)[i := a])) = Suc (length (players (table st)))"
    using mset_eq_length [OF m] by simp
  have "distinct (players ((table st)[i := a]))"
    using mset_eq_imp_distinct_iff [OF m] ok a(2) by (simp add: reg_ok_def set_players)
  moreover have "set (players ((table st)[i := a])) = insert a (set (players (table st)))"
    using mset_eq_setD [OF m] by simp
  moreover have "0 \<in> set (table st)" using i z nth_mem by force
  ultimately show ?thesis
    using ok b len by (simp add: hg_session_register_def bi reg_ok_def Let_def add.commute)
qed

lemma unregister_effect:
  assumes ok: "reg_ok st" and a: "a \<noteq> 0"
  shows "reg_ok (hg_session_unregister a st) \<and>
    set (players (table (hg_session_unregister a st))) = set (players (table st)) - {a}"
proof (cases "find_entry a (table st) 0")
  case None
  then have "a \<notin> set (table st)" by (simp add: find_entry_None)
  with ok None show ?thesis
    by (simp add: hg_session_unregister_def reg_ok_def set_players Let_def)
next
  case (Some i)
  from find_entry_Some [OF Some] have i: "i < length (table st)" and e: "table st ! i = a" by simp_all
  have m: "mset (a # players ((table st)[i := 0])) = mset (players (table st))"
    by (rule players_delete [OF i e a])
  have "length (players (table st)) = Suc (length (players ((table st)[i := 0])))"
    using mset_eq_length [OF m] by simp
  moreover have "distinct (a # players ((table st)[i := 0]))"
    using mset_eq_imp_distinct_iff [OF m] ok by (simp add: reg_ok_def)
  moreover have "insert a (set (players ((table st)[i := 0]))) = set (players (table st))"
    using mset_eq_setD [OF m] by simp
  ultimately show ?thesis
    using ok by (auto simp: hg_session_unregister_def Some reg_ok_def Let_def)
qed

section \<open>The contract of a roster\<close>

text \<open>What the program expects of the registry: a bounded set of sessions that players enter once and leave.\<close>

locale roster =
  fixes cap :: nat
    and enter :: "addr \<Rightarrow> 's \<Rightarrow> 's"
    and leave :: "addr \<Rightarrow> 's \<Rightarrow> 's"
    and members :: "'s \<Rightarrow> addr set"
    and inv :: "'s \<Rightarrow> bool"
  assumes members_fin: "inv s \<Longrightarrow> finite (members s) \<and> card (members s) \<le> cap"
    and enter_inv: "inv s \<Longrightarrow> a \<noteq> 0 \<Longrightarrow> a \<notin> members s \<Longrightarrow> inv (enter a s)"
    and enter_members: "inv s \<Longrightarrow> a \<noteq> 0 \<Longrightarrow> a \<notin> members s \<Longrightarrow>
      members (enter a s) = (if card (members s) < cap then insert a (members s) else members s)"
    and leave_inv: "inv s \<Longrightarrow> a \<noteq> 0 \<Longrightarrow> inv (leave a s)"
    and leave_members: "inv s \<Longrightarrow> a \<noteq> 0 \<Longrightarrow> members (leave a s) = members s - {a}"
begin

text \<open>A history of entries (\<open>True\<close>) and departures, every session entering only while it is out.\<close>

fun replay :: "(bool \<times> addr) list \<Rightarrow> 's \<Rightarrow> 's" where
  "replay [] s = s"
| "replay ((True, a) # es) s = replay es (enter a s)"
| "replay ((False, a) # es) s = replay es (leave a s)"

fun present :: "(bool \<times> addr) list \<Rightarrow> addr set \<Rightarrow> addr set" where
  "present [] A = A"
| "present ((True, a) # es) A = present es (insert a A)"
| "present ((False, a) # es) A = present es (A - {a})"

fun well_formed :: "(bool \<times> addr) list \<Rightarrow> addr set \<Rightarrow> bool" where
  "well_formed [] A = True"
| "well_formed ((True, a) # es) A = (a \<noteq> 0 \<and> a \<notin> A \<and> card A < cap \<and> well_formed es (insert a A))"
| "well_formed ((False, a) # es) A = (a \<noteq> 0 \<and> well_formed es (A - {a}))"

lemma replay_members:
  "inv s \<Longrightarrow> well_formed es (members s) \<Longrightarrow>
     inv (replay es s) \<and> members (replay es s) = present es (members s)"
proof (induction es arbitrary: s)
  case (Cons e es)
  obtain b a where e: "e = (b, a)" by (cases e)
  show ?case
  proof (cases b)
    case True
    with Cons.prems e have "inv (enter a s)" and "members (enter a s) = insert a (members s)"
      and "well_formed es (insert a (members s))"
      by (simp_all add: enter_inv enter_members)
    with Cons.IH [of "enter a s"] True e show ?thesis by simp
  next
    case False
    with Cons.prems e have "inv (leave a s)" and "members (leave a s) = members s - {a}"
      and "well_formed es (members s - {a})"
      by (simp_all add: leave_inv leave_members)
    with Cons.IH [of "leave a s"] False e show ?thesis by simp
  qed
qed simp

lemma visit: "inv s \<Longrightarrow> a \<noteq> 0 \<Longrightarrow> a \<notin> members s \<Longrightarrow> members (leave a (enter a s)) = members s"
  by (simp add: enter_inv enter_members leave_members)

lemma full_house:
  "inv s \<Longrightarrow> a \<noteq> 0 \<Longrightarrow> a \<notin> members s \<Longrightarrow> card (members s) = cap \<Longrightarrow> members (enter a s) = members s"
  by (simp add: enter_members)

end

definition members_of :: "'a wstate_scheme \<Rightarrow> addr set" where
  "members_of st = set (players (table st))"

lemma card_members:
  assumes "reg_ok st"
  shows "card (members_of st) = length (players (table st))"
    and "card (members_of st) < MAX_SESSIONS \<longleftrightarrow> 0 \<in> set (table st)"
proof -
  show c: "card (members_of st) = length (players (table st))"
    using assms by (simp add: members_of_def reg_ok_def distinct_card)
  have "length (players (table st)) < length (table st) \<longleftrightarrow> 0 \<in> set (table st)"
  proof
    assume less: "length (players (table st)) < length (table st)"
    show "0 \<in> set (table st)"
    proof (rule ccontr)
      assume "0 \<notin> set (table st)"
      then have "players (table st) = table st" by (auto simp: players_def filter_id_conv intro: gr0I)
      with less show False by simp
    qed
  next
    assume "0 \<in> set (table st)"
    then show "length (players (table st)) < length (table st)"
      unfolding players_def by (rule length_filter_less) simp
  qed
  with c assms show "card (members_of st) < MAX_SESSIONS \<longleftrightarrow> 0 \<in> set (table st)"
    by (simp add: reg_ok_def)
qed

interpretation reg: roster MAX_SESSIONS "\<lambda>a. hg_session_register a wsi" hg_session_unregister members_of reg_ok
  for wsi :: addr
proof (unfold_locales, goal_cases)
  case (1 s)
  have "length (players (table s)) \<le> length (table s)" by (simp add: players_def)
  with 1 show ?case using card_members(1) [OF 1] by (simp add: members_of_def reg_ok_def)
next
  case (2 s a)
  then show ?case using register_effect [of s a wsi] by (simp add: members_of_def set_players)
next
  case (3 s a)
  then show ?case
    using register_effect [of s a wsi] card_members(2) [of s] by (simp add: members_of_def set_players)
next
  case (4 s a)
  then show ?case by (simp add: unregister_effect)
next
  case (5 s a)
  then show ?case by (simp add: unregister_effect members_of_def)
qed

text \<open>C5. The registry is the set of the players in the world: a session that enters while out and while one of
  the 32 slots is free is added, and nothing else changes; a 33rd is not added; leaving takes out exactly
  that session, so a visit leaves the registry as it was.  No session is listed twice and the count is
  always the number of players.\<close>

theorem registry_visit:
  assumes "reg_ok st" and "a \<noteq> 0" and "a \<notin> members_of st"
  shows "reg_ok (hg_session_register a wsi st) \<and>
    members_of (hg_session_register a wsi st) =
      (if card (members_of st) < MAX_SESSIONS then insert a (members_of st) else members_of st) \<and>
    reg_ok (hg_session_unregister a (hg_session_register a wsi st)) \<and>
    members_of (hg_session_unregister a (hg_session_register a wsi st)) = members_of st"
  by (simp add: reg.enter_inv [OF assms] reg.enter_members [OF assms] reg.visit [OF assms]
      reg.leave_inv [OF reg.enter_inv [OF assms] assms(2)])

definition empty_world :: wstate where
  "empty_world = \<lparr>sess = (\<lambda>_. zero_session), writable = [], undefs_of = tame, table = replicate 32 0, wsi_table = replicate 32 0,
     session_count = 0, world_tick = 0, rat_alive = 1, cache_gold = replicate 64 0\<rparr>"

lemma reg_ok_empty [simp]: "reg_ok empty_world"
  by (simp add: reg_ok_def empty_world_def MAX_SESSIONS_def players_def)

lemma members_empty [simp]: "members_of empty_world = {}"
  by (simp add: members_of_def empty_world_def players_def)

theorem registry_visit_witness:
  "reg_ok empty_world \<and> members_of (hg_session_register 7 9 empty_world) = {7} \<and>
   members_of (hg_session_unregister 7 (hg_session_register 7 9 empty_world)) = {}"
  using registry_visit [of empty_world 7 9] by (simp add: MAX_SESSIONS_def)

section \<open>Delivery\<close>

definition excepted :: "string option \<Rightarrow> string \<Rightarrow> bool" where
  "excepted except name = (case except of None \<Rightarrow> False | Some n \<Rightarrow> n \<noteq> [] \<and> case_eq name n)"

definition hg_deliver_room :: "i64 \<Rightarrow> string option \<Rightarrow> string option \<Rightarrow> 'a wstate_scheme \<Rightarrow> 'a wstate_scheme" where
  "hg_deliver_room room msg except st =
     fold (\<lambda>i st. let a = hg_session_at st (int i)
             in if a = 0 then st
                else if s_room (sess st a) \<noteq> room then st
                else if excepted except (s_name (sess st a)) then st
                else hg_queue_cstr a msg st) [0..<MAX_SESSIONS] st"

definition hg_deliver_all :: "string option \<Rightarrow> string option \<Rightarrow> 'a wstate_scheme \<Rightarrow> 'a wstate_scheme" where
  "hg_deliver_all msg except st =
     fold (\<lambda>i st. let a = hg_session_at st (int i)
             in if a = 0 then st
                else if excepted except (s_name (sess st a)) then st
                else hg_queue_cstr a msg st) [0..<MAX_SESSIONS] st"

lemma hg_queue_wstate [simp]:
  "table (hg_queue a d st) = table st" "wsi_table (hg_queue a d st) = wsi_table st"
  "session_count (hg_queue a d st) = session_count st" "world_tick (hg_queue a d st) = world_tick st"
  "rat_alive (hg_queue a d st) = rat_alive st" "cache_gold (hg_queue a d st) = cache_gold st"
  by (auto simp: hg_queue_def hg_session_queue_def hg_ws_request_write_def Let_def split: option.splits)

lemma hg_queue_cstr_Some: "hg_queue_cstr a (Some t) st = hg_queue a (Some (cstr t)) st"
  by (simp add: hg_queue_cstr_def)

lemma hg_queue_cstr_wstate [simp]:
  "table (hg_queue_cstr a d st) = table st" "wsi_table (hg_queue_cstr a d st) = wsi_table st"
  "session_count (hg_queue_cstr a d st) = session_count st" "world_tick (hg_queue_cstr a d st) = world_tick st"
  "rat_alive (hg_queue_cstr a d st) = rat_alive st" "cache_gold (hg_queue_cstr a d st) = cache_gold st"
  by (simp_all add: hg_queue_cstr_def split: option.splits)

text \<open>A walk over the 32 slots visits the table's entries in order, as no step changes the table.\<close>

lemma walk_table:
  assumes "\<And>a st. table (f a st) = table st"
  shows "n \<le> MAX_SESSIONS \<Longrightarrow> length (table st) = MAX_SESSIONS \<Longrightarrow>
    fold (\<lambda>i st. f (hg_session_at st (int i)) st) [0..<n] st = fold f (take n (table st)) st \<and>
    table (fold f (take n (table st)) st) = table st"
proof (induction n)
  case (Suc n)
  then show ?case by (simp add: take_Suc_conv_app_nth hg_session_at_def assms)
qed simp

definition to_hearers :: "(session \<Rightarrow> bool) \<Rightarrow> string \<Rightarrow> addr \<Rightarrow> 'a store_scheme \<Rightarrow> 'a store_scheme" where
  "to_hearers P msg a st = (if a = 0 \<or> \<not> P (sess st a) then st else hg_queue a (Some msg) st)"

lemma to_hearers_spec:
  assumes P: "\<And>s. P (strip_out s) = P s"
  shows "outs_ok st \<Longrightarrow> distinct (players ts) \<Longrightarrow>
    outs_ok (fold (to_hearers P msg) ts st) \<and>
    (\<forall>b. strip_out (sess (fold (to_hearers P msg) ts st) b) = strip_out (sess st b)) \<and>
    (\<forall>b. out_of b (fold (to_hearers P msg) ts st) =
      (if b \<noteq> 0 \<and> b \<in> set ts \<and> P (sess st b) then take OUT_CAP (out_of b st @ msg) else out_of b st))"
proof (induction ts arbitrary: st)
  case (Cons t ts)
  let ?st = "to_hearers P msg t st"
  have ok: "outs_ok ?st" using Cons.prems(1) by (simp add: to_hearers_def hq.put_inv)
  have strip: "strip_out (sess ?st b) = strip_out (sess st b)" for b by (simp add: to_hearers_def)
  have Pst: "P (sess ?st b) = P (sess st b)" for b by (metis P strip)
  have out: "out_of b ?st = (if b = t \<and> t \<noteq> 0 \<and> P (sess st t) then take OUT_CAP (out_of b st @ msg) else out_of b st)" for b
    using Cons.prems(1) by (auto simp: to_hearers_def hq.put_get hq.put_frame)
  have "distinct (players ts)" using Cons.prems(2) by (simp split: if_splits)
  from Cons.IH [OF ok this] have ih:
    "outs_ok (fold (to_hearers P msg) ts ?st)"
    "strip_out (sess (fold (to_hearers P msg) ts ?st) b) = strip_out (sess ?st b)"
    "out_of b (fold (to_hearers P msg) ts ?st) =
      (if b \<noteq> 0 \<and> b \<in> set ts \<and> P (sess ?st b) then take OUT_CAP (out_of b ?st @ msg) else out_of b ?st)" for b
    by simp_all
  have "t \<notin> set ts" if "t \<noteq> 0" using Cons.prems(2) that by (simp add: set_players)
  moreover have "?st = st" if "t = 0" using that by (simp add: to_hearers_def)
  ultimately show ?case
    using ih by (cases "t = 0") (auto simp: strip out Pst)
qed simp

lemma hg_deliver_room_fold:
  assumes "length (table st) = MAX_SESSIONS"
  shows "hg_deliver_room room (Some msg) except st =
    fold (to_hearers (\<lambda>s. s_room s = room \<and> \<not> excepted except (s_name s)) (cstr msg)) (table st) st"
proof -
  let ?f = "to_hearers (\<lambda>s. s_room s = room \<and> \<not> excepted except (s_name s)) (cstr msg)"
  have "(let a = hg_session_at st (int i) in if a = 0 then st else if s_room (sess st a) \<noteq> room then st
      else if excepted except (s_name (sess st a)) then st else hg_queue_cstr a (Some msg) st)
      = ?f (hg_session_at st (int i)) st" for i and st :: "'a wstate_scheme"
    by (simp add: to_hearers_def Let_def hg_queue_cstr_Some)
  then show ?thesis
    using walk_table [of ?f MAX_SESSIONS st] assms by (simp add: hg_deliver_room_def to_hearers_def)
qed

lemma hg_deliver_all_fold:
  assumes "length (table st) = MAX_SESSIONS"
  shows "hg_deliver_all (Some msg) except st =
    fold (to_hearers (\<lambda>s. \<not> excepted except (s_name s)) (cstr msg)) (table st) st"
proof -
  let ?f = "to_hearers (\<lambda>s. \<not> excepted except (s_name s)) (cstr msg)"
  have "(let a = hg_session_at st (int i) in if a = 0 then st
      else if excepted except (s_name (sess st a)) then st else hg_queue_cstr a (Some msg) st)
      = ?f (hg_session_at st (int i)) st" for i and st :: "'a wstate_scheme"
    by (simp add: to_hearers_def Let_def hg_queue_cstr_Some)
  then show ?thesis
    using walk_table [of ?f MAX_SESSIONS st] assms by (simp add: hg_deliver_all_def to_hearers_def)
qed

text \<open>C14. A message to a room is heard by exactly those it is meant for: each player of the registry who is
  in the room and is not the excepted one (names compared without case) gets the whole message appended, as
  far as its outbox has room; no other outbox and no other cell of any session changes.\<close>

theorem deliver_room_heard:
  assumes "outs_ok st" and "reg_ok st"
  shows "out_of b (hg_deliver_room room (Some msg) except st) =
      (if b \<in> members_of st \<and> s_room (sess st b) = room \<and> \<not> excepted except (s_name (sess st b))
       then take OUT_CAP (out_of b st @ cstr msg) else out_of b st) \<and>
    strip_out (sess (hg_deliver_room room (Some msg) except st) b) = strip_out (sess st b)"
  using to_hearers_spec [of "\<lambda>s. s_room s = room \<and> \<not> excepted except (s_name s)" st "table st" "cstr msg"] assms
  by (auto simp: hg_deliver_room_fold reg_ok_def members_of_def set_players)

text \<open>A world with one player in it, for the examples.\<close>

definition one_player :: wstate where
  "one_player = hg_session_register 7 9 empty_world"

lemma one_player [simp]:
  "reg_ok one_player" "members_of one_player = {7}" "outs_ok one_player" "out_of 7 one_player = []"
  "s_room (sess one_player 7) = 0" "s_name (sess one_player 7) = []"
  unfolding one_player_def
  using reg.enter_inv [of empty_world 7 9] reg.enter_members [of empty_world 7 9]
  by (simp_all add: MAX_SESSIONS_def)
     (simp_all add: hg_session_register_def empty_world_def outs_ok_def out_ok_def out_of_def zero_session_def
        numeral_eq_Suc)

theorem deliver_room_heard_witness:
  "outs_ok one_player \<and> out_of 7 (hg_deliver_room 0 (Some ''hello'') (Some ''Ash'') one_player) = ''hello''"
  using deliver_room_heard [of one_player 7 0 "''hello''" "Some ''Ash''"]
  by (simp add: excepted_def case_eq_def OUT_CAP_def)

lemma deliver_all_core:
  assumes "outs_ok st" and "reg_ok st"
  shows "out_of b (hg_deliver_all (Some msg) except st) =
      (if b \<in> members_of st \<and> \<not> excepted except (s_name (sess st b))
       then take OUT_CAP (out_of b st @ cstr msg) else out_of b st) \<and>
    strip_out (sess (hg_deliver_all (Some msg) except st) b) = strip_out (sess st b)"
  using to_hearers_spec [of "\<lambda>s. \<not> excepted except (s_name s)" st "table st" "cstr msg"] assms
  by (auto simp: hg_deliver_all_fold reg_ok_def members_of_def set_players)

text \<open>A message to everyone reaches every player of the registry but the excepted one, and no one else.\<close>

lemma deliver_all_heard:
  assumes "outs_ok st" and "reg_ok st"
  shows "out_of b (hg_deliver_all (Some msg) except st) =
      (if b \<in> members_of st \<and> \<not> excepted except (s_name (sess st b))
       then take OUT_CAP (out_of b st @ cstr msg) else out_of b st) \<and>
    strip_out (sess (hg_deliver_all (Some msg) except st) b) = strip_out (sess st b)"
  by (rule deliver_all_core [OF assms])

section \<open>The players of a room\<close>

text \<open>One entry of the list, None when an escape overflows its buffer; then the player is skipped.\<close>

definition player_entry :: "bool \<Rightarrow> session \<Rightarrow> string option" where
  "player_entry first s =
     (let (n, nesc) = hg_json_escape 80 (Some (s_name s));
          (m, sesc) = hg_json_escape 80 (Some (hg_brand_standing (Some s)))
      in if n < 0 \<or> m < 0 then None
         else Some (sprintf [S (if first then [] else '',''), L ''{\"name\":\"'', S nesc,
           L ''\",\"standing\":\"'', S sesc, L ''\"}'']))"

text \<open>The loop of \<^verbatim>\<open>hg_players_json\<close> over the sessions in the table: \<open>Inl\<close> of the
  buffer on overflow.\<close>

primrec players_loop :: "nat \<Rightarrow> i64 \<Rightarrow> string option \<Rightarrow> session list \<Rightarrow> string \<Rightarrow> bool \<Rightarrow> string + string" where
  "players_loop cap room except [] buf first = Inr buf"
| "players_loop cap room except (s # ss) buf first =
     (if s_room s \<noteq> room then players_loop cap room except ss buf first
      else if s_name s = [] then players_loop cap room except ss buf first
      else if (case except of None \<Rightarrow> False | Some n \<Rightarrow> case_eq (s_name s) n)
        then players_loop cap room except ss buf first
      else case player_entry first s of
             None \<Rightarrow> players_loop cap room except ss buf first
           | Some item \<Rightarrow>
               if cap - length buf \<le> length item then Inl ''[]''
               else players_loop cap room except ss (buf @ item) False)"

definition hg_players_json :: "i64 \<Rightarrow> string option \<Rightarrow> nat \<Rightarrow> 'a wstate_scheme \<Rightarrow> fmt_result" where
  "hg_players_json room except cap st =
     (if cap < 3 then (-1, [])
      else case players_loop cap room except (map (sess st) (players (table st))) ''['' True of
             Inl buf \<Rightarrow> (-1, buf)
           | Inr buf \<Rightarrow> if cap < length buf + 2 then (-1, buf) else (int (length buf) + 1, buf @ '']''))"

definition player_json :: "session \<Rightarrow> jval" where
  "player_json s = JObj [(''name'', JStr (s_name s)), (''standing'', JStr (hg_brand_standing (Some s)))]"

definition shown :: "i64 \<Rightarrow> string option \<Rightarrow> session \<Rightarrow> bool" where
  "shown room except s \<longleftrightarrow> s_room s = room \<and> s_name s \<noteq> [] \<and>
     \<not> (case except of None \<Rightarrow> False | Some n \<Rightarrow> case_eq (s_name s) n)"

text \<open>Names of players are plain (letters, digits, dash and underscore) and fit their cell.\<close>

definition names_ok :: "'a store_scheme \<Rightarrow> bool" where
  "names_ok st \<longleftrightarrow> (\<forall>a. json_plain (s_name (sess st a)) \<and> length (s_name (sess st a)) < 40)"

lemma player_entry_plain:
  assumes "json_plain (s_name s)" and "length (s_name s) < 40"
  shows "player_entry first s = Some ((if first then [] else '','') @ render (player_json s))"
  using assms length_brand [of "Some s"] brand_plain [of "Some s"]
  by (simp add: hg_json_escape_fits json_plain_nul_free player_json_def player_entry_def event_templates)

lemma players_loop_Inr:
  assumes "\<forall>s \<in> set ss. json_plain (s_name s) \<and> length (s_name s) < 40"
  shows "players_loop cap room except ss (CHR ''['' # commas (map render vs)) (vs = []) = Inr buf \<longleftrightarrow>
    buf = CHR ''['' # commas (map render (vs @ map player_json (filter (shown room except) ss))) \<and>
    (filter (shown room except) ss = [] \<or> length buf < cap)"
  using assms
proof (induction ss arbitrary: vs)
  case (Cons s ss)
  show ?case
  proof (cases "shown room except s")
    case False
    with Cons show ?thesis by (auto simp: shown_def)
  next
    case True
    let ?vs = "vs @ [player_json s]"
    let ?item = "(if vs = [] then [] else '','') @ render (player_json s)"
    let ?rest = "players_loop cap room except ss (CHR ''['' # commas (map render ?vs)) (?vs = [])"
    have item: "commas (map render vs) @ ?item = commas (map render ?vs)"
      by (cases "vs = []") (simp_all add: commas_snoc del: render.simps)
    then have len: "length (commas (map render ?vs)) = length (commas (map render vs)) + length ?item"
      by (metis length_append)
    have "players_loop cap room except (s # ss) (CHR ''['' # commas (map render vs)) (vs = []) =
      (if cap - length (CHR ''['' # commas (map render vs)) \<le> length ?item then Inl ''[]''
       else players_loop cap room except ss (CHR ''['' # (commas (map render vs) @ ?item)) False)"
      using True Cons.prems by (simp add: shown_def player_entry_plain del: render.simps)
    also have "\<dots> = (if cap \<le> length (CHR ''['' # commas (map render ?vs)) then Inl ''[]'' else ?rest)"
      unfolding item using len by auto
    finally have step: "players_loop cap room except (s # ss) (CHR ''['' # commas (map render vs)) (vs = []) =
      (if cap \<le> length (CHR ''['' # commas (map render ?vs)) then Inl ''[]'' else ?rest)" .
    have mono: "length (commas (map render ?vs)) \<le>
        length (commas (map render (?vs @ map player_json (filter (shown room except) ss))))"
      unfolding map_append by (rule length_commas_append)
    show ?thesis
      unfolding step using Cons.IH [of ?vs] Cons.prems True mono by (auto simp del: render.simps)
  qed
qed auto

definition present_json :: "i64 \<Rightarrow> string option \<Rightarrow> 'a wstate_scheme \<Rightarrow> jval" where
  "present_json room except st =
     JArr (map player_json (filter (shown room except) (map (sess st) (players (table st)))))"

lemma players_json_exact_core:
  assumes names: "names_ok st" and cap: "3 \<le> cap"
  shows "let t = render (present_json room except st)
    in if length t < cap then hg_players_json room except cap st = (int (length t), t)
       else fst (hg_players_json room except cap st) = -1"
proof -
  let ?ss = "map (sess st) (players (table st))"
  let ?buf = "CHR ''['' # commas (map render (map player_json (filter (shown room except) ?ss)))"
  have t: "render (present_json room except st) = ?buf @ '']''" by (simp add: present_json_def)
  have "\<forall>s \<in> set ?ss. json_plain (s_name s) \<and> length (s_name s) < 40"
    using names by (auto simp: names_ok_def)
  note loop = players_loop_Inr [OF this, of cap room except "[]"]
  have some: "players_loop cap room except ?ss ''['' True = Inr ?buf" if "length ?buf < cap"
    using loop [of ?buf] that by (simp del: render.simps)
  have only: "buf = ?buf" if "players_loop cap room except ?ss ''['' True = Inr buf" for buf
    using loop [of buf] that by (simp del: render.simps)
  show ?thesis
  proof (cases "length (?buf @ '']'') < cap")
    case True
    then show ?thesis
      using cap some unfolding t by (simp add: hg_players_json_def del: render.simps)
  next
    case False
    then show ?thesis
      using cap only unfolding t
      by (auto simp: hg_players_json_def Let_def split: sum.split simp del: render.simps)
  qed
qed

text \<open>The list of a room's players is whole or reported as failed: with plain names, the buffer holds the
  JSON array of every named player of the registry who is in the room and is not the excepted one, with
  the brand each wears, and the returned length is that of the array; or, exactly when that array does not
  fit, the function returns -1 (and its caller announces an empty room).\<close>

lemma players_json_exact:
  assumes "names_ok st" and "3 \<le> cap"
  shows "let t = render (present_json room except st)
    in if length t < cap then hg_players_json room except cap st = (int (length t), t)
       else fst (hg_players_json room except cap st) = -1"
  by (rule players_json_exact_core [OF assms])

end
