(* ===== verification/LocalHub.thy ===== *)
theory LocalHub
  imports Format_Grid Policy
begin

text \<open>
  \<^verbatim>\<open>asm/grid_local.asm\<close>: the in-memory hub a node runs on when no remote hub is
  configured.  Four logs (traces, node echoes, rescued, fallen) are arrays with a count, the newest row
  first; recording shifts the live rows down by one.  The locale \<open>bounded_log\<close> states what that
  promises: a log keeps the newest rows up to its capacity.  Beside them are the tide, a clamped
  counter, and the casts, a ring of numbered messages.
\<close>

section \<open>Rows and state\<close>

record echo_row =
  ec_node :: string
  ec_kind :: string
  ec_text :: string
  ec_at :: i64

record rescued_row =
  rs_world :: string
  rs_name :: string
  rs_by :: string
  rs_at :: i64

record fallen_row =
  fl_world :: string
  fl_name :: string
  fl_room :: string
  fl_at :: i64

record cast_row =
  ct_id :: i32
  ct_world :: string
  ct_sender :: string
  ct_text :: string

record ledger_row =
  lr_kind :: string
  lr_count :: i32

definition GL_MAX_TRACES :: nat where "GL_MAX_TRACES = 200"
definition GL_MAX_ECHO :: nat where "GL_MAX_ECHO = 128"
definition GL_MAX_RESCUED :: nat where "GL_MAX_RESCUED = 200"
definition GL_MAX_FALLEN :: nat where "GL_MAX_FALLEN = 200"
definition GL_MAX_CASTS :: nat where "GL_MAX_CASTS = 200"

record local_hub =
  gl_world_name :: string
  gl_world_url :: string
  gl_tide :: i32
  gl_traces :: "federation_trace list"
  gl_trace_n :: nat
  gl_echo :: "echo_row list"
  gl_echo_n :: nat
  gl_rescued :: "rescued_row list"
  gl_rescued_n :: nat
  gl_fallen :: "fallen_row list"
  gl_fallen_n :: nat
  gl_casts :: "cast_row list"
  gl_cast_n :: nat
  gl_next_cast :: i32

text \<open>The zeroed rows and the hub after \<^verbatim>\<open>hg_grid_local_clear\<close>.\<close>

definition zero_trace :: federation_trace where
  "zero_trace = \<lparr>ft_world = [], ft_node = [], ft_kind = [], ft_text = [], ft_at = 0\<rparr>"

definition zero_cast :: cast_row where
  "zero_cast = \<lparr>ct_id = 0, ct_world = [], ct_sender = [], ct_text = []\<rparr>"

definition hg_grid_local_clear :: local_hub where
  "hg_grid_local_clear = \<lparr>gl_world_name = [], gl_world_url = [], gl_tide = 0,
     gl_traces = replicate 200 zero_trace, gl_trace_n = 0,
     gl_echo = replicate 128 \<lparr>ec_node = [], ec_kind = [], ec_text = [], ec_at = 0\<rparr>, gl_echo_n = 0,
     gl_rescued = replicate 200 \<lparr>rs_world = [], rs_name = [], rs_by = [], rs_at = 0\<rparr>, gl_rescued_n = 0,
     gl_fallen = replicate 200 \<lparr>fl_world = [], fl_name = [], fl_room = [], fl_at = 0\<rparr>, gl_fallen_n = 0,
     gl_casts = replicate 200 zero_cast, gl_cast_n = 0, gl_next_cast = 0\<rparr>"

section \<open>The shift\<close>

text \<open>The loop of the four recorders: row \<open>i\<close> takes row \<open>i - 1\<close>, from the last live
  row (or the last slot but nothing, when the array is full) down to 1; then the count grows unless full.\<close>

fun shift_loop :: "'r list \<Rightarrow> nat \<Rightarrow> 'r list" where
  "shift_loop rows 0 = rows"
| "shift_loop rows (Suc i) = shift_loop (rows[Suc i := rows ! i]) i"

definition row_shift :: "nat \<Rightarrow> 'r list \<Rightarrow> nat \<Rightarrow> 'r list \<times> nat" where
  "row_shift cap rows n =
     (let m = (if n < cap then n else cap - 1)
      in (shift_loop rows m, if n < cap then n + 1 else n))"

definition log_push :: "nat \<Rightarrow> 'r \<Rightarrow> 'r list \<times> nat \<Rightarrow> 'r list \<times> nat" where
  "log_push cap r = (\<lambda>(rows, n). let (rows', n') = row_shift cap rows n in (rows'[0 := r], n'))"

definition live :: "'r list \<times> nat \<Rightarrow> 'r list" where
  "live = (\<lambda>(rows, n). take n rows)"

definition log_ok :: "nat \<Rightarrow> 'r list \<times> nat \<Rightarrow> bool" where
  "log_ok cap = (\<lambda>(rows, n). length rows = cap \<and> n \<le> cap)"

lemma shift_loop_length [simp]: "length (shift_loop rows i) = length rows"
  by (induction rows i rule: shift_loop.induct) simp_all

lemma shift_loop_nth:
  "i < length rows \<Longrightarrow> k < length rows \<Longrightarrow>
     shift_loop rows i ! k = (if 0 < k \<and> k \<le> i then rows ! (k - 1) else rows ! k)"
proof (induction rows i arbitrary: k rule: shift_loop.induct)
  case (2 rows i)
  then show ?case by (cases "k = Suc i") (auto simp: nth_list_update)
qed simp

lemma log_push_ok:
  assumes "log_ok cap l" and "0 < cap"
  shows "log_ok cap (log_push cap r l)"
  using assms by (cases l) (auto simp: log_ok_def log_push_def row_shift_def Let_def)

lemma log_push_live:
  assumes ok: "log_ok cap l" and cap: "0 < cap"
  shows "live (log_push cap r l) = take cap (r # live l)"
proof -
  obtain rows n where l: "l = (rows, n)" by (cases l)
  with ok have len: "length rows = cap" and n: "n \<le> cap" by (simp_all add: log_ok_def)
  let ?m = "if n < cap then n else cap - 1"
  have m: "?m < length rows" using cap len by auto
  show ?thesis
  proof (rule nth_equalityI)
    show "length (live (log_push cap r l)) = length (take cap (r # live l))"
      using n len l cap by (auto simp: live_def log_push_def row_shift_def Let_def min_def)
    fix k assume "k < length (live (log_push cap r l))"
    then have k: "k \<le> ?m" "k < cap"
      using n len l cap by (auto simp: live_def log_push_def row_shift_def Let_def split: if_splits)
    have "live (log_push cap r l) ! k = (shift_loop rows ?m)[0 := r] ! k"
      using k n len l by (auto simp: live_def log_push_def row_shift_def Let_def)
    also have "\<dots> = (r # live l) ! k"
      using k n len l m cap by (cases k) (auto simp: shift_loop_nth live_def split: if_splits)
    finally show "live (log_push cap r l) ! k = take cap (r # live l) ! k" using k by simp
  qed
qed

section \<open>The contract of a log\<close>

locale bounded_log =
  fixes cap :: nat
    and push :: "'r \<Rightarrow> 's \<Rightarrow> 's"
    and rows :: "'s \<Rightarrow> 'r list"
    and inv :: "'s \<Rightarrow> bool"
  assumes rows_cap: "inv s \<Longrightarrow> length (rows s) \<le> cap"
    and push_rows: "inv s \<Longrightarrow> rows (push r s) = take cap (r # rows s)"
    and push_inv: "inv s \<Longrightarrow> inv (push r s)"
    and cap_pos: "0 < cap"
begin

lemma pushes_inv: "inv s \<Longrightarrow> inv (fold push rs s)"
  by (induction rs arbitrary: s) (simp_all add: push_inv)

text \<open>After any number of records the log holds the newest ones, newest first.\<close>

lemma pushes_rows: "inv s \<Longrightarrow> rows (fold push rs s) = take cap (rev rs @ rows s)"
proof (induction rs arbitrary: s)
  case Nil
  then show ?case by (simp add: rows_cap)
next
  case (Cons r rs)
  then have "rows (fold push (r # rs) s) = take cap (rev rs @ take cap (r # rows s))"
    by (simp add: push_inv push_rows)
  also have "\<dots> = take cap (rev (r # rs) @ rows s)"
    by (cases "length rs \<le> cap") (simp_all add: take_Cons' min_def)
  finally show ?case .
qed

lemma newest_kept: "inv s \<Longrightarrow> r \<in> set (rows (push r s))"
  using cap_pos by (cases cap) (simp_all add: push_rows)

lemma older_kept: "inv s \<Longrightarrow> length (rows s) < cap \<Longrightarrow> rows (push r s) = r # rows s"
  by (simp add: push_rows)

end

section \<open>Recording\<close>

text \<open>\<open>now\<close> is the reading of \<^verbatim>\<open>hg_now_ms\<close>, used when the caller passes 0.  A NULL
  string is copied as the empty one.  Every operation here returns 0.\<close>

definition stamp :: "i64 \<Rightarrow> i64 \<Rightarrow> i64" where
  "stamp now at = (if at = 0 then now else at)"

definition cut :: "nat \<Rightarrow> string option \<Rightarrow> string" where
  "cut cap s = copy_cap cap (or_default s [])"

definition put_trace :: "federation_trace \<Rightarrow> local_hub \<Rightarrow> local_hub" where
  "put_trace t h = (let (rows, n) = log_push GL_MAX_TRACES t (gl_traces h, gl_trace_n h)
     in h\<lparr>gl_traces := rows, gl_trace_n := n\<rparr>)"

definition put_echo :: "echo_row \<Rightarrow> local_hub \<Rightarrow> local_hub" where
  "put_echo e h = (let (rows, n) = log_push GL_MAX_ECHO e (gl_echo h, gl_echo_n h)
     in h\<lparr>gl_echo := rows, gl_echo_n := n\<rparr>)"

definition put_fallen :: "fallen_row \<Rightarrow> local_hub \<Rightarrow> local_hub" where
  "put_fallen f h = (let (rows, n) = log_push GL_MAX_FALLEN f (gl_fallen h, gl_fallen_n h)
     in h\<lparr>gl_fallen := rows, gl_fallen_n := n\<rparr>)"

definition put_rescued :: "rescued_row \<Rightarrow> local_hub \<Rightarrow> local_hub" where
  "put_rescued r h = (let (rows, n) = log_push GL_MAX_RESCUED r (gl_rescued h, gl_rescued_n h)
     in h\<lparr>gl_rescued := rows, gl_rescued_n := n\<rparr>)"

definition hg_grid_local_record ::
  "i64 \<Rightarrow> string option \<Rightarrow> string option \<Rightarrow> string option \<Rightarrow> string option \<Rightarrow> i64 \<Rightarrow> local_hub \<Rightarrow> local_hub" where
  "hg_grid_local_record now world node kind msg at h =
     put_trace \<lparr>ft_world = cut 48 world, ft_node = cut 64 node, ft_kind = cut 24 kind, ft_text = cut 200 msg,
       ft_at = stamp now at\<rparr> h"

definition hg_grid_record_local_echo ::
  "i64 \<Rightarrow> string option \<Rightarrow> string option \<Rightarrow> string option \<Rightarrow> local_hub \<Rightarrow> local_hub" where
  "hg_grid_record_local_echo now node kind msg h =
     put_echo \<lparr>ec_node = cut 64 node, ec_kind = cut 24 kind, ec_text = cut 200 msg, ec_at = now\<rparr> h"

definition hg_grid_local_record_fallen ::
  "i64 \<Rightarrow> string option \<Rightarrow> string option \<Rightarrow> string option \<Rightarrow> i64 \<Rightarrow> local_hub \<Rightarrow> local_hub" where
  "hg_grid_local_record_fallen now world name room at h =
     put_fallen \<lparr>fl_world = cut 48 world, fl_name = cut 40 name, fl_room = cut 32 room, fl_at = stamp now at\<rparr> h"

definition hg_grid_local_record_rescued ::
  "i64 \<Rightarrow> string option \<Rightarrow> string option \<Rightarrow> string option \<Rightarrow> i64 \<Rightarrow> local_hub \<Rightarrow> local_hub" where
  "hg_grid_local_record_rescued now world name saved_by at h =
     (let at' = stamp now at;
          h1 = put_rescued \<lparr>rs_world = cut 48 world, rs_name = cut 40 name, rs_by = cut 40 saved_by, rs_at = at'\<rparr> h;
          msg = snd (snprintf 256 (sprintf [S (or_default name []), L '' freed by '', S (or_default saved_by [])]))
      in hg_grid_local_record now world (Some ''rescued'') (Some ''rescue'') (Some msg) at' h1)"

text \<open>The clock is read once for each of the six seed traces.\<close>

definition seed_traces :: "(string \<times> string \<times> string \<times> string) list" where
  "seed_traces =
    [(''Dustfall'', ''the long market'', ''slain'', ''a trader put down a chrome-jackal with a length of pipe.''),
     (''the Ninth Server'', ''cell block C'', ''oath'', ''someone swore off the dust for the ninth time.''),
     (''Saltreach'', ''the drowned pier'', ''death'', ''a runner called Mox bled out, cursing the tide.''),
     (''Basalt Relay'', ''nexus'', ''ghost'', ''a faint cursor blinks once and is gone.''),
     (''Basalt Relay'', ''market'', ''passage'', ''someone passed through without leaving a name.''),
     (''Basalt Relay'', ''roof'', ''recall'', ''a half-remembered transmission dissolves into static.'')]"

definition hg_grid_local_boot :: "(nat \<Rightarrow> i64) \<Rightarrow> string option \<Rightarrow> string option \<Rightarrow> local_hub" where
  "hg_grid_local_boot clock world_name world_url =
     (let h = hg_grid_local_clear\<lparr>gl_world_name := cut 64 world_name, gl_world_url := cut 160 world_url\<rparr>
      in fold (\<lambda>(i, w, n, k, t). hg_grid_local_record (clock i) (Some w) (Some n) (Some k) (Some t) 0)
           (enumerate 0 seed_traces) h)"

definition traces :: "local_hub \<Rightarrow> federation_trace list" where "traces h = live (gl_traces h, gl_trace_n h)"
definition echoes :: "local_hub \<Rightarrow> echo_row list" where "echoes h = live (gl_echo h, gl_echo_n h)"
definition fallens :: "local_hub \<Rightarrow> fallen_row list" where "fallens h = live (gl_fallen h, gl_fallen_n h)"
definition rescues :: "local_hub \<Rightarrow> rescued_row list" where "rescues h = live (gl_rescued h, gl_rescued_n h)"

definition tide_ok :: "i32 \<Rightarrow> bool" where
  "tide_ok t \<longleftrightarrow> -100 \<le> sint t \<and> sint t \<le> 100"

definition hub_ok :: "local_hub \<Rightarrow> bool" where
  "hub_ok h \<longleftrightarrow> log_ok GL_MAX_TRACES (gl_traces h, gl_trace_n h) \<and> log_ok GL_MAX_ECHO (gl_echo h, gl_echo_n h) \<and>
     log_ok GL_MAX_RESCUED (gl_rescued h, gl_rescued_n h) \<and> log_ok GL_MAX_FALLEN (gl_fallen h, gl_fallen_n h) \<and>
     length (gl_casts h) = GL_MAX_CASTS \<and> gl_cast_n h \<le> GL_MAX_CASTS \<and> tide_ok (gl_tide h)"

lemma gl_caps_pos [simp]: "0 < GL_MAX_TRACES" "0 < GL_MAX_ECHO" "0 < GL_MAX_RESCUED" "0 < GL_MAX_FALLEN"
  by (simp_all add: GL_MAX_TRACES_def GL_MAX_ECHO_def GL_MAX_RESCUED_def GL_MAX_FALLEN_def)

lemma live_length: "log_ok cap l \<Longrightarrow> length (live l) \<le> cap"
  by (cases l) (simp add: log_ok_def live_def)

lemma log_push_eqD:
  assumes "log_push cap r l = l'" and "log_ok cap l" and "0 < cap"
  shows "log_ok cap l'" and "live l' = take cap (r # live l)"
  using log_push_ok [OF assms(2,3), of r] log_push_live [OF assms(2,3), of r] assms(1) by simp_all

interpretation tl: bounded_log GL_MAX_TRACES put_trace traces hub_ok
  by unfold_locales
     (auto simp: hub_ok_def traces_def put_trace_def live_length split: prod.splits dest: log_push_eqD)

interpretation el: bounded_log GL_MAX_ECHO put_echo echoes hub_ok
  by unfold_locales
     (auto simp: hub_ok_def echoes_def put_echo_def live_length split: prod.splits dest: log_push_eqD)

interpretation fl: bounded_log GL_MAX_FALLEN put_fallen fallens hub_ok
  by unfold_locales
     (auto simp: hub_ok_def fallens_def put_fallen_def live_length split: prod.splits dest: log_push_eqD)

interpretation rl: bounded_log GL_MAX_RESCUED put_rescued rescues hub_ok
  by unfold_locales
     (auto simp: hub_ok_def rescues_def put_rescued_def live_length split: prod.splits dest: log_push_eqD)

lemma put_frames [simp]:
  "echoes (put_trace t h) = echoes h" "fallens (put_trace t h) = fallens h" "rescues (put_trace t h) = rescues h"
  "traces (put_echo e h) = traces h" "fallens (put_echo e h) = fallens h" "rescues (put_echo e h) = rescues h"
  "traces (put_fallen f h) = traces h" "echoes (put_fallen f h) = echoes h" "rescues (put_fallen f h) = rescues h"
  "traces (put_rescued r h) = traces h" "echoes (put_rescued r h) = echoes h" "fallens (put_rescued r h) = fallens h"
  by (simp_all add: put_trace_def put_echo_def put_fallen_def put_rescued_def traces_def echoes_def fallens_def
      rescues_def split: prod.split)

lemma put_world [simp]:
  "gl_world_name (put_trace t h) = gl_world_name h" "gl_world_url (put_trace t h) = gl_world_url h"
  "gl_tide (put_trace t h) = gl_tide h" "gl_casts (put_trace t h) = gl_casts h"
  "gl_cast_n (put_trace t h) = gl_cast_n h" "gl_next_cast (put_trace t h) = gl_next_cast h"
  by (simp_all add: put_trace_def split: prod.split)

lemma hub_ok_clear [simp]: "hub_ok hg_grid_local_clear"
  by (simp add: hub_ok_def hg_grid_local_clear_def log_ok_def tide_ok_def GL_MAX_TRACES_def GL_MAX_ECHO_def
      GL_MAX_RESCUED_def GL_MAX_FALLEN_def GL_MAX_CASTS_def)

lemma boot_ok: "hub_ok (hg_grid_local_boot clock w u)"
proof -
  have "hub_ok (fold (\<lambda>(i, w, n, k, t). hg_grid_local_record (clock i) (Some w) (Some n) (Some k) (Some t) 0) xs h)"
    if "hub_ok h" for xs h
    using that by (induction xs arbitrary: h) (auto simp: hg_grid_local_record_def tl.push_inv split: prod.split)
  then show ?thesis
    using hub_ok_clear unfolding hg_grid_local_boot_def Let_def by (simp add: hub_ok_def)
qed

section \<open>Tide\<close>

definition clamp_tide :: "i32 \<Rightarrow> i32" where
  "clamp_tide t = (if sint t < -100 then -100 else if 100 < sint t then 100 else t)"

definition hg_grid_local_tide :: "local_hub \<Rightarrow> i32" where
  "hg_grid_local_tide h = gl_tide h"

text \<open>The sum is a 32-bit addition, before the clamp.\<close>

definition hg_grid_local_shift_tide :: "i32 \<Rightarrow> local_hub \<Rightarrow> i32 \<times> local_hub" where
  "hg_grid_local_shift_tide delta h =
     (let t = clamp_tide (gl_tide h + delta) in (t, h\<lparr>gl_tide := t\<rparr>))"

lemma clamp_tide_ok: "tide_ok (clamp_tide t)"
  by (simp add: clamp_tide_def tide_ok_def)

lemma sint_add_i32: "sint (a + b :: i32) = (sint a + sint b + 2 ^ 31) mod 2 ^ 32 - 2 ^ 31"
  by (simp add: sint_word_ariths signed_take_bit_eq_take_bit_shift take_bit_eq_mod)

lemma sint_add_cases:
  fixes a b :: i32
  shows "sint (a + b) = (let x = sint a + sint b
     in if x < - (2 ^ 31) then x + 2 ^ 32 else if x < 2 ^ 31 then x else x - 2 ^ 32)"
proof -
  have r: "- (2 ^ 31) \<le> sint a" "sint a < 2 ^ 31" "- (2 ^ 31) \<le> sint b" "sint b < 2 ^ 31"
    using sint_greater_eq [of a] sint_less [of a] sint_greater_eq [of b] sint_less [of b] by simp_all
  consider "sint a + sint b < - (2 ^ 31)" | "- (2 ^ 31) \<le> sint a + sint b" "sint a + sint b < 2 ^ 31"
    | "2 ^ 31 \<le> sint a + sint b" by linarith
  then show ?thesis
  proof cases
    case 1
    have "(sint a + sint b + 2 ^ 31) mod 2 ^ 32 = (sint a + sint b + 2 ^ 31 + 2 ^ 32) mod 2 ^ 32"
      by (simp only: mod_add_self2)
    also have "\<dots> = sint a + sint b + 2 ^ 31 + 2 ^ 32" by (rule mod_pos_pos_trivial) (use 1 r in simp_all)
    finally show ?thesis using 1 by (simp add: sint_add_i32 Let_def)
  next
    case 2
    have "(sint a + sint b + 2 ^ 31) mod 2 ^ 32 = sint a + sint b + 2 ^ 31"
      by (rule mod_pos_pos_trivial) (use 2 in simp_all)
    then show ?thesis using 2 by (simp add: sint_add_i32 Let_def)
  next
    case 3
    have "(sint a + sint b + 2 ^ 31) mod 2 ^ 32 = (sint a + sint b + 2 ^ 31 - 2 ^ 32) mod 2 ^ 32"
      by (simp only: minus_mod_self2)
    also have "\<dots> = sint a + sint b + 2 ^ 31 - 2 ^ 32" by (rule mod_pos_pos_trivial) (use 3 r in simp_all)
    finally show ?thesis using 3 by (simp add: sint_add_i32 Let_def)
  qed
qed

text \<open>C29. The tide never leaves -100 .. 100.  A shift moves it by the amount asked and stops at the ends, as
  long as the 32-bit sum does not wrap: every amount down from the largest by 100 is safe, while the largest
  itself, on a tide of 1 or more, lands on the opposite end.\<close>

theorem tide_shift:
  assumes "hub_ok h"
  shows "hub_ok (snd (hg_grid_local_shift_tide d h)) \<and>
    fst (hg_grid_local_shift_tide d h) = hg_grid_local_tide (snd (hg_grid_local_shift_tide d h)) \<and>
    sint (fst (hg_grid_local_shift_tide d h)) =
      (if sint (gl_tide h) + sint d < 2 ^ 31 \<and> - (2 ^ 31) \<le> sint (gl_tide h) + sint d
       then max (-100) (min 100 (sint (gl_tide h) + sint d))
       else if 0 < sint d then -100 else 100)"
proof -
  from assms have t: "-100 \<le> sint (gl_tide h)" "sint (gl_tide h) \<le> 100"
    by (simp_all add: hub_ok_def tide_ok_def)
  have d: "- (2 ^ 31) \<le> sint d" "sint d < 2 ^ 31"
    using sint_greater_eq [of d] sint_less [of d] by simp_all
  have clamp: "sint (clamp_tide w) = max (-100) (min 100 (sint w))" for w
    by (simp add: clamp_tide_def)
  have "hub_ok (snd (hg_grid_local_shift_tide d h))"
    using assms by (simp add: hub_ok_def hg_grid_local_shift_tide_def Let_def clamp_tide_ok)
  moreover have "sint (clamp_tide (gl_tide h + d)) =
      (if sint (gl_tide h) + sint d < 2 ^ 31 \<and> - (2 ^ 31) \<le> sint (gl_tide h) + sint d
       then max (-100) (min 100 (sint (gl_tide h) + sint d))
       else if 0 < sint d then -100 else 100)"
    using t d by (auto simp: clamp sint_add_cases Let_def)
  ultimately show ?thesis
    by (simp add: hg_grid_local_shift_tide_def hg_grid_local_tide_def Let_def)
qed

theorem tide_shift_witness:
  "hub_ok hg_grid_local_clear \<and> sint (fst (hg_grid_local_shift_tide 250 hg_grid_local_clear)) = 100"
proof -
  have "gl_tide hg_grid_local_clear = 0" by (simp add: hg_grid_local_clear_def)
  with tide_shift [OF hub_ok_clear, of 250, THEN conjunct2, THEN conjunct2] show ?thesis by simp
qed

section \<open>Casts\<close>

definition hg_grid_local_gridcast :: "string option \<Rightarrow> string option \<Rightarrow> local_hub \<Rightarrow> local_hub" where
  "hg_grid_local_gridcast sender msg h =
     (let i = gl_next_cast h + 1;
          slot = unat (i - 1) mod GL_MAX_CASTS
      in h\<lparr>gl_next_cast := i,
           gl_casts := (gl_casts h)[slot := \<lparr>ct_id = i, ct_world = cut 48 (Some (gl_world_name h)),
             ct_sender = cut 33 sender, ct_text = cut 240 msg\<rparr>],
           gl_cast_n := (if gl_cast_n h < GL_MAX_CASTS then gl_cast_n h + 1 else gl_cast_n h)\<rparr>)"

text \<open>The scan of the used slots in slot order, copying rows; it stops when the caller's array is full.\<close>

definition cast_copy :: "cast_row \<Rightarrow> cast_row" where
  "cast_copy c = \<lparr>ct_id = ct_id c, ct_world = copy_cap 48 (ct_world c), ct_sender = copy_cap 33 (ct_sender c),
     ct_text = copy_cap 240 (ct_text c)\<rparr>"

fun casts_scan :: "i32 \<Rightarrow> nat \<Rightarrow> cast_row list \<Rightarrow> cast_row list \<Rightarrow> cast_row list" where
  "casts_scan since cap [] out = out"
| "casts_scan since cap (c # cs) out =
     (if ct_id c \<le>s since then casts_scan since cap cs out
      else if cap \<le> length out then out
      else casts_scan since cap cs (out @ [cast_copy c]))"

definition hg_grid_local_casts_since :: "i32 \<Rightarrow> i32 \<Rightarrow> nat \<Rightarrow> local_hub \<Rightarrow> cast_row list" where
  "hg_grid_local_casts_since since limit cap h =
     (let out = casts_scan since cap (take (gl_cast_n h) (gl_casts h)) []
      in if sint limit \<le> 0 \<or> length out \<le> nat (sint limit) then out else take (nat (sint limit)) out)"

section \<open>Registration, prune, statistics\<close>

text \<open>The loop over the live traces: the first one of this world gets the url as its node.\<close>

fun register_loop :: "string \<Rightarrow> string \<Rightarrow> nat \<Rightarrow> nat \<Rightarrow> federation_trace list \<Rightarrow> federation_trace list option" where
  "register_loop name url i 0 rows = None"
| "register_loop name url i (Suc k) rows =
     (if ft_world (rows ! i) = name then Some (rows[i := (rows ! i)\<lparr>ft_node := url\<rparr>])
      else register_loop name url (Suc i) k rows)"

definition hg_grid_local_register_self :: "i64 \<Rightarrow> local_hub \<Rightarrow> local_hub" where
  "hg_grid_local_register_self now h =
     (case register_loop (gl_world_name h) (cut 64 (Some (gl_world_url h))) 0 (gl_trace_n h) (gl_traces h) of
        Some rows \<Rightarrow> h\<lparr>gl_traces := rows\<rparr>
      | None \<Rightarrow> hg_grid_local_record now (Some (gl_world_name h)) (Some (gl_world_url h)) (Some ''register'')
          (Some ''a new node joined the network.'') now h)"

text \<open>Compaction with a read and a write index over the array.\<close>

fun prune_loop :: "nat \<Rightarrow> nat \<Rightarrow> nat \<Rightarrow> federation_trace list \<Rightarrow> federation_trace list \<times> nat" where
  "prune_loop 0 r w rows = (rows, w)"
| "prune_loop (Suc k) r w rows =
     (if hg_prune_kind_ambient (Some (ft_kind (rows ! r))) then prune_loop k (Suc r) w rows
      else prune_loop k (Suc r) (Suc w) (if w = r then rows else rows[w := rows ! r]))"

definition hg_grid_local_prune :: "local_hub \<Rightarrow> nat \<times> local_hub" where
  "hg_grid_local_prune h =
     (let (rows, w) = prune_loop (gl_trace_n h) 0 0 (gl_traces h)
      in (gl_trace_n h - w, h\<lparr>gl_traces := rows, gl_trace_n := w\<rparr>))"

text \<open>The rows of the statistics under construction: a known kind is counted up, a new one takes the next
  row while there is one.\<close>

fun count_up :: "string \<Rightarrow> ledger_row list \<Rightarrow> ledger_row list option" where
  "count_up k [] = None"
| "count_up k (r # rs) =
     (if lr_kind r = k then Some (r\<lparr>lr_count := lr_count r + 1\<rparr> # rs) else map_option ((#) r) (count_up k rs))"

definition stats_step :: "nat \<Rightarrow> federation_trace \<Rightarrow> ledger_row list \<Rightarrow> ledger_row list" where
  "stats_step cap t rows = (case count_up (ft_kind t) rows of
     Some rows' \<Rightarrow> rows'
   | None \<Rightarrow> if cap \<le> length rows then rows
       else rows @ [\<lparr>lr_kind = copy_cap 32 (ft_kind t), lr_count = 1\<rparr>])"

definition hg_grid_local_ledger_stats :: "nat \<Rightarrow> local_hub \<Rightarrow> ledger_row list" where
  "hg_grid_local_ledger_stats cap h = fold (stats_step cap) (traces h) []"

section \<open>Reading\<close>

definition recent_count :: "nat \<Rightarrow> i32 \<Rightarrow> nat \<Rightarrow> nat" where
  "recent_count n limit cap =
     (let k = (if n \<le> cap then n else cap)
      in if sint limit \<le> 0 \<or> k \<le> nat (sint limit) then k else nat (sint limit))"

text \<open>Rows for C callers are narrower: names of 33 bytes.\<close>

definition hg_grid_local_recent_rescued :: "i32 \<Rightarrow> nat \<Rightarrow> local_hub \<Rightarrow> rescued_row list" where
  "hg_grid_local_recent_rescued limit cap h =
     map (\<lambda>r. \<lparr>rs_world = copy_cap 48 (rs_world r), rs_name = copy_cap 33 (rs_name r),
                rs_by = copy_cap 33 (rs_by r), rs_at = rs_at r\<rparr>)
       (take (recent_count (gl_rescued_n h) limit cap) (gl_rescued h))"

definition hg_grid_local_recent_fallen :: "i32 \<Rightarrow> nat \<Rightarrow> local_hub \<Rightarrow> fallen_row list" where
  "hg_grid_local_recent_fallen limit cap h =
     map (\<lambda>r. \<lparr>fl_world = copy_cap 48 (fl_world r), fl_name = copy_cap 33 (fl_name r),
                fl_room = copy_cap 32 (fl_room r), fl_at = fl_at r\<rparr>)
       (take (recent_count (gl_fallen_n h) limit cap) (gl_fallen h))"

text \<open>The index is compared unsigned, so a negative one is out of range.\<close>

definition hg_grid_local_trace_ptrs :: "i32 \<Rightarrow> local_hub \<Rightarrow> federation_trace option" where
  "hg_grid_local_trace_ptrs i h = (if unat i < gl_trace_n h then Some (gl_traces h ! unat i) else None)"

definition hg_grid_local_echo_ptrs :: "i32 \<Rightarrow> local_hub \<Rightarrow> echo_row option" where
  "hg_grid_local_echo_ptrs i h = (if unat i < gl_echo_n h then Some (gl_echo h ! unat i) else None)"

text \<open>The three worlds a lone node knows of, as ids, urls and times.\<close>

definition hg_grid_local_list_worlds :: "(nat \<Rightarrow> i64) \<Rightarrow> nat \<Rightarrow> local_hub \<Rightarrow> (string \<times> string \<times> i64) list" where
  "hg_grid_local_list_worlds clock cap h =
     take cap [(''Saltreach'', ''wss://saltreach.example/ws'', 0),
               (''Dustfall'', ''wss://dustfall.skyphusion.org/ws'', clock 0),
               (copy_cap 48 (gl_world_name h), copy_cap 160 (gl_world_url h), clock 1)]"

section \<open>What the operations promise\<close>

lemma prune_loop_spec:
  assumes "w \<le> r" and "r + k \<le> length rows"
  shows "length (fst (prune_loop k r w rows)) = length rows \<and> snd (prune_loop k r w rows) \<le> w + k \<and>
    take (snd (prune_loop k r w rows)) (fst (prune_loop k r w rows)) =
      take w rows @ filter (\<lambda>t. \<not> hg_prune_kind_ambient (Some (ft_kind t))) (take k (drop r rows))"
  using assms
proof (induction k r w rows rule: prune_loop.induct)
  case (2 k r w rows)
  have r: "r < length rows" using "2.prems" by simp
  have split: "take (Suc k) (drop r rows) = rows ! r # take k (drop (Suc r) rows)"
    using r by (simp add: Cons_nth_drop_Suc [symmetric])
  show ?case
  proof (cases "hg_prune_kind_ambient (Some (ft_kind (rows ! r)))")
    case True
    with 2 split show ?thesis by simp
  next
    case False
    let ?rows = "if w = r then rows else rows[w := rows ! r]"
    have "take (Suc w) ?rows = take w rows @ [rows ! r]"
      using r "2.prems" by (auto simp: take_Suc_conv_app_nth)
    moreover have "take k (drop (Suc r) ?rows) = take k (drop (Suc r) rows)"
      using "2.prems" by simp
    ultimately show ?thesis
      using "2.IH"(2) [OF False] False "2.prems" split by simp
  qed
qed simp

text \<open>A prune keeps exactly the traces that are not ambient (ghost, passage, recall), in their order, touches
  no other log, and reports how many it removed; pruning again removes nothing.\<close>

lemma prune_exact:
  assumes "hub_ok h"
  shows "let (removed, h') = hg_grid_local_prune h
    in traces h' = filter (\<lambda>t. \<not> hg_prune_kind_ambient (Some (ft_kind t))) (traces h) \<and>
       removed = length (traces h) - length (traces h') \<and> hub_ok h' \<and>
       echoes h' = echoes h \<and> fallens h' = fallens h \<and> rescues h' = rescues h \<and>
       fst (hg_grid_local_prune h') = 0"
proof -
  have gen: "traces (snd (hg_grid_local_prune h)) =
       filter (\<lambda>t. \<not> hg_prune_kind_ambient (Some (ft_kind t))) (traces h) \<and>
      fst (hg_grid_local_prune h) = length (traces h) - length (traces (snd (hg_grid_local_prune h))) \<and>
      hub_ok (snd (hg_grid_local_prune h))" if "hub_ok h" for h
  proof -
    let ?p = "prune_loop (gl_trace_n h) 0 0 (gl_traces h)"
    from that have len: "length (gl_traces h) = GL_MAX_TRACES" and n: "gl_trace_n h \<le> GL_MAX_TRACES"
      by (simp_all add: hub_ok_def log_ok_def)
    from prune_loop_spec [of 0 0 "gl_trace_n h" "gl_traces h"] len n
    have p: "length (fst ?p) = GL_MAX_TRACES" "snd ?p \<le> gl_trace_n h"
      "take (snd ?p) (fst ?p) = filter (\<lambda>t. \<not> hg_prune_kind_ambient (Some (ft_kind t))) (traces h)"
      by (simp_all add: traces_def live_def)
    have "length (take (snd ?p) (fst ?p)) = snd ?p" using p(1,2) n by simp
    with p n len that show ?thesis
      by (auto simp: hg_grid_local_prune_def traces_def live_def hub_ok_def log_ok_def split: prod.split)
  qed
  obtain removed h' where p: "hg_grid_local_prune h = (removed, h')" by (cases "hg_grid_local_prune h")
  have frame: "echoes h' = echoes h" "fallens h' = fallens h" "rescues h' = rescues h"
    using p by (auto simp: hg_grid_local_prune_def echoes_def fallens_def rescues_def split: prod.splits)
  have "fst (hg_grid_local_prune h') = 0"
    using gen [OF assms] gen [of h'] p by simp
  with gen [OF assms] frame p show ?thesis by simp
qed

text \<open>Statistics: each row's count is the number of traces of its kind seen so far.\<close>

definition stats_ok :: "string list \<Rightarrow> ledger_row list \<Rightarrow> bool" where
  "stats_ok ks rows \<longleftrightarrow> distinct (map lr_kind rows) \<and> lr_kind ` set rows = set ks \<and>
     (\<forall>r \<in> set rows. lr_count r = word_of_nat (count_list ks (lr_kind r)))"

lemma count_up_None: "count_up k rows = None \<longleftrightarrow> k \<notin> lr_kind ` set rows"
  by (induction rows) auto

lemma count_up_Some:
  "count_up k rows = Some rows' \<Longrightarrow> \<exists>xs r ys. rows = xs @ r # ys \<and> lr_kind r = k \<and> k \<notin> lr_kind ` set xs \<and>
     rows' = xs @ r\<lparr>lr_count := lr_count r + 1\<rparr> # ys"
proof (induction rows arbitrary: rows')
  case (Cons r rows)
  show ?case
  proof (cases "lr_kind r = k")
    case True
    with Cons.prems show ?thesis by (intro exI [of _ "[]"]) auto
  next
    case False
    with Cons.prems obtain rs where "count_up k rows = Some rs" and rows': "rows' = r # rs" by auto
    from Cons.IH [OF this(1)] obtain xs q ys where
      "rows = xs @ q # ys" "lr_kind q = k" "k \<notin> lr_kind ` set xs" "rs = xs @ q\<lparr>lr_count := lr_count q + 1\<rparr> # ys"
      by blast
    with False rows' show ?thesis by (intro exI [of _ "r # xs"] exI [of _ q] exI [of _ ys]) auto
  qed
qed simp

lemma stats_step_ok:
  assumes ok: "stats_ok ks rows" and cap: "card (set (ks @ [ft_kind t])) \<le> cap" and short: "length (ft_kind t) < 32"
  shows "stats_ok (ks @ [ft_kind t]) (stats_step cap t rows)"
proof (cases "count_up (ft_kind t) rows")
  case None
  then have new: "ft_kind t \<notin> set ks" using ok by (simp add: count_up_None stats_ok_def)
  have "length rows = card (set ks)"
    using ok by (metis stats_ok_def distinct_card length_map list.set_map)
  then have "length rows < cap" using cap new by simp
  with None ok new short show ?thesis
    by (auto simp: stats_step_def stats_ok_def copy_cap_id)
next
  case (Some rows')
  from count_up_Some [OF Some] obtain xs r ys where
    r: "rows = xs @ r # ys" "lr_kind r = ft_kind t" "rows' = xs @ r\<lparr>lr_count := lr_count r + 1\<rparr> # ys" by blast
  have mem: "ft_kind t \<in> set ks" using ok r by (auto simp: stats_ok_def)
  have other: "lr_kind q \<noteq> ft_kind t" if "q \<in> set (xs @ ys)" for q
    using ok r that by (auto simp: stats_ok_def) (metis imageI)+
  have "lr_count q = word_of_nat (count_list (ks @ [ft_kind t]) (lr_kind q))" if "q \<in> set rows'" for q
    using that ok r other by (auto simp: stats_ok_def)
  moreover have "distinct (map lr_kind rows')" "lr_kind ` set rows' = set (ks @ [ft_kind t])"
    using ok r mem by (auto simp: stats_ok_def)
  ultimately show ?thesis by (simp add: stats_step_def Some stats_ok_def)
qed

lemma stats_fold_ok:
  assumes "\<forall>t \<in> set ts. length (ft_kind t) < 32"
  shows "stats_ok ks rows \<Longrightarrow> card (set (ks @ map ft_kind ts)) \<le> cap \<Longrightarrow>
    stats_ok (ks @ map ft_kind ts) (fold (stats_step cap) ts rows)"
  using assms
proof (induction ts arbitrary: ks rows)
  case (Cons t ts)
  have "card (set (ks @ [ft_kind t])) \<le> card (set (ks @ map ft_kind (t # ts)))"
    by (rule card_mono) auto
  with Cons.prems have "stats_ok (ks @ [ft_kind t]) (stats_step cap t rows)"
    by (intro stats_step_ok) simp_all
  with Cons.IH [of "ks @ [ft_kind t]"] Cons.prems show ?case by simp
qed simp

text \<open>The ledger statistics are exact: when the caller's array has room for every kind, there is one row
  per kind, its count is the number of traces of the kind, and the counts add up to the whole ledger.\<close>

lemma ledger_stats_exact:
  assumes ok: "hub_ok h" and short: "\<forall>t \<in> set (traces h). length (ft_kind t) < 32"
    and cap: "card (ft_kind ` set (traces h)) \<le> cap"
  shows "let rows = hg_grid_local_ledger_stats cap h; ks = map ft_kind (traces h)
    in distinct (map lr_kind rows) \<and> lr_kind ` set rows = set ks \<and>
       (\<forall>r \<in> set rows. unat (lr_count r) = count_list ks (lr_kind r)) \<and>
       (\<Sum>r\<leftarrow>rows. unat (lr_count r)) = length (traces h)"
proof -
  let ?ks = "map ft_kind (traces h)" and ?rows = "hg_grid_local_ledger_stats cap h"
  have "stats_ok [] []" by (simp add: stats_ok_def)
  from stats_fold_ok [OF short this, of cap] cap have s: "stats_ok ?ks ?rows"
    by (simp add: hg_grid_local_ledger_stats_def)
  have "length (traces h) \<le> 200" using tl.rows_cap [OF ok] by (simp add: GL_MAX_TRACES_def)
  then have "count_list ?ks k < 2 ^ 32" for k
    using count_le_length [of ?ks k] by simp
  with s have cnt: "\<forall>r \<in> set ?rows. unat (lr_count r) = count_list ?ks (lr_kind r)"
    by (auto simp: stats_ok_def unat_of_nat)
  then have "map (\<lambda>r. unat (lr_count r)) ?rows = map (count_list ?ks) (map lr_kind ?rows)" by simp
  also have "sum_list \<dots> = sum (count_list ?ks) (set (map lr_kind ?rows))"
    using s by (intro sum_list_distinct_conv_sum_set) (simp add: stats_ok_def)
  also have "set (map lr_kind ?rows) = set ?ks" using s by (simp add: stats_ok_def)
  also have "sum (count_list ?ks) (set ?ks) = length (traces h)"
    using sum_count_set [of ?ks "set ?ks"] by simp
  finally show ?thesis using s cnt by (simp add: stats_ok_def Let_def)
qed

lemma traces_clear [simp]: "traces hg_grid_local_clear = []"
  by (simp add: traces_def hg_grid_local_clear_def live_def)

section \<open>Histories\<close>

text \<open>What one recording asks for, and the row it leaves.\<close>

type_synonym record_req = "string option \<times> string option \<times> string option \<times> string option \<times> i64"

definition row_of :: "i64 \<Rightarrow> record_req \<Rightarrow> federation_trace" where
  "row_of now = (\<lambda>(world, node, kind, msg, at). \<lparr>ft_world = cut 48 world, ft_node = cut 64 node,
     ft_kind = cut 24 kind, ft_text = cut 200 msg, ft_at = stamp now at\<rparr>)"

text \<open>C11. The ledger is the recent history: after any sequence of recordings it holds the newest 200 traces,
  newest first, each cut to the width of its cells, whatever was recorded before; the other logs, the tide and
  the casts are untouched.\<close>

theorem ledger_is_history:
  assumes "hub_ok h"
  shows "let h' = fold (\<lambda>(w, n, k, m, a). hg_grid_local_record now w n k m a) rs h
    in traces h' = take 200 (rev (map (row_of now) rs) @ traces h) \<and> hub_ok h' \<and>
       echoes h' = echoes h \<and> fallens h' = fallens h \<and> rescues h' = rescues h \<and> gl_tide h' = gl_tide h"
proof -
  have f: "fold (\<lambda>(w, n, k, m, a). hg_grid_local_record now w n k m a) rs h = fold put_trace (map (row_of now) rs) h" for h
    by (induction rs arbitrary: h) (auto simp: hg_grid_local_record_def row_of_def)
  have frame: "echoes (fold put_trace ts h) = echoes h \<and> fallens (fold put_trace ts h) = fallens h \<and>
      rescues (fold put_trace ts h) = rescues h \<and> gl_tide (fold put_trace ts h) = gl_tide h" for ts h
    by (induction ts arbitrary: h) simp_all
  show ?thesis
    using tl.pushes_rows [OF assms, of "map (row_of now) rs"] tl.pushes_inv [OF assms] frame
    by (simp add: f Let_def GL_MAX_TRACES_def)
qed

theorem ledger_is_history_witness:
  "hub_ok hg_grid_local_clear \<and>
   traces (hg_grid_local_record 9 (Some ''w'') None (Some ''mark'') None 0 hg_grid_local_clear) =
     [\<lparr>ft_world = ''w'', ft_node = [], ft_kind = ''mark'', ft_text = [], ft_at = 9\<rparr>]"
  using ledger_is_history [OF hub_ok_clear, of 9 "[(Some ''w'', None, Some ''mark'', None, 0)]"]
  by (simp add: Let_def row_of_def cut_def or_default_def copy_cap_def stamp_def)

lemma record_rescued_effect:
  assumes "hub_ok h"
  shows "hub_ok (hg_grid_local_record_rescued now world name saved_by at h)"
    and "rescues (hg_grid_local_record_rescued now world name saved_by at h) =
      take GL_MAX_RESCUED (\<lparr>rs_world = cut 48 world, rs_name = cut 40 name, rs_by = cut 40 saved_by,
        rs_at = stamp now at\<rparr> # rescues h)"
    and "length (traces (hg_grid_local_record_rescued now world name saved_by at h)) =
      min GL_MAX_TRACES (Suc (length (traces h)))"
  using assms
  by (simp_all add: hg_grid_local_record_rescued_def hg_grid_local_record_def Let_def rl.push_inv tl.push_inv
      rl.push_rows tl.push_rows)

text \<open>The ring of casts: slot \<open>j mod 200\<close> holds cast number \<open>j + 1\<close> as long as it is one of
  the last 200.\<close>

definition cast_of :: "string \<Rightarrow> nat \<Rightarrow> string option \<times> string option \<Rightarrow> cast_row" where
  "cast_of world j = (\<lambda>(sender, msg). \<lparr>ct_id = word_of_nat (Suc j), ct_world = cut 48 (Some world),
     ct_sender = cut 33 sender, ct_text = cut 240 msg\<rparr>)"

definition ring_ok :: "(string option \<times> string option) list \<Rightarrow> local_hub \<Rightarrow> bool" where
  "ring_ok cs h \<longleftrightarrow> length (gl_casts h) = 200 \<and> gl_cast_n h = min (length cs) 200 \<and>
     gl_next_cast h = word_of_nat (length cs) \<and> length cs < 2 ^ 31 \<and>
     (\<forall>j < length cs. length cs \<le> j + 200 \<longrightarrow>
        gl_casts h ! (j mod 200) = cast_of (gl_world_name h) j (cs ! j))"

lemma mod_window:
  fixes j k m :: nat
  assumes "j < k" and "k < j + m"
  shows "j mod m \<noteq> k mod m"
proof
  assume eq: "j mod m = k mod m"
  have "m dvd k - j" using eq assms(1) by (metis mod_eq_dvd_iff_nat less_imp_le)
  with assms show False by (auto dest: dvd_imp_le)
qed

lemma gridcast_ring:
  assumes ring: "ring_ok cs h" and k: "Suc (length cs) < 2 ^ 31"
  shows "ring_ok (cs @ [(sender, msg)]) (hg_grid_local_gridcast sender msg h)"
proof -
  let ?k = "length cs"
  have next': "gl_next_cast h + 1 = word_of_nat (Suc ?k)" using ring by (simp add: ring_ok_def)
  have "unat (gl_next_cast h + 1 - 1 :: i32) = ?k"
    using ring k by (simp add: ring_ok_def unat_of_nat)
  then have slot: "unat (gl_next_cast h + 1 - 1 :: i32) mod GL_MAX_CASTS = ?k mod 200"
    by (simp add: GL_MAX_CASTS_def)
  have casts: "gl_casts (hg_grid_local_gridcast sender msg h) =
      (gl_casts h)[?k mod 200 := cast_of (gl_world_name h) ?k (sender, msg)]"
    using slot next' by (simp add: hg_grid_local_gridcast_def Let_def cast_of_def add.commute)
  have "gl_casts (hg_grid_local_gridcast sender msg h) ! (j mod 200) =
      cast_of (gl_world_name h) j ((cs @ [(sender, msg)]) ! j)"
    if "j < Suc ?k" "Suc ?k \<le> j + 200" for j
  proof (cases "j = ?k")
    case True
    then show ?thesis using ring by (simp add: casts ring_ok_def)
  next
    case False
    with that have "j < ?k" "?k < j + 200" by simp_all
    with mod_window [OF this] ring show ?thesis by (simp add: casts ring_ok_def nth_append)
  qed
  note new = this
  have "length (gl_casts (hg_grid_local_gridcast sender msg h)) = 200"
    and "gl_cast_n (hg_grid_local_gridcast sender msg h) = min (Suc ?k) 200"
    and "gl_next_cast (hg_grid_local_gridcast sender msg h) = word_of_nat (Suc ?k)"
    and "gl_world_name (hg_grid_local_gridcast sender msg h) = gl_world_name h"
    using ring next' by (auto simp: ring_ok_def hg_grid_local_gridcast_def Let_def GL_MAX_CASTS_def)
  with k show ?thesis unfolding ring_ok_def length_append_singleton using new by simp
qed

lemma cast_copy_cast_of: "cast_copy (cast_of w j x) = cast_of w j x"
  by (cases x) (simp add: cast_copy_def cast_of_def cut_def)

lemma casts_scan_all:
  "length out + length cs \<le> cap \<Longrightarrow>
     casts_scan since cap cs out = out @ map cast_copy (filter (\<lambda>c. \<not> ct_id c \<le>s since) cs)"
  by (induction since cap cs out rule: casts_scan.induct) auto

lemma sint_of_nat_i32: "n < 2 ^ 31 \<Longrightarrow> sint (word_of_nat n :: i32) = int n"
  by (simp add: sint_uint unsigned_of_nat signed_take_bit_int_eq_self take_bit_nat_eq_self)

text \<open>Every slot in use is the slot of one of the last 200 casts.\<close>

lemma slot_of_recent:
  fixes i k m :: nat
  assumes "i < min k m"
  obtains j where "j < k" "k \<le> j + m" "j mod m = i"
proof
  let ?j = "i + m * ((k - 1 - i) div m)"
  have m: "0 < m" and i: "i < m" "i < k" using assms by simp_all
  have "m * ((k - 1 - i) div m) \<le> k - 1 - i" by simp
  with i show "?j < k" by linarith
  have "k - 1 - i < m + m * ((k - 1 - i) div m)" using m by (rule dividend_less_times_div)
  with i show "k \<le> ?j + m" by linarith
  show "?j mod m = i" using i by simp
qed

text \<open>A poll of the casts misses nothing the hub still holds: with room for 200 rows and no limit, the casts
  since a given number are exactly those among the last 200 whose number is greater, each once.\<close>

lemma casts_since_complete:
  assumes ring: "ring_ok cs h" and cap: "200 \<le> cap" and limit: "sint limit \<le> 0"
  shows "set (hg_grid_local_casts_since since limit cap h) =
      {cast_of (gl_world_name h) j (cs ! j) | j. j < length cs \<and> length cs \<le> j + 200 \<and> sint since < int (Suc j)}"
proof -
  let ?k = "length cs" and ?used = "take (gl_cast_n h) (gl_casts h)"
  have n: "length ?used = min ?k 200" using ring by (simp add: ring_ok_def)
  have id: "ct_id (cast_of w j c) \<le>s since \<longleftrightarrow> int (Suc j) \<le> sint since" if "j < ?k" for w j c
  proof -
    have "Suc j < 2 ^ 31" using that ring by (simp add: ring_ok_def)
    then have "sint (word_of_nat (Suc j) :: i32) = int (Suc j)" by (rule sint_of_nat_i32)
    then show ?thesis by (cases c) (simp add: cast_of_def word_sle_eq)
  qed
  have used: "set ?used = {cast_of (gl_world_name h) j (cs ! j) | j. j < ?k \<and> ?k \<le> j + 200}" (is "_ = ?R")
  proof
    show "set ?used \<subseteq> ?R"
    proof
      fix c assume "c \<in> set ?used"
      then obtain i where u: "i < length ?used" and "c = ?used ! i" by (metis in_set_conv_nth)
      then have c: "c = gl_casts h ! i" by simp
      from u have i: "i < min ?k 200" unfolding n .
      from slot_of_recent [OF i] obtain j where "j < ?k" "?k \<le> j + 200" "j mod 200 = i" .
      with ring c show "c \<in> ?R" by (auto simp: ring_ok_def)
    qed
    show "?R \<subseteq> set ?used"
    proof
      fix c assume "c \<in> ?R"
      then obtain j where j: "j < ?k" "?k \<le> j + 200" and c: "c = cast_of (gl_world_name h) j (cs ! j)" by blast
      have i: "j mod 200 < length ?used" using j n by (simp add: mod_less_eq_dividend le_less_trans)
      then have "?used ! (j mod 200) = c" using j c ring by (auto simp: ring_ok_def)
      with i show "c \<in> set ?used" by (metis nth_mem)
    qed
  qed
  have "hg_grid_local_casts_since since limit cap h = map cast_copy (filter (\<lambda>c. \<not> ct_id c \<le>s since) ?used)"
    using casts_scan_all [of "[]" ?used cap since] n cap limit
    by (simp add: hg_grid_local_casts_since_def Let_def)
  moreover have "cast_copy c = c" if "c \<in> set ?used" for c
    using that unfolding used by (auto simp: cast_copy_cast_of)
  ultimately have "set (hg_grid_local_casts_since since limit cap h) = {c \<in> set ?used. \<not> ct_id c \<le>s since}"
    by force
  also have "\<dots> = {cast_of (gl_world_name h) j (cs ! j) | j.
      (j < ?k \<and> ?k \<le> j + 200) \<and> \<not> ct_id (cast_of (gl_world_name h) j (cs ! j)) \<le>s since}"
    unfolding used by blast
  also have "\<dots> = {cast_of (gl_world_name h) j (cs ! j) | j. j < ?k \<and> ?k \<le> j + 200 \<and> sint since < int (Suc j)}"
    using id [of _ "gl_world_name h" "cs ! _"] by (intro Collect_cong ex_cong1) (auto simp: not_le)
  finally show ?thesis .
qed

end
