(* ===== verification/GridHub.thy ===== *)
theory GridHub
  imports LocalHub
begin

text \<open>
  \<^verbatim>\<open>ffi/grid_hub.c\<close>: the federation client.  A node runs either on its own local hub or, when a
  hub url was configured and libcurl came up, as a client of a remote hub over JSON-RPC.  libcurl and
  cJSON are parameters (record \<open>env\<close>): parsing and printing, the accessors the code calls, and one
  transfer, which answers with a verdict and the chunks it delivered to the write callback.  The state of the
  network is threaded through the calls as \<open>g_net\<close>.
\<close>

section \<open>Parameters and state\<close>

text \<open>What the code builds with the \<^verbatim>\<open>cJSON_Create*\<close> functions.\<close>

datatype param = PStr string | PNum i64 | PBool bool | PArr "param list" | PObj "(string \<times> param) list"

record request =
  rq_url :: string
  rq_headers :: "string list"
  rq_body :: string

text \<open>\<open>e_get\<close> is \<^verbatim>\<open>cJSON_GetObjectItemCaseSensitive\<close>, \<open>e_str\<close> the text of a
  string item, \<open>e_ll\<close> and \<open>e_int\<close> the number of a number item as the code casts it,
  \<open>e_items\<close> the elements of an array, each None when the item is not of the type.\<close>

record ('j, 'w) env =
  e_parse :: "string \<Rightarrow> 'j option"
  e_print :: "param \<Rightarrow> string option"
  e_get :: "'j \<Rightarrow> string \<Rightarrow> 'j option"
  e_true :: "'j \<Rightarrow> bool"
  e_str :: "'j \<Rightarrow> string option"
  e_ll :: "'j \<Rightarrow> i64 option"
  e_int :: "'j \<Rightarrow> i32 option"
  e_items :: "'j \<Rightarrow> 'j list option"
  e_object :: "'j \<Rightarrow> bool"
  e_perform :: "request \<Rightarrow> 'w \<Rightarrow> 'w \<times> bool \<times> string list"

record 'w grid =
  g_booted :: bool
  g_remote :: bool
  g_world_name :: string
  g_world_url :: string
  g_hub_url :: string
  g_token :: string
  g_curl :: bool
  g_global_owned :: bool
  g_last_tick :: i64
  g_local :: local_hub
  g_net :: 'w

definition safe_copy :: "nat \<Rightarrow> string option \<Rightarrow> string" where
  "safe_copy cap src = snd (snprintf cap (or_default src []))"

lemma length_safe_copy [len_bounds]: "0 < cap \<Longrightarrow> length (safe_copy cap s) < cap"
  by (simp add: safe_copy_def snprintf_text_less)

section \<open>The remote procedure call\<close>

text \<open>The write callback appends a chunk (a failed \<^verbatim>\<open>realloc\<close> makes the transfer fail, which is
  part of the verdict of \<open>e_perform\<close>).\<close>

definition curl_write_cb :: "string \<Rightarrow> string \<Rightarrow> string" where
  "curl_write_cb chunk buf = buf @ chunk"

definition rpc_headers :: "string \<Rightarrow> string list" where
  "rpc_headers token =
     [''Content-Type: application/json'', ''User-Agent: hollow-grid-asm/0.1.0''] @
     (if token \<noteq> [] then [snd (snprintf 320 (sprintf [L ''Authorization: Bearer '', S token]))] else [])"

text \<open>None is -1; \<open>Some r\<close> is 0 with the result \<open>r\<close>, itself None for a NULL result.\<close>

definition rpc_call ::
  "('j, 'w) env \<Rightarrow> string \<Rightarrow> param list option \<Rightarrow> 'w grid \<Rightarrow> 'j option option \<times> 'w grid" where
  "rpc_call env meth params g =
     (if \<not> g_remote g \<or> \<not> g_curl g then (None, g)
      else case e_print env (PObj [(''method'', PStr meth), (''params'', PArr (case params of None \<Rightarrow> [] | Some ps \<Rightarrow> ps))]) of
        None \<Rightarrow> (None, g)
      | Some body \<Rightarrow>
          let (net, ok, chunks) = e_perform env \<lparr>rq_url = g_hub_url g, rq_headers = rpc_headers (g_token g),
                 rq_body = body\<rparr> (g_net g);
              g = g\<lparr>g_net := net\<rparr>
          in if \<not> ok then (None, g)
             else case e_parse env (cstr (fold curl_write_cb chunks [])) of
               None \<Rightarrow> (None, g)
             | Some wrap \<Rightarrow>
                 if \<not> (case e_get env wrap ''ok'' of None \<Rightarrow> False | Some v \<Rightarrow> e_true env v) then (None, g)
                 else (Some (e_get env wrap ''result''), g))"

definition rpc_status :: "'j option option \<Rightarrow> int" where
  "rpc_status r = (case r of None \<Rightarrow> -1 | Some _ \<Rightarrow> 0)"

definition json_str :: "('j, 'w) env \<Rightarrow> 'j \<Rightarrow> string \<Rightarrow> string" where
  "json_str env obj key = or_default (Option.bind (e_get env obj key) (e_str env)) []"

definition json_num :: "('j, 'w) env \<Rightarrow> 'j \<Rightarrow> string \<Rightarrow> i64 \<Rightarrow> i64" where
  "json_num env obj key fallback =
     (case Option.bind (e_get env obj key) (e_ll env) of None \<Rightarrow> fallback | Some n \<Rightarrow> n)"

definition json_ll :: "('j, 'w) env \<Rightarrow> 'j \<Rightarrow> string \<Rightarrow> i64" where
  "json_ll env obj key = json_num env obj key 0"

section \<open>Boot, shutdown, health\<close>

fun strip_slashes :: "string \<Rightarrow> nat \<Rightarrow> string" where
  "strip_slashes url 0 = []"
| "strip_slashes url (Suc len) = (if url ! len = CHR ''/'' then strip_slashes url len else take (Suc len) url)"

text \<open>\<open>curl_up\<close> is the outcome of \<^verbatim>\<open>curl_global_init\<close>, \<open>handle\<close> whether
  \<^verbatim>\<open>curl_easy_init\<close> gave a handle.  The local hub is booted only in local mode; otherwise it stays
  as it is.\<close>

definition hg_grid_boot ::
  "(nat \<Rightarrow> i64) \<Rightarrow> bool \<Rightarrow> bool \<Rightarrow> string option \<Rightarrow> string option \<Rightarrow> string option \<Rightarrow> string option \<Rightarrow> 'w grid \<Rightarrow> 'w grid" where
  "hg_grid_boot clock curl_up handle world_name world_url hub_url token g =
     (let wn = safe_copy 64 world_name; wu = safe_copy 160 world_url;
          g0 = g\<lparr>g_booted := False, g_remote := False, g_world_name := wn, g_world_url := wu, g_hub_url := [],
                 g_token := [], g_curl := False, g_global_owned := False, g_last_tick := 0\<rparr>;
          local_mode = (\<lambda>g. g\<lparr>g_remote := False, g_local := hg_grid_local_boot clock (Some wn) (Some wu), g_booted := True\<rparr>)
      in case hub_url of
           None \<Rightarrow> local_mode g0
         | Some u \<Rightarrow>
             if u = [] then local_mode g0
             else
               let hu = safe_copy 256 (Some u);
                   g1 = g0\<lparr>g_hub_url := strip_slashes hu (length hu), g_token := safe_copy 256 token\<rparr>
               in if \<not> curl_up then local_mode g1
                  else if \<not> handle then local_mode g1
                  else g1\<lparr>g_global_owned := True, g_curl := True, g_remote := True, g_booted := True\<rparr>)"

definition hg_grid_shutdown :: "'w grid \<Rightarrow> 'w grid" where
  "hg_grid_shutdown g = g\<lparr>g_curl := False, g_global_owned := False, g_local := hg_grid_local_clear,
     g_remote := False, g_booted := False\<rparr>"

definition hg_grid_remote :: "'w grid \<Rightarrow> bool" where
  "hg_grid_remote g = g_remote g"

definition hg_grid_world_name :: "'w grid \<Rightarrow> string" where
  "hg_grid_world_name g = (if g_world_name g \<noteq> [] then g_world_name g else ''Basalt Relay'')"

text \<open>Reachability and latency; \<open>start\<close> and \<open>stop\<close> are the two readings of the clock.\<close>

definition hg_grid_health :: "('j, 'w) env \<Rightarrow> i64 \<Rightarrow> i64 \<Rightarrow> 'w grid \<Rightarrow> (bool \<times> i64) \<times> 'w grid" where
  "hg_grid_health env start stop g =
     (if \<not> g_remote g then ((True, 0), g)
      else let (r, g) = rpc_call env ''tide'' (Some []) g in ((r \<noteq> None, stop - start), g))"

section \<open>Recording\<close>

definition pstr :: "string option \<Rightarrow> param" where
  "pstr s = PStr (or_default s [])"

definition hg_grid_record ::
  "('j, 'w) env \<Rightarrow> i64 \<Rightarrow> string option \<Rightarrow> string option \<Rightarrow> string option \<Rightarrow> string option \<Rightarrow> i64 \<Rightarrow> 'w grid \<Rightarrow> int \<times> 'w grid" where
  "hg_grid_record env now world node kind msg at g =
     (let at = stamp now at
      in if \<not> g_remote g then (0, g\<lparr>g_local := hg_grid_local_record now world node kind msg at (g_local g)\<rparr>)
         else apfst rpc_status (rpc_call env ''record'' (Some [pstr world, pstr node, pstr kind, pstr msg, PNum at]) g))"

definition local_echo :: "i64 \<Rightarrow> string option \<Rightarrow> string option \<Rightarrow> string option \<Rightarrow> 'w grid \<Rightarrow> 'w grid" where
  "local_echo now node kind msg g = g\<lparr>g_local := hg_grid_record_local_echo now node kind msg (g_local g)\<rparr>"

definition hg_grid_inscribe ::
  "('j, 'w) env \<Rightarrow> i64 \<Rightarrow> string option \<Rightarrow> string option \<Rightarrow> string option \<Rightarrow> 'w grid \<Rightarrow> int \<times> 'w grid" where
  "hg_grid_inscribe env now node name msg g =
     (if node = None \<or> name = None \<or> or_default msg [] = [] then (-1, g)
      else let t = snd (snprintf 240 (sprintf [S (or_default name []), L '': \"'', S (or_default msg []), L ''\"'']));
               g = local_echo now node (Some ''mark'') (Some t) g;
               (_, g) = hg_grid_record env now (Some (g_world_name g)) node (Some ''mark'') (Some t) now g
           in (0, g))"

definition hg_grid_record_fallen ::
  "('j, 'w) env \<Rightarrow> i64 \<Rightarrow> string option \<Rightarrow> string option \<Rightarrow> string option \<Rightarrow> i64 \<Rightarrow> 'w grid \<Rightarrow> int \<times> 'w grid" where
  "hg_grid_record_fallen env now world name room at g =
     (let at = stamp now at
      in if \<not> g_remote g then (0, g\<lparr>g_local := hg_grid_local_record_fallen now world name room at (g_local g)\<rparr>)
         else apfst rpc_status (rpc_call env ''recordFallen'' (Some [pstr world, pstr name, pstr room, PNum at]) g))"

definition hg_grid_record_rescued ::
  "('j, 'w) env \<Rightarrow> i64 \<Rightarrow> string option \<Rightarrow> string option \<Rightarrow> string option \<Rightarrow> i64 \<Rightarrow> 'w grid \<Rightarrow> int \<times> 'w grid" where
  "hg_grid_record_rescued env now world name saved_by at g =
     (let at = stamp now at
      in if \<not> g_remote g then (0, g\<lparr>g_local := hg_grid_local_record_rescued now world name saved_by at (g_local g)\<rparr>)
         else apfst rpc_status (rpc_call env ''recordRescued'' (Some [pstr world, pstr name, pstr saved_by, PNum at]) g))"

definition hg_grid_on_kill ::
  "('j, 'w) env \<Rightarrow> i64 \<Rightarrow> string option \<Rightarrow> string option \<Rightarrow> string option \<Rightarrow> 'w grid \<Rightarrow> int \<times> 'w grid" where
  "hg_grid_on_kill env now room_id slayer mob_name g =
     (let t = snd (snprintf 256 (sprintf [S (or_default slayer ''someone''), L '' slew '', S (or_default mob_name ''a mob''), L '' here.'']));
          (_, g) = hg_grid_record env now (Some (g_world_name g)) room_id (Some ''slain'') (Some t) now g
      in (0, local_echo now room_id (Some ''slain'') (Some t) g))"

definition hg_grid_on_death ::
  "('j, 'w) env \<Rightarrow> i64 \<Rightarrow> string option \<Rightarrow> string option \<Rightarrow> 'w grid \<Rightarrow> int \<times> 'w grid" where
  "hg_grid_on_death env now room_id name g =
     (let (_, g) = hg_grid_record_fallen env now (Some (g_world_name g)) name room_id now g in (0, g))"

section \<open>Registration, presence and the periodic tick\<close>

definition hg_grid_register_self :: "('j, 'w) env \<Rightarrow> i64 \<Rightarrow> 'w grid \<Rightarrow> int \<times> 'w grid" where
  "hg_grid_register_self env now g =
     (if \<not> g_remote g then (0, g\<lparr>g_local := hg_grid_local_register_self now (g_local g)\<rparr>)
      else apfst rpc_status (rpc_call env ''register'' (Some [PStr (g_world_name g), PStr (g_world_url g)]) g))"

definition hg_grid_report_presence_player ::
  "('j, 'w) env \<Rightarrow> i64 \<Rightarrow> string option \<Rightarrow> string option \<Rightarrow> string option \<Rightarrow> i64 \<Rightarrow> 'w grid \<Rightarrow> int \<times> 'w grid" where
  "hg_grid_report_presence_player env now name regard title at g =
     (if \<not> g_remote g then (0, g)
      else apfst rpc_status (rpc_call env ''reportPresence'' (Some [PStr (g_world_name g),
        PArr [PObj [(''name'', pstr name), (''regard'', pstr regard), (''title'', pstr title)]], PNum (stamp now at)]) g))"

definition HG_FEDERATION_TICK_MS :: i64 where "HG_FEDERATION_TICK_MS = 10000"

definition hg_grid_federation_tick :: "('j, 'w) env \<Rightarrow> i64 \<Rightarrow> i64 \<Rightarrow> 'w grid \<Rightarrow> 'w grid" where
  "hg_grid_federation_tick env clock now g =
     (let now = (if now = 0 then clock else now)
      in if g_last_tick g \<noteq> 0 \<and> now - g_last_tick g <s HG_FEDERATION_TICK_MS then g
         else let g = g\<lparr>g_last_tick := now\<rparr>
              in if \<not> g_remote g then g else snd (hg_grid_register_self env clock g))"

section \<open>Fetching rows\<close>

text \<open>\<^verbatim>\<open>cJSON_ArrayForEach\<close> over a result: it stops when the caller's array is full and
  passes over the elements for which the row function gives None.\<close>

fun collect :: "nat \<Rightarrow> ('j \<Rightarrow> 'r option) \<Rightarrow> 'j list \<Rightarrow> 'r list \<Rightarrow> 'r list" where
  "collect cap f [] out = out"
| "collect cap f (x # xs) out =
     (if cap \<le> length out then out
      else case f x of None \<Rightarrow> collect cap f xs out | Some r \<Rightarrow> collect cap f xs (out @ [r]))"

text \<open>A call whose result must be an array: None is -1 with no rows.\<close>

definition fetch_rows ::
  "('j, 'w) env \<Rightarrow> string \<Rightarrow> param list \<Rightarrow> nat \<Rightarrow> ('j \<Rightarrow> 'r option) \<Rightarrow> 'w grid \<Rightarrow> 'r list option \<times> 'w grid" where
  "fetch_rows env meth params cap f g =
     (let (r, g) = rpc_call env meth (Some params) g
      in case r of
           None \<Rightarrow> (None, g)
         | Some res \<Rightarrow>
             (case Option.bind res (e_items env) of
                None \<Rightarrow> (None, g)
              | Some items \<Rightarrow> (Some (collect cap f items []), g)))"

definition rows_status :: "'r list option \<Rightarrow> int \<times> 'r list" where
  "rows_status r = (case r of None \<Rightarrow> (-1, []) | Some rs \<Rightarrow> (0, rs))"

definition rows_counted :: "'r list option \<Rightarrow> int \<times> 'r list" where
  "rows_counted r = (case r of None \<Rightarrow> (-1, []) | Some rs \<Rightarrow> (int (length rs), rs))"

definition HG_GRID_MAX_WORLDS :: nat where "HG_GRID_MAX_WORLDS = 8"

definition world_row :: "('j, 'w) env \<Rightarrow> 'j \<Rightarrow> grid_world_row" where
  "world_row env j = \<lparr>gw_id = safe_copy 48 (Some (json_str env j ''id'')),
     gw_url = safe_copy 160 (Some (json_str env j ''url'')), gw_last_seen = json_ll env j ''last_seen''\<rparr>"

definition hg_grid_list_worlds ::
  "('j, 'w) env \<Rightarrow> (nat \<Rightarrow> i64) \<Rightarrow> nat \<Rightarrow> 'w grid \<Rightarrow> (int \<times> grid_world_row list) \<times> 'w grid" where
  "hg_grid_list_worlds env clock cap g =
     (if cap = 0 then ((-1, []), g)
      else let icap = (if HG_GRID_MAX_WORLDS < cap then HG_GRID_MAX_WORLDS else cap)
        in if \<not> g_remote g then
             (let ws = map (\<lambda>(i, u, t). \<lparr>gw_id = safe_copy 48 (Some i), gw_url = safe_copy 160 (Some u), gw_last_seen = t\<rparr>)
                         (hg_grid_local_list_worlds clock (if icap < 8 then icap else 8) (g_local g))
              in ((int (length ws), ws), g))
           else apfst rows_counted (fetch_rows env ''listWorlds'' [] icap (Some \<circ> world_row env) g))"

record character_row =
  cr_level :: i64
  cr_xp :: i64
  cr_gold :: i64
  cr_faction :: string
  cr_morality :: i64
  cr_title :: string
  cr_race :: string
  cr_ashsworn :: bool
  cr_present :: bool

definition zero_character :: character_row where
  "zero_character = \<lparr>cr_level = 0, cr_xp = 0, cr_gold = 0, cr_faction = [], cr_morality = 0, cr_title = [],
     cr_race = [], cr_ashsworn = False, cr_present = False\<rparr>"

definition hg_grid_fetch_character ::
  "('j, 'w) env \<Rightarrow> string option \<Rightarrow> 'w grid \<Rightarrow> (int \<times> character_row) \<times> 'w grid" where
  "hg_grid_fetch_character env name g =
     (if \<not> g_remote g then ((0, zero_character), g)
      else let (r, g) = rpc_call env ''loadCharacter'' (Some [pstr name]) g
        in case Option.bind r (\<lambda>res. res) of
             None \<Rightarrow> ((-1, zero_character), g)
           | Some j \<Rightarrow>
               if \<not> e_object env j then ((-1, zero_character), g)
               else ((0, \<lparr>cr_level = json_num env j ''level'' 1, cr_xp = json_num env j ''xp'' 0,
                      cr_gold = json_num env j ''gold'' 20, cr_faction = safe_copy 16 (Some (json_str env j ''faction'')),
                      cr_morality = json_num env j ''morality'' 0, cr_title = safe_copy 48 (Some (json_str env j ''title'')),
                      cr_race = safe_copy 16 (Some (json_str env j ''race'')),
                      cr_ashsworn = (case e_get env j ''ashsworn'' of None \<Rightarrow> False | Some a \<Rightarrow> e_true env a),
                      cr_present = True\<rparr>), g))"

definition trace_row :: "('j, 'w) env \<Rightarrow> 'j \<Rightarrow> federation_trace" where
  "trace_row env j = \<lparr>ft_world = safe_copy 48 (Some (json_str env j ''world'')),
     ft_node = safe_copy 64 (Some (json_str env j ''node'')), ft_kind = safe_copy 24 (Some (json_str env j ''kind'')),
     ft_text = safe_copy 200 (Some (json_str env j ''text'')), ft_at = json_ll env j ''at''\<rparr>"

definition object_row :: "('j, 'w) env \<Rightarrow> ('j \<Rightarrow> 'r) \<Rightarrow> 'j \<Rightarrow> 'r option" where
  "object_row env f j = (if e_object env j then Some (f j) else None)"

definition pint :: "i32 \<Rightarrow> param" where
  "pint i = PNum (scast i)"

definition hg_grid_fetch_recent ::
  "('j, 'w) env \<Rightarrow> i32 \<Rightarrow> nat \<Rightarrow> 'w grid \<Rightarrow> (int \<times> federation_trace list) \<times> 'w grid" where
  "hg_grid_fetch_recent env limit cap g =
     (if cap = 0 \<or> \<not> g_remote g then ((0, []), g)
      else apfst rows_counted (fetch_rows env ''recent'' [pint limit] cap (object_row env (trace_row env)) g))"

definition hg_grid_fetch_recent_across ::
  "('j, 'w) env \<Rightarrow> i32 \<Rightarrow> nat \<Rightarrow> 'w grid \<Rightarrow> (int \<times> federation_trace list) \<times> 'w grid" where
  "hg_grid_fetch_recent_across env limit cap g =
     (if cap = 0 then ((-1, []), g)
      else if \<not> g_remote g then ((0, []), g)
      else apfst rows_counted (fetch_rows env ''recentAcross'' [PStr (g_world_name g), pint limit] cap
             (object_row env (trace_row env)) g))"

definition hg_grid_local_trace_at :: "i32 \<Rightarrow> 'w grid \<Rightarrow> federation_trace option" where
  "hg_grid_local_trace_at i g =
     (case hg_grid_local_trace_ptrs i (g_local g) of
        None \<Rightarrow> None
      | Some t \<Rightarrow> Some \<lparr>ft_world = safe_copy 48 (Some (ft_world t)), ft_node = safe_copy 64 (Some (ft_node t)),
          ft_kind = safe_copy 24 (Some (ft_kind t)), ft_text = safe_copy 200 (Some (ft_text t)), ft_at = ft_at t\<rparr>)"

section \<open>Tide, casts, presence\<close>

definition tide_result :: "('j, 'w) env \<Rightarrow> 'j option option \<Rightarrow> i32 option" where
  "tide_result env r = (case r of None \<Rightarrow> None
     | Some res \<Rightarrow> Some (case Option.bind res (e_int env) of None \<Rightarrow> 0 | Some t \<Rightarrow> t))"

definition hg_grid_tide :: "('j, 'w) env \<Rightarrow> 'w grid \<Rightarrow> i32 option \<times> 'w grid" where
  "hg_grid_tide env g =
     (if \<not> g_remote g then (Some (hg_grid_local_tide (g_local g)), g)
      else apfst (tide_result env) (rpc_call env ''tide'' (Some []) g))"

definition hg_grid_shift_tide :: "('j, 'w) env \<Rightarrow> i32 \<Rightarrow> 'w grid \<Rightarrow> i32 option \<times> 'w grid" where
  "hg_grid_shift_tide env delta g =
     (if \<not> g_remote g then
        (let (t, h) = hg_grid_local_shift_tide delta (g_local g) in (Some t, g\<lparr>g_local := h\<rparr>))
      else apfst (tide_result env) (rpc_call env ''shiftTide'' (Some [pint delta]) g))"

definition hg_grid_gridcast ::
  "('j, 'w) env \<Rightarrow> string option \<Rightarrow> string option \<Rightarrow> 'w grid \<Rightarrow> int \<times> 'w grid" where
  "hg_grid_gridcast env sender msg g =
     (if \<not> g_remote g then (0, g\<lparr>g_local := hg_grid_local_gridcast sender msg (g_local g)\<rparr>)
      else apfst rpc_status (rpc_call env ''gridcast'' (Some [PStr (g_world_name g), pstr sender, pstr msg]) g))"

definition remote_cast :: "('j, 'w) env \<Rightarrow> 'j \<Rightarrow> cast_row" where
  "remote_cast env j = \<lparr>ct_id = ucast (json_num env j ''id'' 0), ct_world = safe_copy 48 (Some (json_str env j ''world'')),
     ct_sender = safe_copy 33 (Some (json_str env j ''sender'')), ct_text = safe_copy 240 (Some (json_str env j ''text''))\<rparr>"

definition hg_grid_casts_since ::
  "('j, 'w) env \<Rightarrow> i32 \<Rightarrow> i32 \<Rightarrow> nat \<Rightarrow> 'w grid \<Rightarrow> (int \<times> cast_row list) \<times> 'w grid" where
  "hg_grid_casts_since env since limit cap g =
     (if \<not> g_remote g then ((0, hg_grid_local_casts_since since limit cap (g_local g)), g)
      else apfst rows_status (fetch_rows env ''castsSince'' [pint since, pint limit] cap (Some \<circ> remote_cast env) g))"

record presence_row =
  pr_world :: string
  pr_name :: string
  pr_regard :: string
  pr_title :: string
  pr_at :: i64

definition remote_presence :: "('j, 'w) env \<Rightarrow> 'j \<Rightarrow> presence_row" where
  "remote_presence env j = \<lparr>pr_world = safe_copy 48 (Some (json_str env j ''world'')),
     pr_name = safe_copy 33 (Some (json_str env j ''name'')), pr_regard = safe_copy 48 (Some (json_str env j ''regard'')),
     pr_title = safe_copy 48 (Some (json_str env j ''title'')), pr_at = json_ll env j ''at''\<rparr>"

definition hg_grid_presence ::
  "('j, 'w) env \<Rightarrow> i64 \<Rightarrow> nat \<Rightarrow> 'w grid \<Rightarrow> (int \<times> presence_row list) \<times> 'w grid" where
  "hg_grid_presence env max_age cap g =
     (if \<not> g_remote g then ((0, []), g)
      else apfst rows_status (fetch_rows env ''presence'' [PNum max_age] cap (Some \<circ> remote_presence env) g))"

section \<open>Characters, rolls and the ledger\<close>

definition hg_grid_commit_character ::
  "('j, 'w) env \<Rightarrow> string option \<Rightarrow> char_identity_fields \<Rightarrow> 'w grid \<Rightarrow> int \<times> 'w grid" where
  "hg_grid_commit_character env name ctx g =
     (if \<not> g_remote g then (0, g)
      else apfst rpc_status (rpc_call env ''commitCharacter'' (Some [pstr name, PObj
        [(''level'', PNum (cf_level ctx)), (''xp'', PNum (cf_xp ctx)), (''gold'', PNum (cf_gold ctx)),
         (''faction'', pstr (cf_faction ctx)), (''morality'', PNum (cf_morality ctx)), (''title'', pstr (cf_title ctx)),
         (''race'', pstr (cf_race ctx)), (''ashsworn'', PBool (cf_ashsworn ctx \<noteq> 0))]]) g))"

definition session_identity :: "session \<Rightarrow> char_identity_fields" where
  "session_identity s = \<lparr>cf_name = Some (s_name s), cf_level = s_level s, cf_xp = s_xp s, cf_gold = s_gold s,
     cf_faction = Some (s_faction s), cf_morality = s_morality s, cf_title = Some (s_title s),
     cf_race = Some (s_race s), cf_ashsworn = s_ashsworn s\<rparr>"

definition hg_grid_commit_session :: "('j, 'w) env \<Rightarrow> session option \<Rightarrow> 'w grid \<Rightarrow> int \<times> 'w grid" where
  "hg_grid_commit_session env sp g =
     (case sp of None \<Rightarrow> (0, g)
      | Some s \<Rightarrow> if \<not> g_remote g then (0, g)
          else hg_grid_commit_character env (cf_name (session_identity s)) (session_identity s) g)"

definition remote_rescued :: "('j, 'w) env \<Rightarrow> 'j \<Rightarrow> rescued_row" where
  "remote_rescued env j = \<lparr>rs_world = safe_copy 48 (Some (json_str env j ''world'')),
     rs_name = safe_copy 33 (Some (json_str env j ''name'')), rs_by = safe_copy 33 (Some (json_str env j ''savedBy'')),
     rs_at = json_ll env j ''at''\<rparr>"

definition hg_grid_recent_rescued ::
  "('j, 'w) env \<Rightarrow> i32 \<Rightarrow> nat \<Rightarrow> 'w grid \<Rightarrow> (int \<times> rescued_row list) \<times> 'w grid" where
  "hg_grid_recent_rescued env limit cap g =
     (if \<not> g_remote g then ((0, hg_grid_local_recent_rescued limit cap (g_local g)), g)
      else apfst rows_status (fetch_rows env ''recentRescued'' [pint limit] cap (Some \<circ> remote_rescued env) g))"

definition remote_fallen :: "('j, 'w) env \<Rightarrow> 'j \<Rightarrow> fallen_row" where
  "remote_fallen env j = \<lparr>fl_world = safe_copy 48 (Some (json_str env j ''world'')),
     fl_name = safe_copy 33 (Some (json_str env j ''name'')), fl_room = safe_copy 32 (Some (json_str env j ''room'')),
     fl_at = json_ll env j ''at''\<rparr>"

definition hg_grid_recent_fallen ::
  "('j, 'w) env \<Rightarrow> i32 \<Rightarrow> nat \<Rightarrow> 'w grid \<Rightarrow> (int \<times> fallen_row list) \<times> 'w grid" where
  "hg_grid_recent_fallen env limit cap g =
     (if \<not> g_remote g then ((0, hg_grid_local_recent_fallen limit cap (g_local g)), g)
      else apfst rows_status (fetch_rows env ''recentFallen'' [pint limit] cap (Some \<circ> remote_fallen env) g))"

definition remote_ledger :: "('j, 'w) env \<Rightarrow> 'j \<Rightarrow> ledger_row" where
  "remote_ledger env j = \<lparr>lr_kind = safe_copy 32 (Some (json_str env j ''kind'')),
     lr_count = ucast (json_num env j ''count'' 0)\<rparr>"

definition hg_grid_ledger_stats ::
  "('j, 'w) env \<Rightarrow> nat \<Rightarrow> 'w grid \<Rightarrow> (int \<times> ledger_row list) \<times> 'w grid" where
  "hg_grid_ledger_stats env cap g =
     (if \<not> g_remote g then ((0, hg_grid_local_ledger_stats cap (g_local g)), g)
      else apfst rows_status (fetch_rows env ''ledgerStats'' [] cap (Some \<circ> remote_ledger env) g))"

text \<open>The kinds to prune are asked of the policy one by one.  None is -1, otherwise the number removed.\<close>

definition ambient_kinds :: "string list" where
  "ambient_kinds = List.map_filter (\<lambda>i. hg_prune_ambient_at (int i)) [0..<nat hg_prune_ambient_count]"

definition hg_grid_prune_ledger :: "('j, 'w) env \<Rightarrow> 'w grid \<Rightarrow> i32 option \<times> 'w grid" where
  "hg_grid_prune_ledger env g =
     (if \<not> g_remote g then
        (let (n, h) = hg_grid_local_prune (g_local g) in (Some (word_of_nat n), g\<lparr>g_local := h\<rparr>))
      else let (r, g) = rpc_call env ''pruneLedgerKinds'' (Some [PArr (map PStr ambient_kinds)]) g
        in case r of
             None \<Rightarrow> (None, g)
           | Some res \<Rightarrow> (Some (case res of None \<Rightarrow> 0
               | Some j \<Rightarrow> if e_object env j then ucast (json_num env j ''removed'' 0) else 0), g))"

section \<open>The contract of the hub operations\<close>

text \<open>What every operation keeps: the configuration, the local hub while the node is remote, and the network
  while it is local.\<close>

definition config :: "'w grid \<Rightarrow> (bool \<times> bool \<times> bool \<times> bool) \<times> (string \<times> string \<times> string \<times> string) \<times> i64" where
  "config g = ((g_booted g, g_remote g, g_curl g, g_global_owned g),
     (g_world_name g, g_world_url g, g_hub_url g, g_token g), g_last_tick g)"

definition keeps :: "'w grid \<Rightarrow> 'w grid \<Rightarrow> bool" where
  "keeps g g' \<longleftrightarrow> config g' = config g \<and>
     (if g_remote g then g_local g' = g_local g else g_net g' = g_net g)"

locale hub_operation =
  fixes op :: "'w grid \<Rightarrow> 'r \<times> 'w grid"
  assumes op_keeps: "keeps g (snd (op g))"
begin

lemma config_kept: "config (snd (op g)) = config g"
  using op_keeps [of g] by (simp add: keeps_def)

lemma remote_kept: "g_remote (snd (op g)) = g_remote g"
  using config_kept [of g] by (simp add: config_def)

text \<open>Any number of calls: the mode never changes, and with it what the calls can touch.\<close>

primrec times :: "nat \<Rightarrow> 'w grid \<Rightarrow> 'w grid" where
  "times 0 g = g"
| "times (Suc n) g = times n (snd (op g))"

lemma times_keeps: "keeps g (times n g)"
proof (induction n arbitrary: g)
  case 0
  then show ?case by (simp add: keeps_def)
next
  case (Suc n)
  have "keeps (snd (op g)) (times n (snd (op g)))" by (rule Suc.IH)
  then show ?case using op_keeps [of g] remote_kept [of g] by (simp add: keeps_def split: if_splits)
qed

end

lemma keeps_refl [simp]: "keeps g g"
  by (simp add: keeps_def)

lemma keeps_trans: "keeps g g' \<Longrightarrow> keeps g' g'' \<Longrightarrow> keeps g g''"
  by (auto simp: keeps_def config_def split: if_splits)

lemma keeps_net: "g_remote g \<Longrightarrow> keeps g (g\<lparr>g_net := w\<rparr>)"
  by (simp add: keeps_def config_def)

lemma keeps_local: "\<not> g_remote g \<Longrightarrow> keeps g (g\<lparr>g_local := h\<rparr>)"
  by (simp add: keeps_def config_def)

lemma rpc_call_keeps: "keeps g (snd (rpc_call env meth params g))"
  by (auto simp: rpc_call_def Let_def keeps_net split: option.split prod.split)

lemma rpc_call_local: "\<not> g_remote g \<Longrightarrow> rpc_call env meth params g = (None, g)"
  by (simp add: rpc_call_def)

lemma fetch_rows_keeps: "keeps g (snd (fetch_rows env meth params cap f g))"
proof -
  have "snd (fetch_rows env meth params cap f g) = snd (rpc_call env meth (Some params) g)"
    by (auto simp: fetch_rows_def split: prod.split option.split)
  then show ?thesis by (simp add: rpc_call_keeps)
qed

interpretation rec_op: hub_operation "hg_grid_record env now w n k m at" for env now w n k m at
  by unfold_locales (simp add: hg_grid_record_def Let_def keeps_local rpc_call_keeps)

interpretation fallen_op: hub_operation "hg_grid_record_fallen env now w n r at" for env now w n r at
  by unfold_locales (simp add: hg_grid_record_fallen_def Let_def keeps_local rpc_call_keeps)

interpretation rescued_op: hub_operation "hg_grid_record_rescued env now w n b at" for env now w n b at
  by unfold_locales (simp add: hg_grid_record_rescued_def Let_def keeps_local rpc_call_keeps)

interpretation death_op: hub_operation "hg_grid_on_death env now r n" for env now r n
proof (unfold_locales, goal_cases)
  case (1 g)
  show ?case
    using fallen_op.op_keeps [of g env now "Some (g_world_name g)" n r now]
    by (simp add: hg_grid_on_death_def case_prod_beta)
qed

interpretation register_op: hub_operation "hg_grid_register_self env now" for env now
  by unfold_locales (simp add: hg_grid_register_self_def keeps_local rpc_call_keeps)

interpretation presence_op: hub_operation "hg_grid_report_presence_player env now n r t at" for env now n r t at
  by unfold_locales (simp add: hg_grid_report_presence_player_def rpc_call_keeps)

interpretation commit_op: hub_operation "hg_grid_commit_session env sp" for env sp
  by unfold_locales
     (auto simp: hg_grid_commit_session_def hg_grid_commit_character_def rpc_call_keeps split: option.split)

interpretation tide_op: hub_operation "hg_grid_tide env" for env
  by unfold_locales (simp add: hg_grid_tide_def rpc_call_keeps)

interpretation shift_op: hub_operation "hg_grid_shift_tide env d" for env d
  by unfold_locales (simp add: hg_grid_shift_tide_def rpc_call_keeps keeps_local split: prod.split)

interpretation cast_op: hub_operation "hg_grid_gridcast env sender m" for env sender m
  by unfold_locales (simp add: hg_grid_gridcast_def rpc_call_keeps keeps_local)

interpretation prune_op: hub_operation "hg_grid_prune_ledger env" for env
proof (unfold_locales, goal_cases)
  case (1 g)
  show ?case
    using rpc_call_keeps [of g env "''pruneLedgerKinds''" "Some [PArr (map PStr ambient_kinds)]"]
    by (auto simp: hg_grid_prune_ledger_def keeps_local split: prod.splits option.splits)
qed

interpretation stats_op: hub_operation "hg_grid_ledger_stats env cap" for env cap
  by unfold_locales (simp add: hg_grid_ledger_stats_def fetch_rows_keeps)

interpretation rescued_read: hub_operation "hg_grid_recent_rescued env limit cap" for env limit cap
  by unfold_locales (simp add: hg_grid_recent_rescued_def fetch_rows_keeps)

interpretation fallen_read: hub_operation "hg_grid_recent_fallen env limit cap" for env limit cap
  by unfold_locales (simp add: hg_grid_recent_fallen_def fetch_rows_keeps)

interpretation casts_read: hub_operation "hg_grid_casts_since env since limit cap" for env since limit cap
  by unfold_locales (simp add: hg_grid_casts_since_def fetch_rows_keeps)

interpretation presence_read: hub_operation "hg_grid_presence env age cap" for env age cap
  by unfold_locales (simp add: hg_grid_presence_def fetch_rows_keeps)

interpretation recent_read: hub_operation "hg_grid_fetch_recent env limit cap" for env limit cap
  by unfold_locales (simp add: hg_grid_fetch_recent_def fetch_rows_keeps)

interpretation across_read: hub_operation "hg_grid_fetch_recent_across env limit cap" for env limit cap
  by unfold_locales (simp add: hg_grid_fetch_recent_across_def fetch_rows_keeps)

interpretation worlds_read: hub_operation "hg_grid_list_worlds env clock cap" for env clock cap
  by unfold_locales (simp add: hg_grid_list_worlds_def fetch_rows_keeps Let_def)

interpretation health_read: hub_operation "hg_grid_health env a b" for env a b
proof (unfold_locales, goal_cases)
  case (1 g)
  show ?case using rpc_call_keeps [of g env "''tide''" "Some []"]
    by (auto simp: hg_grid_health_def split: prod.splits)
qed

section \<open>Properties\<close>

text \<open>The two hubs never mix: no operation of the federation client changes the mode, the configuration
  or the transport, a remote node leaves its local hub alone and a local node makes no transfer, whatever the
  remote hub answers.\<close>

lemma hub_operations_keep_mode:
  "keeps g (snd (hg_grid_record env now w n k m at g)) \<and>
   keeps g (snd (hg_grid_record_fallen env now w n r at g)) \<and>
   keeps g (snd (hg_grid_record_rescued env now w n b at g)) \<and>
   keeps g (snd (hg_grid_on_death env now r n g)) \<and>
   keeps g (snd (hg_grid_register_self env now g)) \<and>
   keeps g (snd (hg_grid_report_presence_player env now n r t at g)) \<and>
   keeps g (snd (hg_grid_commit_session env sp g)) \<and>
   keeps g (snd (hg_grid_tide env g)) \<and>
   keeps g (snd (hg_grid_shift_tide env d g)) \<and>
   keeps g (snd (hg_grid_gridcast env sender m g)) \<and>
   keeps g (snd (hg_grid_prune_ledger env g)) \<and>
   keeps g (snd (hg_grid_ledger_stats env cap g)) \<and>
   keeps g (snd (hg_grid_casts_since env since limit cap g)) \<and>
   keeps g (snd (hg_grid_presence env age cap g)) \<and>
   keeps g (snd (hg_grid_fetch_recent env limit cap g)) \<and>
   keeps g (snd (hg_grid_fetch_recent_across env limit cap g)) \<and>
   keeps g (snd (hg_grid_list_worlds env clk cap g)) \<and>
   keeps g (snd (hg_grid_fetch_character env n g)) \<and>
   keeps g (snd (hg_grid_health env now at g))"
proof -
  have "keeps g (snd (hg_grid_fetch_character env n g))"
    using rpc_call_keeps [of g env "''loadCharacter''" "Some [pstr n]"]
    by (auto simp: hg_grid_fetch_character_def Let_def split: prod.splits option.splits)
  then show ?thesis
    by (simp add: rec_op.op_keeps fallen_op.op_keeps rescued_op.op_keeps death_op.op_keeps register_op.op_keeps
        presence_op.op_keeps commit_op.op_keeps tide_op.op_keeps shift_op.op_keeps cast_op.op_keeps
        prune_op.op_keeps stats_op.op_keeps casts_read.op_keeps presence_read.op_keeps recent_read.op_keeps
        across_read.op_keeps worlds_read.op_keeps health_read.op_keeps)
qed

text \<open>A hub that cannot be reached.\<close>

definition unreachable :: "('j, 'w) env \<Rightarrow> bool" where
  "unreachable env \<longleftrightarrow> (\<forall>r w. \<not> fst (snd (e_perform env r w)))"

lemma rpc_call_unreachable: "unreachable env \<Longrightarrow> fst (rpc_call env meth params g) = None"
  by (auto simp: rpc_call_def Let_def unreachable_def split: option.split prod.split) (metis fst_conv snd_conv)+

lemma rpc_call_dead:
  assumes "unreachable env" obtains g' where "rpc_call env meth params g = (None, g')" "keeps g g'"
  using rpc_call_unreachable [OF assms, of meth params g] rpc_call_keeps [of g env meth params]
  by (cases "rpc_call env meth params g") auto

lemma fetch_rows_unreachable: "unreachable env \<Longrightarrow> fst (fetch_rows env meth params cap f g) = None"
  using rpc_call_unreachable [of env meth "Some params" g]
  by (auto simp: fetch_rows_def split: prod.split option.split)

lemma local_echo_fields [simp]:
  "g_remote (local_echo now n k m g) = g_remote g"
  "g_local (local_echo now n k m g) = hg_grid_record_local_echo now n k m (g_local g)"
  by (simp_all add: local_echo_def)

text \<open>What is said of a kill and of a mark, and the echo that is kept of it.\<close>

definition slain_text :: "string option \<Rightarrow> string option \<Rightarrow> string" where
  "slain_text slayer mob = snd (snprintf 256 (sprintf [S (or_default slayer ''someone''), L '' slew '',
     S (or_default mob ''a mob''), L '' here.'']))"

definition mark_text :: "string \<Rightarrow> string \<Rightarrow> string" where
  "mark_text name msg = snd (snprintf 240 (sprintf [S name, L '': \"'', S msg, L ''\"'']))"

definition echo_of :: "string option \<Rightarrow> string \<Rightarrow> string \<Rightarrow> i64 \<Rightarrow> echo_row" where
  "echo_of room kind t now = \<lparr>ec_node = cut 64 room, ec_kind = kind, ec_text = cut 200 (Some t), ec_at = now\<rparr>"

lemma recorded_local:
  "g_remote g \<Longrightarrow> g_local (snd (hg_grid_record env now w n k m at g)) = g_local g"
  using rec_op.op_keeps [of g env now w n k m at] by (simp add: keeps_def)

lemma kill_echo:
  assumes "g_remote g" and "hub_ok (g_local g)"
  shows "echoes (g_local (snd (hg_grid_on_kill env now room slayer mob g))) =
    take GL_MAX_ECHO (echo_of room ''slain'' (slain_text slayer mob) now # echoes (g_local g))"
  using assms
  by (simp add: hg_grid_on_kill_def Let_def case_prod_beta hg_grid_record_local_echo_def el.push_rows recorded_local
      cut_def [of 24] copy_cap_def or_default_def echo_of_def slain_text_def)

lemma mark_echo:
  assumes "g_remote g" and "hub_ok (g_local g)" and "msg \<noteq> []"
  shows "fst (hg_grid_inscribe env now (Some room) (Some name) (Some msg) g) = 0 \<and>
    echoes (g_local (snd (hg_grid_inscribe env now (Some room) (Some name) (Some msg) g))) =
      take GL_MAX_ECHO (echo_of (Some room) ''mark'' (mark_text name msg) now # echoes (g_local g))"
  using assms
  by (simp add: hg_grid_inscribe_def Let_def case_prod_beta hg_grid_record_local_echo_def el.push_rows recorded_local
      cut_def [of 24] copy_cap_def or_default_def echo_of_def mark_text_def)

text \<open>C18. A node whose hub cannot be reached fails open.  Every recording, registration, report, cast, commit, tide and prune
  of the client answers -1, every reading answers -1 with no rows (or an empty character), and the health check says
  so; but a kill and a mark still answer 0 and are the newest of the local echoes, and a death answers 0 with
  nothing kept of it.\<close>

theorem hub_unreachable_fails_open:
  assumes dead: "unreachable env" and remote: "g_remote g" and ok: "hub_ok (g_local g)" and "0 < cap" and "msg \<noteq> []"
  shows "(fst (hg_grid_record env now w n k m at g) = -1 \<and>
      fst (hg_grid_record_fallen env now w n k at g) = -1 \<and>
      fst (hg_grid_record_rescued env now w n k at g) = -1 \<and>
      fst (hg_grid_register_self env now g) = -1 \<and>
      fst (hg_grid_report_presence_player env now n k m at g) = -1 \<and>
      fst (hg_grid_gridcast env sender m g) = -1 \<and>
      fst (hg_grid_commit_character env n who g) = -1 \<and>
      fst (hg_grid_commit_session env (Some s) g) = -1 \<and>
      fst (hg_grid_shift_tide env d g) = None \<and>
      fst (hg_grid_prune_ledger env g) = None) \<and>
    (fst (hg_grid_tide env g) = None \<and>
      fst (hg_grid_fetch_character env n g) = (-1, zero_character) \<and>
      fst (hg_grid_list_worlds env clk cap g) = (-1, []) \<and>
      fst (hg_grid_fetch_recent env limit cap g) = (-1, []) \<and>
      fst (hg_grid_fetch_recent_across env limit cap g) = (-1, []) \<and>
      fst (hg_grid_casts_since env since limit cap g) = (-1, []) \<and>
      fst (hg_grid_presence env age cap g) = (-1, []) \<and>
      fst (hg_grid_recent_rescued env limit cap g) = (-1, []) \<and>
      fst (hg_grid_recent_fallen env limit cap g) = (-1, []) \<and>
      fst (hg_grid_ledger_stats env cap g) = (-1, []) \<and>
      \<not> fst (fst (hg_grid_health env now at g))) \<and>
    (let (rc, g') = hg_grid_on_kill env now room slayer mob g
     in rc = 0 \<and> echoes (g_local g') = take GL_MAX_ECHO (echo_of room ''slain'' (slain_text slayer mob) now # echoes (g_local g))) \<and>
    (let (rc, g') = hg_grid_inscribe env now (Some place) (Some name) (Some msg) g
     in rc = 0 \<and> echoes (g_local g') = take GL_MAX_ECHO (echo_of (Some place) ''mark'' (mark_text name msg) now # echoes (g_local g))) \<and>
    (let (rc, g') = hg_grid_on_death env now room n g in rc = 0 \<and> g_local g' = g_local g)"
    (is "?calls \<and> ?reads \<and> ?kill \<and> ?mark \<and> ?death")
proof -
  note rpc = rpc_call_unreachable [OF dead] and rows = fetch_rows_unreachable [OF dead]
  note calls = hg_grid_record_def hg_grid_record_fallen_def hg_grid_record_rescued_def hg_grid_register_self_def
    hg_grid_report_presence_player_def hg_grid_gridcast_def hg_grid_commit_character_def hg_grid_commit_session_def
    hg_grid_shift_tide_def hg_grid_prune_ledger_def
  note reads = hg_grid_tide_def hg_grid_fetch_character_def hg_grid_list_worlds_def hg_grid_fetch_recent_def
    hg_grid_fetch_recent_across_def hg_grid_casts_since_def hg_grid_presence_def hg_grid_recent_rescued_def
    hg_grid_recent_fallen_def hg_grid_ledger_stats_def hg_grid_health_def
  note statuses = rpc_status_def tide_result_def rows_status_def rows_counted_def
  have c: ?calls using remote by (simp add: calls rpc statuses Let_def case_prod_beta)
  have r: ?reads using remote assms(4) by (simp add: reads rpc rows statuses Let_def case_prod_beta)
  have k: ?kill using kill_echo [OF remote ok] by (simp add: case_prod_beta) (simp add: hg_grid_on_kill_def Let_def case_prod_beta)
  have m: ?mark using mark_echo [OF remote ok assms(5)] by (simp add: case_prod_beta)
  have "g_local (snd (hg_grid_on_death env now room n g)) = g_local g"
    using death_op.op_keeps [of g env now room n] remote by (simp add: keeps_def)
  then have d: ?death by (simp add: case_prod_beta) (simp add: hg_grid_on_death_def case_prod_beta)
  show ?thesis by (rule conjI [OF c conjI [OF r conjI [OF k conjI [OF m d]]]])
qed

definition dead_env :: "(unit, unit) env" where
  "dead_env = \<lparr>e_parse = (\<lambda>_. None), e_print = (\<lambda>_. Some []), e_get = (\<lambda>_ _. None), e_true = (\<lambda>_. False),
     e_str = (\<lambda>_. None), e_ll = (\<lambda>_. None), e_int = (\<lambda>_. None), e_items = (\<lambda>_. None), e_object = (\<lambda>_. False),
     e_perform = (\<lambda>_ w. (w, False, []))\<rparr>"

definition remote_grid :: "'w \<Rightarrow> 'w grid" where
  "remote_grid w = \<lparr>g_booted = True, g_remote = True, g_world_name = ''Dustfall'', g_world_url = [],
     g_hub_url = ''https://hub'', g_token = ''t'', g_curl = True, g_global_owned = True, g_last_tick = 0,
     g_local = hg_grid_local_clear, g_net = w\<rparr>"

theorem hub_unreachable_fails_open_witness:
  "unreachable dead_env \<and> fst (hg_grid_tide dead_env (remote_grid ())) = None \<and>
   (let (rc, g) = hg_grid_on_kill dead_env 5 (Some ''cellar'') (Some ''Mira'') (Some ''a rat'') (remote_grid ())
    in rc = 0 \<and> echoes (g_local g) =
      [\<lparr>ec_node = ''cellar'', ec_kind = ''slain'', ec_text = ''Mira slew a rat here.'', ec_at = 5\<rparr>])"
proof -
  have "unreachable dead_env" "g_remote (remote_grid ())" "hub_ok (g_local (remote_grid ()))" "0 < (8 :: nat)" "''no more'' \<noteq> []"
    by (simp_all add: unreachable_def dead_env_def remote_grid_def)
  note down = hub_unreachable_fails_open [OF this, where now = 5 and room = "Some ''cellar''" and slayer = "Some ''Mira''"
      and mob = "Some ''a rat''"]
  have "echoes (g_local (remote_grid ())) = []" by (simp add: remote_grid_def echoes_def hg_grid_local_clear_def live_def)
  moreover have "echo_of (Some ''cellar'') ''slain'' (slain_text (Some ''Mira'') (Some ''a rat'')) 5 =
      \<lparr>ec_node = ''cellar'', ec_kind = ''slain'', ec_text = ''Mira slew a rat here.'', ec_at = 5\<rparr>" by code_simp
  ultimately show ?thesis using down \<open>unreachable dead_env\<close> by (simp add: GL_MAX_ECHO_def)
qed

section \<open>The federation tick\<close>

text \<open>The readings of the clock at which a run of ticks registers, from the last one that did.\<close>

fun beats :: "i64 \<Rightarrow> i64 list \<Rightarrow> i64 list" where
  "beats prev [] = []"
| "beats prev (n # ns) =
     (if prev \<noteq> 0 \<and> n - prev <s HG_FEDERATION_TICK_MS then beats prev ns else n # beats n ns)"

definition beat :: "('j, 'w) env \<Rightarrow> i64 \<Rightarrow> i64 \<Rightarrow> 'w grid \<Rightarrow> 'w grid" where
  "beat env clock n g = snd (hg_grid_register_self env clock (g\<lparr>g_last_tick := n\<rparr>))"

definition clock_ok :: "i64 \<Rightarrow> bool" where
  "clock_ok n \<longleftrightarrow> 0 < sint n \<and> sint n < 2 ^ 62"

lemma sint_diff_clock:
  assumes "clock_ok a" and "clock_ok b"
  shows "sint (a - b) = sint a - sint b"
proof -
  have "sint (a - b) = signed_take_bit 63 (sint a - sint b)"
    by (simp add: sint_word_ariths)
  also have "\<dots> = sint a - sint b"
    using assms by (intro signed_take_bit_int_eq_self) (simp_all add: clock_ok_def)
  finally show ?thesis .
qed

lemma beats_gap:
  assumes "clock_ok n" and "prev = 0 \<or> clock_ok prev"
  shows "(prev \<noteq> 0 \<and> n - prev <s HG_FEDERATION_TICK_MS) \<longleftrightarrow> clock_ok prev \<and> sint n < sint prev + 10000"
proof (cases "prev = 0")
  case True
  then show ?thesis by (simp add: clock_ok_def)
next
  case False
  with assms have ok: "clock_ok prev" by simp
  then show ?thesis
    using False sint_diff_clock [OF assms(1) ok]
    by (auto simp: word_sless_alt HG_FEDERATION_TICK_MS_def)
qed

lemma beats_after:
  "sorted_wrt (\<lambda>a b. sint a \<le> sint b) ns \<Longrightarrow> \<forall>n \<in> set ns. clock_ok n \<and> sint prev \<le> sint n \<Longrightarrow> clock_ok prev \<Longrightarrow>
     \<forall>b \<in> set (beats prev ns). sint prev + 10000 \<le> sint b"
proof (induction prev ns rule: beats.induct)
  case (2 prev n ns)
  have gap: "(prev \<noteq> 0 \<and> n - prev <s HG_FEDERATION_TICK_MS) \<longleftrightarrow> sint n < sint prev + 10000"
    using 2(4,5) by (subst beats_gap) auto
  show ?case
  proof (cases "sint n < sint prev + 10000")
    case True
    then show ?thesis using 2(1) 2(3-5) gap by simp
  next
    case False
    have "sint n + 10000 \<le> sint b" if "b \<in> set (beats n ns)" for b
      using 2(2) 2(3,4) gap False that by auto
    then have "\<forall>b \<in> set (n # beats n ns). sint prev + 10000 \<le> sint b" using False by fastforce
    moreover have "beats prev (n # ns) = n # beats n ns" using False by (simp only: beats.simps gap if_False)
    ultimately show ?thesis by simp
  qed
qed simp

lemma tick_step:
  assumes "g_remote g" and "n \<noteq> 0"
  shows "hg_grid_federation_tick env clock n g =
    (if g_last_tick g \<noteq> 0 \<and> n - g_last_tick g <s HG_FEDERATION_TICK_MS then g else beat env clock n g)"
  using assms by (simp add: hg_grid_federation_tick_def beat_def Let_def)

lemma beat_fields:
  "g_last_tick (beat env clock n g) = n" "g_remote (beat env clock n g) = g_remote g"
  using register_op.config_kept [of env clock "g\<lparr>g_last_tick := n\<rparr>"] by (simp_all add: beat_def config_def)

text \<open>C22. The federation heartbeat keeps its pace: over any run of ticks with a clock that does not go
  backwards, the node registers exactly at its beats; two beats are at least ten seconds apart, and every tick
  is within ten seconds of a beat that came before it or of the last one before the run.\<close>

theorem federation_tick_rate:
  assumes "g_remote g" and "sorted_wrt (\<lambda>a b. sint a \<le> sint b) ns"
    and "\<forall>n \<in> set ns. clock_ok n" and "g_last_tick g = 0 \<or> clock_ok (g_last_tick g)"
    and "\<forall>n \<in> set ns. sint (g_last_tick g) \<le> sint n"
  shows "fold (hg_grid_federation_tick env clock) ns g = fold (beat env clock) (beats (g_last_tick g) ns) g \<and>
    sorted_wrt (\<lambda>a b. sint a + 10000 \<le> sint b) (beats (g_last_tick g) ns) \<and>
    (\<forall>n \<in> set ns. \<exists>b \<in> insert (g_last_tick g) (set (beats (g_last_tick g) ns)). sint b \<le> sint n \<and> sint n < sint b + 10000)"
  using assms
proof (induction ns arbitrary: g)
  case Nil
  then show ?case by simp
next
  case (Cons n ns)
  let ?last = "g_last_tick g"
  have n: "clock_ok n" "n \<noteq> 0" using Cons.prems(3) by (auto simp: clock_ok_def)
  have gap: "(?last \<noteq> 0 \<and> n - ?last <s HG_FEDERATION_TICK_MS) \<longleftrightarrow> clock_ok ?last \<and> sint n < sint ?last + 10000"
    using n(1) Cons.prems(4) by (rule beats_gap)
  show ?case
  proof (cases "clock_ok ?last \<and> sint n < sint ?last + 10000")
    case True
    have "hg_grid_federation_tick env clock n g = g" using Cons.prems(1) n gap True by (simp add: tick_step)
    then show ?thesis
      using Cons.IH [of g] Cons.prems gap True by simp
  next
    case False
    have "hg_grid_federation_tick env clock n g = beat env clock n g"
      using gap False by (simp only: tick_step [OF Cons.prems(1) n(2)] if_False)
    moreover have "\<forall>b \<in> set (beats n ns). sint n + 10000 \<le> sint b"
      using Cons.prems(2,3) n by (intro beats_after) auto
    ultimately show ?thesis
      using Cons.IH [of "beat env clock n g"] Cons.prems gap False n by (auto simp: beat_fields)
  qed
qed

theorem federation_tick_rate_witness:
  "fold (hg_grid_federation_tick dead_env 7) [1000, 5000, 12000] (remote_grid ()) =
     fold (beat dead_env 7) [1000, 12000] (remote_grid ())"
  using federation_tick_rate [of "remote_grid ()" "[1000, 5000, 12000]" dead_env 7]
  by (simp add: remote_grid_def clock_ok_def word_sless_alt HG_FEDERATION_TICK_MS_def)

section \<open>Boot and the rows of a remote hub\<close>

lemma strip_slashes_drop:
  "len \<le> length url \<Longrightarrow> strip_slashes url len = rev (dropWhile ((=) (CHR ''/'')) (rev (take len url)))"
  by (induction len) (simp_all add: take_Suc_conv_app_nth)

definition shorter :: "string \<Rightarrow> nat \<Rightarrow> bool" where
  "shorter s cap \<longleftrightarrow> length s < cap"

lemma shorter_copy [simp]: "0 < cap \<Longrightarrow> shorter (safe_copy cap s) cap"
  by (simp add: shorter_def length_safe_copy)

lemma safe_copy_take: "safe_copy cap (Some u) = take (cap - 1) u"
  by (simp add: safe_copy_def snprintf_def or_default_def)

text \<open>Boot never fails and picks the mode from the configuration: the node is remote exactly when a hub
  url was given and libcurl came up, with the url's first 255 characters less every trailing slash; otherwise it
  runs on a fresh local hub with the ledger seeded.  The names fit their buffers in both modes.\<close>

lemma boot_modes:
  "let g' = hg_grid_boot clock up handle name url hub token g;
       asked = (case hub of None \<Rightarrow> False | Some u \<Rightarrow> u \<noteq> [])
   in g_booted g' \<and> g_remote g' = (asked \<and> up \<and> handle) \<and> g_curl g' = g_remote g' \<and>
      shorter (g_world_name g') 64 \<and> shorter (g_world_url g') 160 \<and> shorter (g_token g') 256 \<and>
      g_hub_url g' = (case hub of None \<Rightarrow> [] | Some u \<Rightarrow> rev (dropWhile ((=) (CHR ''/'')) (rev (take 255 u)))) \<and>
      (if g_remote g' then g_local g' = g_local g
       else hub_ok (g_local g') \<and> length (traces (g_local g')) = 6 \<and> gl_world_name (g_local g') = g_world_name g') \<and>
      g_net g' = g_net g"
proof -
  have seeds: "length (traces (fold (\<lambda>(i, w, n, k, t). hg_grid_local_record (clock i) (Some w) (Some n) (Some k) (Some t) 0) xs h)) =
      min 200 (length xs + length (traces h)) \<and>
     gl_world_name (fold (\<lambda>(i, w, n, k, t). hg_grid_local_record (clock i) (Some w) (Some n) (Some k) (Some t) 0) xs h) =
      gl_world_name h" if "hub_ok h" for xs h
    using that
  proof (induction xs arbitrary: h)
    case Nil
    then show ?case using tl.rows_cap [of h] by (simp add: GL_MAX_TRACES_def)
  next
    case (Cons x xs)
    then show ?case
      by (cases x) (auto simp: hg_grid_local_record_def tl.push_inv tl.push_rows GL_MAX_TRACES_def)
  qed
  have booted: "hub_ok (hg_grid_local_boot clock (Some w) u) \<and> length (traces (hg_grid_local_boot clock (Some w) u)) = 6 \<and>
      gl_world_name (hg_grid_local_boot clock (Some w) u) = w" if "shorter w 64" for w u
  proof -
    let ?h = "hg_grid_local_clear\<lparr>gl_world_name := cut 64 (Some w), gl_world_url := cut 160 u\<rparr>"
    have h: "hub_ok ?h" "traces ?h = []" using hub_ok_clear traces_clear by (simp_all add: hub_ok_def traces_def)
    from seeds [OF h(1), of "enumerate 0 seed_traces"] h that show ?thesis
      by (simp add: boot_ok) (simp add: hg_grid_local_boot_def seed_traces_def cut_def or_default_def
          copy_cap_def shorter_def)
  qed
  show ?thesis
    by (cases hub) (simp_all add: hg_grid_boot_def Let_def booted strip_slashes_drop safe_copy_take [of 256] shorter_def [of "[]"])
qed

definition world_row_ok :: "grid_world_row \<Rightarrow> bool" where
  "world_row_ok r \<longleftrightarrow> shorter (gw_id r) 48 \<and> shorter (gw_url r) 160"

definition trace_row_ok :: "federation_trace \<Rightarrow> bool" where
  "trace_row_ok r \<longleftrightarrow> shorter (ft_world r) 48 \<and> shorter (ft_node r) 64 \<and> shorter (ft_kind r) 24 \<and> shorter (ft_text r) 200"

definition cast_row_ok :: "cast_row \<Rightarrow> bool" where
  "cast_row_ok r \<longleftrightarrow> shorter (ct_world r) 48 \<and> shorter (ct_sender r) 33 \<and> shorter (ct_text r) 240"

definition presence_row_ok :: "presence_row \<Rightarrow> bool" where
  "presence_row_ok r \<longleftrightarrow> shorter (pr_world r) 48 \<and> shorter (pr_name r) 33 \<and> shorter (pr_regard r) 48 \<and> shorter (pr_title r) 48"

definition fits_in :: "nat \<Rightarrow> ('r \<Rightarrow> bool) \<Rightarrow> (int \<times> 'r list) \<times> 'w grid \<Rightarrow> bool" where
  "fits_in cap ok r \<longleftrightarrow> length (snd (fst r)) \<le> cap \<and> list_all ok (snd (fst r)) \<and>
     (fst (fst r) < 0 \<longrightarrow> snd (fst r) = [])"

lemma collect_bound:
  "length out \<le> cap \<Longrightarrow> list_all ok out \<Longrightarrow> \<forall>x r. f x = Some r \<longrightarrow> ok r \<Longrightarrow>
     length (collect cap f xs out) \<le> cap \<and> list_all ok (collect cap f xs out)"
  by (induction cap f xs out rule: collect.induct) (auto split: option.split)

lemma fetch_rows_bound:
  assumes "\<forall>x r. f x = Some r \<longrightarrow> ok r"
  shows "fits_in cap ok (apfst rows_status (fetch_rows env meth params cap f g))"
    and "fits_in cap ok (apfst rows_counted (fetch_rows env meth params cap f g))"
  using collect_bound [of "[]" cap ok f] assms
  by (auto simp: fits_in_def fetch_rows_def rows_status_def rows_counted_def split: prod.split option.split)

text \<open>A hostile hub cannot overrun the node's buffers: whatever a remote hub answers, a fetch fills at
  most the rows its caller has room for, every cell is cut to the width of its field, and a failed fetch gives no
  rows.\<close>

lemma remote_rows_bounded:
  assumes "g_remote g"
  shows "fits_in (min 8 cap) world_row_ok (hg_grid_list_worlds env clk cap g) \<and>
    fits_in cap trace_row_ok (hg_grid_fetch_recent env limit cap g) \<and>
    fits_in cap trace_row_ok (hg_grid_fetch_recent_across env limit cap g) \<and>
    fits_in cap cast_row_ok (hg_grid_casts_since env since limit cap g) \<and>
    fits_in cap presence_row_ok (hg_grid_presence env age cap g) \<and>
    fits_in cap (\<lambda>r. shorter (rs_world r) 48 \<and> shorter (rs_name r) 33 \<and> shorter (rs_by r) 33)
      (hg_grid_recent_rescued env limit cap g) \<and>
    fits_in cap (\<lambda>r. shorter (fl_world r) 48 \<and> shorter (fl_name r) 33 \<and> shorter (fl_room r) 32)
      (hg_grid_recent_fallen env limit cap g) \<and>
    fits_in cap (\<lambda>r. shorter (lr_kind r) 32) (hg_grid_ledger_stats env cap g) \<and>
    (let c = snd (fst (hg_grid_fetch_character env name g))
     in shorter (cr_faction c) 16 \<and> shorter (cr_title c) 48 \<and> shorter (cr_race c) 16)"
    (is "?a \<and> ?b \<and> ?c \<and> ?d \<and> ?e \<and> ?f \<and> ?g \<and> ?h \<and> ?i")
proof (intro conjI)
  have none: "fits_in cap ok ((s, []), g)" for cap ok s by (simp add: fits_in_def)
  have min8: "(if HG_GRID_MAX_WORLDS < cap then HG_GRID_MAX_WORLDS else cap) = min 8 cap"
    by (simp add: HG_GRID_MAX_WORLDS_def min_def)
  show ?a using assms none
    by (auto simp: hg_grid_list_worlds_def Let_def min8 world_row_ok_def world_row_def intro!: fetch_rows_bound)
  show ?b ?c using assms none
    by (auto simp: hg_grid_fetch_recent_def hg_grid_fetch_recent_across_def trace_row_ok_def trace_row_def
        object_row_def intro!: fetch_rows_bound split: if_splits)
  show ?d ?e using assms
    by (auto simp: hg_grid_casts_since_def hg_grid_presence_def cast_row_ok_def remote_cast_def
        presence_row_ok_def remote_presence_def intro!: fetch_rows_bound)
  show ?f ?g ?h using assms
    by (auto simp: hg_grid_recent_rescued_def hg_grid_recent_fallen_def hg_grid_ledger_stats_def
        remote_rescued_def remote_fallen_def remote_ledger_def intro!: fetch_rows_bound)
  show ?i using assms
    by (simp add: hg_grid_fetch_character_def Let_def zero_character_def shorter_def [of "[]"]
        split: prod.split option.split)
qed

text \<open>A hub that answers every question with a hundred rows of a thousand characters.\<close>

definition hostile_env :: "(unit, unit) env" where
  "hostile_env = \<lparr>e_parse = (\<lambda>_. Some ()), e_print = (\<lambda>_. Some []), e_get = (\<lambda>_ _. Some ()), e_true = (\<lambda>_. True),
     e_str = (\<lambda>_. Some (replicate 1000 (CHR ''x''))), e_ll = (\<lambda>_. Some (-1)), e_int = (\<lambda>_. Some (-1)),
     e_items = (\<lambda>_. Some (replicate 100 ())), e_object = (\<lambda>_. True), e_perform = (\<lambda>_ w. (w, True, []))\<rparr>"

end
