(* ===== verification/Emit.thy ===== *)
theory Emit
  imports Registry GridHub
begin

text \<open>
  The emitters of \<^verbatim>\<open>ffi/format.c\<close>: they format one or more events about a session and
  queue them on its outbox (or on everyone's).  \<^verbatim>\<open>g_scratch\<close> is the formatting buffer of
  4096 bytes; an event whose formatter reports a length above zero is queued as the text the buffer holds.
\<close>

section \<open>Single events\<close>

definition queue_event :: "addr \<Rightarrow> fmt_result \<Rightarrow> 'a store_scheme \<Rightarrow> 'a store_scheme" where
  "queue_event a r st = (if 0 < fst r then hg_queue_cstr a (Some (snd r)) st else st)"

definition hg_whoami_reply :: "addr \<Rightarrow> addr \<Rightarrow> char_identity_fields option \<Rightarrow> 'a store_scheme \<Rightarrow> 'a store_scheme" where
  "hg_whoami_reply a wsi ids st =
     (let (n, t) = hg_fmt_char_identity SCRATCH ids in if 0 < n then hg_session_queue a wsi (cstr t) st else st)"

definition hg_emit_vitals_now :: "addr \<Rightarrow> string option \<Rightarrow> 'a store_scheme \<Rightarrow> 'a store_scheme" where
  "hg_emit_vitals_now a room_id st = queue_event a (hg_fmt_vitals SCRATCH (sess st a) room_id) st"

definition hg_emit_affects_now :: "addr \<Rightarrow> 'a store_scheme \<Rightarrow> 'a store_scheme" where
  "hg_emit_affects_now a st = queue_event a (hg_fmt_affects SCRATCH (sess st a)) st"

definition hg_emit_equipment_now :: "addr \<Rightarrow> 'a store_scheme \<Rightarrow> 'a store_scheme" where
  "hg_emit_equipment_now a st = queue_event a (hg_fmt_equipment SCRATCH (sess st a)) st"

definition hg_emit_dream_now :: "addr \<Rightarrow> 'a store_scheme \<Rightarrow> 'a store_scheme" where
  "hg_emit_dream_now a st = queue_event a (hg_fmt_dream hg_dream_compose SCRATCH (sess st a)) st"

definition hg_emit_world_now :: "addr \<Rightarrow> i64 \<Rightarrow> string option \<Rightarrow> 'a store_scheme \<Rightarrow> 'a store_scheme" where
  "hg_emit_world_now a tick phase st = queue_event a (hg_fmt_world_state SCRATCH tick phase) st"

section \<open>The scene\<close>

text \<open>\<^verbatim>\<open>hg_announce_cache_now\<close> of \<^verbatim>\<open>asm/social_ledger.asm\<close>: the room's
  cache, when there is one.\<close>

definition cache_line :: "i64 \<Rightarrow> string" where
  "cache_line gold = sprintf [L ''Someone has cached aid here: '', NI gold,
     L '' gold, left for whoever comes next. (gather)'']"

definition cache_event :: "i64 \<Rightarrow> string" where
  "cache_event gold = sprintf [L ''@event node.cache {\"gold\":'', NI gold, L ''}'', L crlf]"

definition hg_announce_cache_now :: "addr \<Rightarrow> 'a wstate_scheme \<Rightarrow> 'a wstate_scheme" where
  "hg_announce_cache_now a st =
     (let room = s_room (sess st a)
      in if room <s 0 \<or> 64 \<le>s room then st
         else let gold = cache_gold st ! nat (sint room)
           in if gold \<le>s 0 then st
              else hg_queue_cstr a (Some (snd (snprintf 80 (cache_event gold))))
                     (hg_queue_line a (Some (snd (snprintf 160 (cache_line gold)))) st))"

text \<open>The composed menu, or the room's own list when it is a bare pair of brackets.\<close>

definition scene_actions :: "(string \<Rightarrow> string \<Rightarrow> string) \<Rightarrow> session \<Rightarrow> string" where
  "scene_actions kept s =
     (case hg_actions_json_for kept 1200 (Some s) of
        None \<Rightarrow> nonempty_or (hg_room_actions (s_room s)) ''[]''
      | Some acts \<Rightarrow> if length acts < 3 then nonempty_or (hg_room_actions (s_room s)) ''[]'' else acts)"

definition scene_prose :: "i64 \<Rightarrow> string" where
  "scene_prose room = sprintf [S (or_default (hg_room_name room) []), L crlf, S (or_default (hg_room_desc room) []), L crlf]"

definition hg_emit_scene_now :: "addr \<Rightarrow> 'a wstate_scheme \<Rightarrow> 'a wstate_scheme" where
  "hg_emit_scene_now a st =
     (if a = 0 then st
      else let room = s_room (sess st a);
               st = hg_queue_cstr a (Some (snd (snprintf 1024 (scene_prose room)))) st;
               (n, ps) = hg_players_json room (Some (s_name (sess st a))) 900 st;
               players = (if n < 0 then ''[]'' else ps);
               st = queue_event a (hg_fmt_room_info SCRATCH (hg_room_id room) (hg_room_name room)
                      (hg_room_exits room) (hg_room_live_mobs (rat_alive st) room) (Some players)) st;
               st = hg_emit_vitals_now a (hg_room_id room) st;
               st = hg_emit_affects_now a st;
               st = queue_event a (hg_fmt_room_actions SCRATCH (Some (scene_actions (u_strlen_rsi (undefs_of st)) (sess st a)))) st;
               st = hg_emit_world_now a (hg_world_tick_value st) (Some ''day'') st
           in hg_announce_cache_now a st)"

definition hg_emit_room_actions_now :: "addr \<Rightarrow> 'a store_scheme \<Rightarrow> 'a store_scheme" where
  "hg_emit_room_actions_now a st =
     (let (n, t) = hg_fmt_room_actions 1400 (Some (scene_actions (u_strlen_rsi (undefs_of st)) (sess st a)))
      in if n < 0 then st else hg_queue_cstr a (Some t) st)"

section \<open>Forgiveness\<close>

definition forgiven_event :: "string \<Rightarrow> bool \<Rightarrow> bool \<Rightarrow> string" where
  "forgiven_event byesc ashsworn redeemed = sprintf [L ''@event char.forgiven {\"by\":\"'', S byesc,
     L ''\",\"ashsworn\":'', S (fmt_bool ashsworn), L '',\"redeemed\":'', S (fmt_bool redeemed), L ''}'', L crlf]"

definition hg_emit_forgiven_target_now :: "addr \<Rightarrow> addr \<Rightarrow> i32 \<Rightarrow> i32 \<Rightarrow> 'a store_scheme \<Rightarrow> 'a store_scheme" where
  "hg_emit_forgiven_target_now target forgiver ashsworn redeemed_path st =
     (let self = s_name (sess st forgiver);
          st = hg_queue_cstr target (Some (snd (snprintf 280 (sprintf
                 [S self, L '' looks at you and chooses to forgive you.'', L crlf])))) st;
          byesc = snd (hg_json_escape 80 (Some self))
      in if ashsworn \<noteq> 0 then
           hg_queue_cstr target (Some (snd (snprintf 240 (forgiven_event byesc True False))))
             (hg_queue_cstr target (Some (''It reaches something in you. But the ash does not lift; it never '' @
                ''will. You carry the mark and the mercy both. Some things are not '' @
                ''forgotten, even when they are forgiven.'' @ crlf)) st)
         else if redeemed_path \<noteq> 0 then st
         else
           hg_queue_cstr target (Some (''It lands, and it stays with you. The road is still yours to walk, '' @
                ''but you are not walking it unseen.'' @ crlf))
             (hg_queue_cstr target (Some (snd (snprintf 240 (forgiven_event byesc False False)))) st))"

definition hg_emit_forgiven_redeemed_now :: "addr \<Rightarrow> addr \<Rightarrow> 'a store_scheme \<Rightarrow> 'a store_scheme" where
  "hg_emit_forgiven_redeemed_now target forgiver st =
     (let byesc = snd (hg_json_escape 80 (Some (s_name (sess st forgiver))));
          nesc = snd (hg_json_escape 80 (Some (s_name (sess st target))));
          tesc = snd (hg_json_escape 80 (Some (s_title (sess st target))));
          st = hg_queue_cstr target (Some (snd (snprintf 240 (forgiven_event byesc False True)))) st;
          st = hg_queue_cstr target (Some (snd (snprintf 240 (sprintf
                 [L ''@event grid.redemption {\"name\":\"'', S nesc, L ''\",\"title\":\"'', S tesc, L ''\"}'', L crlf])))) st;
          st = hg_queue_cstr target (Some (''Something you had been carrying alone, you are not carrying alone '' @
                 ''anymore. You found your way back, and someone met you on the road. '' @
                 ''(you are the Returned)'' @ crlf)) st
      in hg_emit_affects_now target st)"

section \<open>The texts of the room table as JSON\<close>

definition text_value :: "string \<Rightarrow> jval" where
  "text_value t = (case json_parse t of Some v \<Rightarrow> v | None \<Rightarrow> JNull)"

definition parses :: "string \<Rightarrow> bool" where
  "parses t \<longleftrightarrow> render (text_value t) = t"

definition mobs_texts :: "string list" where
  "mobs_texts = [''[]'', rat_mobs, leech_mobs, raider_mobs, trooper_mobs, ashmonger_mobs, custodian_mobs]"

definition actions_texts :: "string list" where
  "actions_texts = [''[]'', actions_nexus, actions_tunnels, actions_market, actions_tavern, actions_lock, actions_repeater]"

lemma mobs_parse: "list_all (\<lambda>t. parses t \<and> length t < 60) mobs_texts"
  by code_simp

lemma actions_parse: "list_all (\<lambda>t. parses t \<and> length t < 700 \<and> t \<noteq> []) actions_texts"
  by code_simp

lemma exits_parse: "list_all (\<lambda>t. parses t \<and> length t < 80) (remdups (map r_exits rooms))"
  by code_simp

lemma rooms_texts: "list_all (\<lambda>r. r_mobs r \<in> set mobs_texts \<and> r_actions r \<in> set actions_texts) rooms"
  by code_simp

lemma rooms_plain: "list_all (\<lambda>r. json_plain (r_id r) \<and> json_plain (r_name r) \<and> nul_free (r_desc r)) rooms"
  by code_simp

lemma rooms_lengths: "list_all (\<lambda>r. r_id r \<noteq> [] \<and> length (r_id r) \<le> 20 \<and> length (r_name r) \<le> 30 \<and> length (r_desc r) \<le> 150) rooms"
  by code_simp

lemma length_rooms [simp]: "length rooms = 28"
  by (simp add: rooms_def)

definition room_ok :: "room \<Rightarrow> bool" where
  "room_ok r \<longleftrightarrow> json_plain (r_id r) \<and> json_plain (r_name r) \<and> nul_free (r_desc r) \<and>
     r_id r \<noteq> [] \<and> length (r_id r) \<le> 20 \<and> length (r_name r) \<le> 30 \<and> length (r_desc r) \<le> 150 \<and>
     parses (r_exits r) \<and> length (r_exits r) < 80 \<and> parses (r_mobs r) \<and> length (r_mobs r) < 60 \<and>
     parses (r_actions r) \<and> length (r_actions r) < 700 \<and> r_actions r \<noteq> []"

lemma rooms_ok:
  assumes "i < 28"
  shows "room_ok (rooms ! i)"
proof -
  have r: "rooms ! i \<in> set rooms" using assms by simp
  have "parses (r_exits (rooms ! i)) \<and> length (r_exits (rooms ! i)) < 80"
    using exits_parse r unfolding list_all_iff by simp
  moreover have "r_mobs (rooms ! i) \<in> set mobs_texts" "r_actions (rooms ! i) \<in> set actions_texts"
    using rooms_texts r unfolding list_all_iff by simp_all
  ultimately show ?thesis
    using mobs_parse actions_parse rooms_plain rooms_lengths r unfolding list_all_iff room_ok_def by blast
qed

lemma rat_mobs_ok: "parses rat_mobs" "length rat_mobs < 60"
  using mobs_parse by (simp_all add: mobs_texts_def)

section \<open>A scene is announced whole\<close>

definition live_mobs_value :: "'a wstate_scheme \<Rightarrow> i64 \<Rightarrow> jval" where
  "live_mobs_value st room = text_value (or_default (hg_room_live_mobs (rat_alive st) room) [])"

definition room_info_json :: "i64 \<Rightarrow> jval \<Rightarrow> jval \<Rightarrow> jval" where
  "room_info_json room mobs ps = (let r = rooms ! unat room in JObj
     [(''id'', JStr (r_id r)), (''name'', JStr (r_name r)), (''exits'', text_value (r_exits r)),
      (''mobs'', mobs), (''items'', JArr []), (''players'', ps)])"

definition scene_events :: "addr \<Rightarrow> 'a wstate_scheme \<Rightarrow> (string \<times> jval) list" where
  "scene_events a st =
     (let s = sess st a; room = s_room s; r = rooms ! unat room;
          ps = present_json room (Some (s_name s)) st
      in [(''room.info'', room_info_json room (live_mobs_value st room)
             (if length (render ps) < 900 then ps else JArr [])),
          (''char.vitals'', vitals_json s (r_id r)),
          (''char.affects'', affects_json s),
          (''room.actions'', JObj [(''actions'',
             if menu s \<noteq> [] then JArr (map action_json (menu s)) else text_value (r_actions r))]),
          (''world.state'', JObj [(''tick'', JInt (sint (world_tick st))), (''phase'', JStr ''day''),
             (''weather'', JStr ''clear'')])])"

definition cache_messages :: "addr \<Rightarrow> 'a wstate_scheme \<Rightarrow> string list" where
  "cache_messages a st =
     (let gold = cache_gold st ! unat (s_room (sess st a))
      in if 0 < sint gold then [cache_line gold @ crlf, event_line ''node.cache'' (JObj [(''gold'', JInt (sint gold))])]
         else [])"

definition scene_messages :: "addr \<Rightarrow> 'a wstate_scheme \<Rightarrow> string list" where
  "scene_messages a st = scene_prose (s_room (sess st a)) #
     map (\<lambda>(n, v). event_line n v) (scene_events a st) @ cache_messages a st"

lemma queue_event_line:
  "length (event_line n v) < SCRATCH \<Longrightarrow> nul_free n \<Longrightarrow>
     queue_event a (snprintf SCRATCH (event_line n v)) st = hg_queue a (Some (event_line n v)) st"
  by (simp add: queue_event_def snprintf_fits hg_queue_cstr_Some)

lemma player_json_strip: "player_json (strip_out s) = player_json s"
  by (simp add: player_json_def hg_brand_standing_def)

lemma shown_strip: "shown room except (strip_out s) = shown room except s"
  by (cases except) (simp_all add: shown_def)

lemma present_json_cong:
  assumes "table st' = table st" and "\<And>b. strip_out (sess st' b) = strip_out (sess st b)"
  shows "present_json room except st' = present_json room except st"
proof -
  have "shown room except (sess st' b) = shown room except (sess st b)"
    and "player_json (sess st' b) = player_json (sess st b)" for b
    using assms(2) [of b] shown_strip player_json_strip by metis+
  then have "map player_json (filter (shown room except) (map (sess st') bs)) =
      map player_json (filter (shown room except) (map (sess st) bs))" for bs
    by (induction bs) simp_all
  with assms(1) show ?thesis by (simp add: present_json_def)
qed

lemma vitals_json_queue [simp]: "vitals_json (sess (hg_queue a d st) b) room = vitals_json (sess st b) room"
  by (simp add: vitals_json_def)

lemma affects_json_queue [simp]: "affects_json (sess (hg_queue a d st) b) = affects_json (sess st b)"
  by (simp add: affects_json_def)

lemma menu_queue [simp]: "menu (sess (hg_queue a d st) b) = menu (sess st b)"
  by (simp add: menu_def market_menu_def dais_menu_def join_valence_def persecuted_def)

lemma cells_ok_strip: "cells_ok (strip_out s) = cells_ok s"
  by (simp add: cells_ok_def strip_out_def)

lemma cells_ok_queue [simp]: "cells_ok (sess (hg_queue a d st) b) = cells_ok (sess st b)"
  using cells_ok_strip hg_queue_strip by metis

lemma queue_snprintf:
  "nul_free t \<Longrightarrow> length t < cap \<Longrightarrow> hg_queue_cstr a (Some (snd (snprintf cap t))) st = hg_queue a (Some t) st"
  by (simp add: snprintf_fits hg_queue_cstr_Some)

lemma length_menu_text:
  "hg_actions_json_for kept 1200 (Some s) = Some t \<Longrightarrow> length t \<le> 1200"
  by (auto simp: hg_actions_json_for_def close_menu_def Option.bind_eq_Some_conv split: if_splits)

lemma scene_actions_refines:
  assumes "unat (s_room s) < 28" and "strlen_keeps_rsi kept"
  shows "scene_actions kept s =
      render (if menu s \<noteq> [] then JArr (map action_json (menu s)) else text_value (r_actions (rooms ! unat (s_room s)))) \<and>
    length (scene_actions kept s) \<le> 1200"
proof (cases "menu s = []")
  case True
  have "room_ok (rooms ! unat (s_room s))" using assms(1) by (rule rooms_ok)
  then show ?thesis
    using True assms(1) by (simp add: scene_actions_def menu_refines [OF assms(2)] hg_room_actions_def room_field_def ROOM_COUNT_def
        nonempty_or_def room_ok_def parses_def)
next
  case False
  let ?t = "render (JArr (map action_json (menu s)))"
  from False obtain x xs where m: "menu s = x # xs" by (cases "menu s") auto
  obtain u where "render (action_json x) = CHR ''{'' # u"
    by (cases x) (simp add: action_json_def)
  then have "3 \<le> length ?t" unfolding m by (cases xs) (simp_all add: commas_Cons2)
  then show ?thesis
    using False length_menu_text [OF menu_refines [OF assms(2), of s]] by (simp add: scene_actions_def menu_refines [OF assms(2)] del: render.simps)
qed

lemma scene_prose_ok:
  assumes "unat room < 28"
  shows "nul_free (scene_prose room) \<and> length (scene_prose room) < 1024 \<and> scene_prose room \<noteq> []"
  using rooms_ok [OF assms] json_plain_nul_free assms
  by (auto simp: scene_prose_def hg_room_name_def hg_room_desc_def room_field_def ROOM_COUNT_def or_default_def
      room_ok_def crlf_def)

lemma players_value:
  assumes "names_ok st"
  shows "(case hg_players_json room except 900 st of (n, ps) \<Rightarrow> if n < 0 then ''[]'' else ps) =
    render (if length (render (present_json room except st)) < 900 then present_json room except st else JArr [])"
  using players_json_exact_core [OF assms, of 900 room except]
  by (cases "hg_players_json room except 900 st") (auto simp: Let_def split: if_splits)

lemma plain_cells_queue [simp]: "plain_cells (sess (hg_queue a d st) b) = plain_cells (sess st b)"
  by (simp add: plain_cells_def)

lemma hg_queue_names_ok [simp]: "names_ok (hg_queue a d st) = names_ok st"
  by (simp add: names_ok_def)

lemma present_json_queue [simp]: "present_json room except (hg_queue a d st) = present_json room except st"
  by (rule present_json_cong) simp_all

lemma emit_vitals_refines:
  assumes "json_plain r" and "r \<noteq> []" and "length r \<le> 20" and "cells_ok (sess st a)" and "plain_cells (sess st a)"
  shows "hg_emit_vitals_now a (Some r) st =
    hg_queue a (Some (event_line ''char.vitals'' (vitals_json (sess st a) r))) st"
proof -
  have r: "nonempty_or (Some r) ''nexus'' = r" and pos: "json_plain (s_position (sess st a))"
    using assms by (simp_all add: nonempty_or_def plain_cells_def)
  have "length (event_line ''char.vitals'' (vitals_json (sess st a) r)) < SCRATCH"
    using vitals_length [OF assms(1) pos assms(4)] assms(3) by (simp add: SCRATCH_def)
  then show ?thesis
    using assms(1) pos
    by (simp add: hg_emit_vitals_now_def vitals_refines r queue_event_line del: render.simps)
qed

lemma emit_affects_refines:
  assumes "cells_ok (sess st a)" and "plain_cells (sess st a)"
  shows "hg_emit_affects_now a st = hg_queue a (Some (event_line ''char.affects'' (affects_json (sess st a)))) st"
proof -
  have p: "json_plain (s_faction (sess st a))" "json_plain (s_race (sess st a))"
    using assms(2) by (simp_all add: plain_cells_def)
  have "length (event_line ''char.affects'' (affects_json (sess st a))) < SCRATCH"
    using affects_length [OF p assms(1)] by (simp add: SCRATCH_def)
  then show ?thesis by (simp add: hg_emit_affects_now_def affects_refines p queue_event_line del: render.simps)
qed

lemma emit_world_refines:
  "hg_emit_world_now a tick (Some ''day'') st = hg_queue a (Some (event_line ''world.state''
     (JObj [(''tick'', JInt (sint tick)), (''phase'', JStr ''day''), (''weather'', JStr ''clear'')]))) st"
proof -
  have p: "json_plain ''day''" by (simp add: esc_rep_def)
  have "length (event_line ''world.state''
     (JObj [(''tick'', JInt (sint tick)), (''phase'', JStr ''day''), (''weather'', JStr ''clear'')])) < SCRATCH"
    using length_int_dec_i64 [of tick] by (simp add: SCRATCH_def event_templates)
  with p show ?thesis
    by (simp add: hg_emit_world_now_def world_state_refines or_default_def queue_event_line del: render.simps)
qed

lemma live_mobs_render:
  assumes "unat room < 28"
  shows "or_default (hg_room_live_mobs (rat_alive st) room) ''[]'' = render (live_mobs_value st room) \<and>
    length (render (live_mobs_value st room)) < 60"
proof -
  obtain t where "hg_room_live_mobs (rat_alive st) room = Some t" "parses t" "length t < 60"
    using rooms_ok [OF assms] rat_mobs_ok assms
    by (cases "room = 6 \<and> rat_alive st \<noteq> 0")
       (auto simp: hg_room_live_mobs_def hg_room_mobs_def room_field_def ROOM_COUNT_def room_ok_def)
  then show ?thesis by (simp add: live_mobs_value_def or_default_def parses_def)
qed

lemma queue_room_info:
  assumes room: "unat room < 28" and ps: "length (render ps) < 900"
  shows "queue_event a (hg_fmt_room_info SCRATCH (hg_room_id room) (hg_room_name room) (hg_room_exits room)
      (hg_room_live_mobs (rat_alive w) room) (Some (render ps))) st =
    hg_queue a (Some (event_line ''room.info'' (room_info_json room (live_mobs_value w room) ps))) st"
proof -
  let ?r = "rooms ! unat room"
  have ok: "room_ok ?r" using room by (rule rooms_ok)
  note mobs = live_mobs_render [OF room, of w]
  have fields: "hg_room_id room = Some (r_id ?r)" "hg_room_name room = Some (r_name ?r)"
    "hg_room_exits room = Some (r_exits ?r)"
    using room by (simp_all add: hg_room_id_def hg_room_name_def hg_room_exits_def room_field_def ROOM_COUNT_def)
  have eq: "hg_fmt_room_info cap (hg_room_id room) (hg_room_name room) (hg_room_exits room)
      (hg_room_live_mobs (rat_alive w) room) (Some (render ps)) =
    snprintf cap (event_line ''room.info'' (room_info_json room (live_mobs_value w room) ps))" for cap
    using ok mobs unfolding fields room_info_json_def Let_def
    by (subst room_info_refines [where jex = "text_value (r_exits ?r)" and jmo = "live_mobs_value w room" and jpl = ps])
       (simp_all add: or_default_def room_ok_def parses_def)
  have "length (event_line ''room.info'' (room_info_json room (live_mobs_value w room) ps)) < SCRATCH"
    using ok mobs ps by (simp add: room_info_json_def room_ok_def parses_def SCRATCH_def event_templates)
  then show ?thesis by (simp add: eq queue_event_line del: render.simps)
qed

lemma actions_event_fits:
  "length (render v) \<le> 1200 \<Longrightarrow> length (event_line ''room.actions'' (JObj [(''actions'', v)])) < SCRATCH"
  by (simp add: SCRATCH_def event_line_def jquote_def json_esc_def esc_char_def esc_rep_def)

lemma queue_room_actions:
  assumes "unat (s_room (sess st a)) < 28" and "strlen_keeps_rsi kept"
  shows "queue_event b (hg_fmt_room_actions SCRATCH (Some (scene_actions kept (sess st a)))) w =
    hg_queue b (Some (event_line ''room.actions'' (JObj [(''actions'',
      if menu (sess st a) \<noteq> [] then JArr (map action_json (menu (sess st a)))
      else text_value (r_actions (rooms ! unat (s_room (sess st a)))))]))) w"
proof -
  let ?v = "if menu (sess st a) \<noteq> [] then JArr (map action_json (menu (sess st a)))
      else text_value (r_actions (rooms ! unat (s_room (sess st a))))"
  note acts = scene_actions_refines [OF assms]
  then have "or_default (Some (scene_actions kept (sess st a))) ''[]'' = render ?v" by (simp add: or_default_def)
  note eq = room_actions_refines [OF this]
  have "length (event_line ''room.actions'' (JObj [(''actions'', ?v)])) < SCRATCH"
    by (rule actions_event_fits) (rule acts [THEN conjunct2, unfolded acts [THEN conjunct1]])
  then show ?thesis by (simp add: eq queue_event_line del: render.simps)
qed

lemma queue_cache:
  assumes "unat (s_room (sess st a)) < 28"
  shows "hg_announce_cache_now a st = queue_all a (cache_messages a st) st"
proof -
  let ?room = "s_room (sess st a)"
  let ?gold = "cache_gold st ! unat ?room"
  have "int (unat ?room) < int 28" using assms by (simp only: of_nat_less_iff)
  moreover have "uint ?room = int (unat ?room)" by simp
  ultimately have lt: "uint ?room < 28" by linarith
  moreover have "- (2 ^ (LENGTH(64) - 1)) \<le> uint ?room" by (rule order_trans [OF _ uint_ge_0]) simp
  ultimately have "sint ?room = uint ?room" unfolding sint_uint by (intro signed_take_bit_int_eq_self) simp_all
  then have room: "sint ?room = int (unat ?room)" by simp
  then have guard: "\<not> (?room <s 0 \<or> 64 \<le>s ?room)" using lt by (simp add: word_sless_alt word_sle_eq)
  have ev: "cache_event ?gold = event_line ''node.cache'' (JObj [(''gold'', JInt (sint ?gold))])"
    by (simp add: cache_event_def event_templates)
  have "length (cache_line ?gold) < 160" "length (cache_event ?gold) < 80" "nul_free (cache_line ?gold)"
    "nul_free (cache_event ?gold)"
    using length_int_dec_i64 [of ?gold] by (simp_all add: cache_line_def cache_event_def crlf_def)
  then show ?thesis
    using guard by (simp add: hg_announce_cache_now_def Let_def room cache_messages_def hg_queue_cstr_Some snprintf_fits
        hg_queue_line_eq SCRATCH_def word_sle_eq ev [symmetric] linorder_not_le)
qed

lemma cache_messages_queue [simp]: "cache_messages a (hg_queue b d st) = cache_messages a st"
  by (simp add: cache_messages_def)

lemma live_mobs_value_queue [simp]: "live_mobs_value (hg_queue b d st) room = live_mobs_value st room"
  by (simp add: live_mobs_value_def)

lemma players_len: "length (render (if length (render ps) < 900 then ps else JArr [])) < 900"
  by simp



end
