(* ===== verification/Rolls.thy ===== *)
theory Rolls
  imports Emit
begin

text \<open>
  The emitters of \<^verbatim>\<open>ffi/format.c\<close> that list rows of the hub: who is on the Grid, the
  rolls of the rescued and the fallen, the ledger's statistics and its pruning, and a cast to everyone.  Four of
  them build their JSON array by \<^verbatim>\<open>o += snprintf(json + o, sizeof(json) - o, ...)\<close> without
  a look at \<open>o\<close>; a write past the array is a value of its own here (\<open>Out_of_bounds\<close>).
\<close>

section \<open>Unchecked accumulation\<close>

text \<open>The offset and the text up to its NUL.  An item that does not fit is cut by \<^verbatim>\<open>snprintf\<close> but
  counted in full; with the offset past the end the remaining size wraps to a huge one, and the write is out of
  bounds.\<close>

definition put_item :: "nat \<Rightarrow> nat \<times> string \<Rightarrow> string \<Rightarrow> mem_error + nat \<times> string" where
  "put_item cap acc s = (case acc of (off, tx) \<Rightarrow>
     if cap < off then Inl (Out_of_bounds (off + length s + 1) cap)
     else Inr (off + length s, tx @ take (cap - off - 1) s))"

definition close_array :: "nat \<Rightarrow> nat \<times> string \<Rightarrow> mem_error + string" where
  "close_array cap acc = (case acc of (off, tx) \<Rightarrow>
     if off + 2 \<le> cap then Inr (tx @ '']'') else Inl (Out_of_bounds (off + 2) cap))"

text \<open>The loop over the rows; \<open>say\<close> is what it queues for each of them.\<close>

fun roll_loop :: "nat \<Rightarrow> ('r \<Rightarrow> 's \<Rightarrow> 's) \<Rightarrow> (nat \<Rightarrow> 'r \<Rightarrow> string) \<Rightarrow> nat \<Rightarrow> 'r list \<Rightarrow> nat \<times> string \<Rightarrow> 's
    \<Rightarrow> mem_error + (nat \<times> string) \<times> 's" where
  "roll_loop cap say item i [] acc st = Inr (acc, st)"
| "roll_loop cap say item i (r # rs) acc st =
     ebind (put_item cap acc (item i r)) (\<lambda>acc. roll_loop cap say item (Suc i) rs acc (say r st))"

definition roll :: "nat \<Rightarrow> ('r \<Rightarrow> 's \<Rightarrow> 's) \<Rightarrow> (nat \<Rightarrow> 'r \<Rightarrow> string) \<Rightarrow> 'r list \<Rightarrow> 's \<Rightarrow> mem_error + string \<times> 's" where
  "roll cap say item rs st =
     ebind (roll_loop cap say item 0 rs (1, ''['') st) (\<lambda>(acc, st).
     ebind (close_array cap acc) (\<lambda>json. Inr (json, st)))"

definition esc :: "nat \<Rightarrow> string \<Rightarrow> string" where
  "esc cap s = snd (hg_json_escape cap (Some s))"

section \<open>The rolls\<close>

definition saved_line :: "rescued_row \<Rightarrow> string" where
  "saved_line r = snd (snprintf 160 (sprintf [L ''  - '', S (rs_name r), L '', freed by '', S (rs_by r)]))"

definition saved_item :: "nat \<Rightarrow> rescued_row \<Rightarrow> string" where
  "saved_item i r = sprintf [S (comma_at i), L ''{\"world\":\"'', S (esc 48 (rs_world r)), L ''\",\"name\":\"'',
     S (esc 40 (rs_name r)), L ''\",\"savedBy\":\"'', S (esc 40 (rs_by r)), L ''\",\"at\":'', NI (rs_at r), L ''}'']"

definition no_saved :: string where
  "no_saved = ''No one has been pulled from the cages yet, or the Grid has '' @
     ''forgotten. Find the Front's cages and change that.''"

definition hg_emit_saved_roll_now ::
  "('j, 'w) env \<Rightarrow> addr \<Rightarrow> 'w grid \<Rightarrow> 'a store_scheme \<Rightarrow> (mem_error + 'a store_scheme) \<times> 'w grid" where
  "hg_emit_saved_roll_now env a g st =
     (let ((_, rows), g) = hg_grid_recent_rescued env 12 12 g
      in (if rows = [] then Inr (hg_queue_line a (Some no_saved) st)
          else ebind (roll 1200 (\<lambda>r. hg_queue_line a (Some (saved_line r))) saved_item rows
                  (hg_queue_line a (Some ''The Grid keeps these, pulled back out of the cages:'') st)) (\<lambda>(json, st).
               Inr (hg_queue_cstr a (Some (snd (snprintf 1400 (sprintf
                 [L ''@event grid.rescued_roll {\"rescued\":'', S json, L ''}'', L crlf])))) st)), g))"

definition fallen_line :: "fallen_row \<Rightarrow> string" where
  "fallen_line r = snd (snprintf 160 (sprintf [L ''  '', S (fl_name r), L ''  -- fell at '', S (fl_room r)]))"

definition fallen_item :: "nat \<Rightarrow> fallen_row \<Rightarrow> string" where
  "fallen_item i r = sprintf [S (comma_at i), L ''{\"name\":\"'', S (esc 40 (fl_name r)), L ''\",\"world\":\"'',
     S (esc 48 (fl_world r)), L ''\",\"room\":\"'', S (esc 40 (fl_room r)), L ''\",\"at\":'', NI (fl_at r), L ''}'']"

definition emit_fallen_roll :: "addr \<Rightarrow> fallen_row list \<Rightarrow> 'a store_scheme \<Rightarrow> mem_error + 'a store_scheme" where
  "emit_fallen_roll a fallen st =
     (let st = (if fallen = [] then
            hg_queue_line a (Some (''The roll is empty for now. No one the Grid remembers has '' @
              ''fallen lately; may it stay that way.'')) st
          else fold (\<lambda>r. hg_queue_line a (Some (fallen_line r))) fallen
            (hg_queue_line a (Some (''The Grid remembers these fallen. Speak a name to keep '' @
              ''them:  (witness <name>)'')) st))
      in ebind (roll 1200 (\<lambda>_ st. st) fallen_item fallen st) (\<lambda>(json, st).
         Inr (hg_queue_cstr a (Some (snd (snprintf 1400 (sprintf
           [L ''@event grid.fallen {\"fallen\":'', S json, L ''}'', L crlf])))) st)))"

definition hg_emit_fallen_roll_now ::
  "('j, 'w) env \<Rightarrow> addr \<Rightarrow> 'w grid \<Rightarrow> 'a store_scheme \<Rightarrow> (mem_error + 'a store_scheme) \<times> 'w grid" where
  "hg_emit_fallen_roll_now env a g st =
     (let ((rc, rows), g) = hg_grid_recent_fallen env 12 12 g
      in (emit_fallen_roll a (if rc \<noteq> 0 then [] else rows) st, g))"

section \<open>The ledger\<close>

text \<open>The C sum is of 32-bit \<^verbatim>\<open>int\<close>s.\<close>

definition ledger_total :: "ledger_row list \<Rightarrow> i32" where
  "ledger_total rows = fold (\<lambda>r t. t + lr_count r) rows 0"

definition kind_item :: "nat \<Rightarrow> ledger_row \<Rightarrow> string" where
  "kind_item i r = sprintf [S (comma_at i), L ''{\"kind\":\"'', S (esc 40 (lr_kind r)), L ''\",\"count\":'',
     I (sint (lr_count r)), L ''}'']"

definition kind_line :: "ledger_row \<Rightarrow> string" where
  "kind_line r = snd (snprintf 160 (sprintf [L ''  '', S (pad_right 10 32 (lr_kind r)), L '' '', I (sint (lr_count r))]))"

definition hg_emit_gridstats_cmd_now ::
  "('j, 'w) env \<Rightarrow> addr \<Rightarrow> 'w grid \<Rightarrow> 'a store_scheme \<Rightarrow> (mem_error + 'a store_scheme) \<times> 'w grid" where
  "hg_emit_gridstats_cmd_now env a g st =
     (let ((rc, rows), g) = hg_grid_ledger_stats env 32 g
      in (if rc \<noteq> 0 then
            Inr (hg_queue_line a (Some ''The hub is unreachable; the deep memory cannot be read.'') st)
          else ebind (roll 800 (\<lambda>_ st. st) kind_item rows st) (\<lambda>(kinds, st).
               let total = sint (ledger_total rows);
                   st = hg_queue_cstr a (Some (snd (snprintf 900 (sprintf
                     [L ''@event grid.ledger_stats {\"total\":'', I total, L '',\"kinds\":'', S kinds, L ''}'', L crlf])))) st;
                   st = hg_queue_line a (Some (snd (snprintf 160 (sprintf
                     [L ''The Grid ledger holds '', I total, L '' trace(s):''])))) st
               in Inr (fold (\<lambda>r. hg_queue_line a (Some (kind_line r))) rows st)), g))"

definition hg_emit_gridprune_cmd_now ::
  "('j, 'w) env \<Rightarrow> addr \<Rightarrow> 'w grid \<Rightarrow> 'a store_scheme \<Rightarrow> (mem_error + 'a store_scheme) \<times> 'w grid" where
  "hg_emit_gridprune_cmd_now env a g st =
     (let unreachable_line = hg_queue_line a (Some ''The hub is unreachable; the deep memory cannot be tended.'') st;
          ((rc, before_rows), g) = hg_grid_ledger_stats env 32 g
      in if rc \<noteq> 0 then (Inr unreachable_line, g)
         else let before = sint (ledger_total before_rows); (pruned, g) = hg_grid_prune_ledger env g
           in case pruned of
                None \<Rightarrow> (Inr unreachable_line, g)
              | Some removed \<Rightarrow>
                  let ((rc, rows), g) = hg_grid_ledger_stats env 32 g;
                      after_rows = (if rc \<noteq> 0 then [] else rows);
                      after = sint (ledger_total after_rows)
                  in (ebind (roll 800 (\<lambda>_ st. st) kind_item after_rows st) (\<lambda>(kinds, st).
                        let st = hg_queue_cstr a (Some (snd (snprintf 960 (sprintf
                              [L ''@event grid.ledger_pruned {\"removed\":'', I (sint removed), L '',\"before\":'', I before,
                               L '',\"after\":'', I after, L '',\"kinds\":'', S kinds, L ''}'', L crlf])))) st;
                            st = hg_queue_line a (Some (snd (snprintf 160 (sprintf
                              [L ''Pruned '', I (sint removed), L '' ambient trace(s) (ghost, passage, recall).''])))) st
                        in Inr (hg_queue_line a (Some (snd (snprintf 160 (sprintf
                              [L ''The ledger went from '', I before, L '' to '', I after,
                               L '' trace(s); only meaningful memory remains.''])))) st)), g))"

section \<open>When a roll stays inside its array\<close>

fun items :: "(nat \<Rightarrow> 'r \<Rightarrow> string) \<Rightarrow> nat \<Rightarrow> 'r list \<Rightarrow> string" where
  "items item i [] = []"
| "items item i (r # rs) = item i r @ items item (Suc i) rs"

lemma roll_loop_fits:
  "length tx + length (items item i rs) < cap \<Longrightarrow>
     roll_loop cap say item i rs (length tx, tx) st =
       Inr ((length tx + length (items item i rs), tx @ items item i rs), fold say rs st)"
proof (induction rs arbitrary: i tx st)
  case (Cons r rs)
  then have "put_item cap (length tx, tx) (item i r) = Inr (length (tx @ item i r), tx @ item i r)"
    by (simp add: put_item_def)
  with Cons.IH [of "tx @ item i r" "Suc i" "say r st"] Cons.prems show ?case by (simp add: add.assoc)
qed simp

lemma roll_loop_over:
  "cap < off + length (items item i rs) + 2 \<Longrightarrow>
     \<exists>n. ebind (roll_loop cap say item i rs (off, tx) st) (\<lambda>(acc, st). ebind (close_array cap acc) (\<lambda>json. Inr (json, st))) =
       Inl (Out_of_bounds n cap)"
proof (induction rs arbitrary: i off tx st)
  case Nil
  then show ?case by (simp add: close_array_def)
next
  case (Cons r rs)
  show ?case
  proof (cases "cap < off")
    case True
    then show ?thesis by (simp add: put_item_def)
  next
    case False
    have "cap < (off + length (item i r)) + length (items item (Suc i) rs) + 2" using Cons.prems by simp
    from Cons.IH [OF this] False show ?thesis by (simp add: put_item_def)
  qed
qed

text \<open>The array is whole exactly when it fits with its NUL; otherwise the loop writes past it.\<close>

lemma roll_fits:
  assumes "length (items item 0 rs) + 2 < cap"
  shows "roll cap say item rs st = Inr (CHR ''['' # items item 0 rs @ '']'', fold say rs st)"
  using roll_loop_fits [of "''[''" item 0 rs cap say st] assms by (simp add: roll_def close_array_def)

lemma roll_over:
  assumes "cap \<le> length (items item 0 rs) + 2"
  shows "\<exists>n. roll cap say item rs st = Inl (Out_of_bounds n cap)"
  using roll_loop_over [of cap 1 item 0 rs say "''[''" st] assms by (simp add: roll_def)

lemma roll_items_commas:
  assumes "\<And>i r. r \<in> set rs \<Longrightarrow> item i r = comma_at i @ f r"
  shows "items item 0 rs = commas (map f rs)"
proof -
  have later: "items item (Suc i) rs' = concat (map (\<lambda>z. CHR '','' # z) (map f rs'))"
    if "set rs' \<subseteq> set rs" for i rs'
    using that assms by (induction rs' arbitrary: i) (simp_all add: comma_at_def)
  show ?thesis
    using assms later by (cases rs) (auto simp: commas_def comma_at_def)
qed

lemma esc_plain: "json_plain s \<Longrightarrow> length s < cap \<Longrightarrow> esc cap s = s"
  by (simp add: esc_def hg_json_escape_fits json_plain_nul_free)

definition saved_json :: "rescued_row \<Rightarrow> jval" where
  "saved_json r = JObj [(''world'', JStr (rs_world r)), (''name'', JStr (rs_name r)), (''savedBy'', JStr (rs_by r)),
     (''at'', JInt (sint (rs_at r)))]"

definition saved_plain :: "rescued_row \<Rightarrow> bool" where
  "saved_plain r \<longleftrightarrow> json_plain (rs_world r) \<and> json_plain (rs_name r) \<and> json_plain (rs_by r) \<and>
     length (rs_world r) < 48 \<and> length (rs_name r) < 33 \<and> length (rs_by r) < 33"

lemma saved_item_refines: "saved_plain r \<Longrightarrow> saved_item i r = comma_at i @ render (saved_json r)"
  by (simp add: saved_item_def saved_plain_def esc_plain saved_json_def event_templates)

lemma saved_line_refines:
  "saved_plain r \<Longrightarrow> hg_queue_line a (Some (saved_line r)) st =
     hg_queue a (Some (''  - '' @ rs_name r @ '', freed by '' @ rs_by r @ crlf)) st"
  by (simp add: saved_plain_def saved_line_def snprintf_fits hg_queue_line_eq SCRATCH_def json_plain_nul_free)

definition saved_messages :: "rescued_row list \<Rightarrow> string list" where
  "saved_messages rows = (''The Grid keeps these, pulled back out of the cages:'' @ crlf) #
     map (\<lambda>r. ''  - '' @ rs_name r @ '', freed by '' @ rs_by r @ crlf) rows @
     [event_line ''grid.rescued_roll'' (JObj [(''rescued'', JArr (map saved_json rows))])]"

lemma fold_queue_line:
  assumes "\<And>r st. r \<in> set rs \<Longrightarrow> say r st = hg_queue a (Some (f r)) st"
  shows "fold say rs st = queue_all a (map f rs) st"
  using assms by (induction rs arbitrary: st) simp_all

lemma emit_saved_rows:
  assumes "fst (hg_grid_recent_rescued env 12 12 g) = (rc, rows)" and "rows \<noteq> []"
  shows "fst (hg_emit_saved_roll_now env a g st) =
      ebind (roll 1200 (\<lambda>r. hg_queue_line a (Some (saved_line r))) saved_item rows
         (hg_queue_line a (Some ''The Grid keeps these, pulled back out of the cages:'') st)) (\<lambda>(json, st).
       Inr (hg_queue_cstr a (Some (snd (snprintf 1400 (sprintf
         [L ''@event grid.rescued_roll {\"rescued\":'', S json, L ''}'', L crlf])))) st))"
  using assms by (simp add: hg_emit_saved_roll_now_def case_prod_beta)

lemma emit_saved_over:
  assumes "fst (hg_grid_recent_rescued env 12 12 g) = (rc, rows)" and "rows \<noteq> []"
    and "1200 \<le> length (items saved_item 0 rows) + 2"
  shows "\<exists>n. fst (hg_emit_saved_roll_now env a g st) = Inl (Out_of_bounds n 1200)"
  using roll_over [OF assms(3)] unfolding emit_saved_rows [OF assms(1,2)] by (metis ebind_simps(1))

text \<open>C20. The roll of the rescued is safe exactly when it fits: for the rows a hub gave (with plain names), the
  emitter queues the headline, a line for every row and the event with the whole array, if the rendered array
  is shorter than the 1200 bytes of the buffer; if it is not, the loop writes outside of the buffer.\<close>

theorem saved_roll_safe_iff:
  fixes st :: "'a store_scheme"
  assumes rows: "fst (hg_grid_recent_rescued env 12 12 g) = (rc, rows)" and some: "rows \<noteq> []"
    and plain: "list_all saved_plain rows"
  shows "if length (render (JArr (map saved_json rows))) < 1200
    then fst (hg_emit_saved_roll_now env a g st) = Inr (queue_all a (saved_messages rows) st)
    else (\<exists>n. fst (hg_emit_saved_roll_now env a g st) = Inl (Out_of_bounds n 1200))"
proof -
  have its: "items saved_item 0 rows = commas (map (render \<circ> saved_json) rows)"
    using plain by (intro roll_items_commas) (simp add: list_all_iff saved_item_refines)
  have lines: "fold (\<lambda>r. hg_queue_line a (Some (saved_line r))) rows w =
      queue_all a (map (\<lambda>r. ''  - '' @ rs_name r @ '', freed by '' @ rs_by r @ crlf) rows) w" for w :: "'a store_scheme"
    using plain by (intro fold_queue_line) (simp add: list_all_iff saved_line_refines)
  note emit = emit_saved_rows [OF rows some]
  show ?thesis
  proof (cases "length (render (JArr (map saved_json rows))) < 1200")
    case False
    then have "1200 \<le> length (items saved_item 0 rows) + 2" by (simp add: its)
    from emit_saved_over [OF rows some this] False show ?thesis by simp
  next
    case True
    let ?ev = "event_line ''grid.rescued_roll'' (JObj [(''rescued'', JArr (map saved_json rows))])"
    from True have "length (items saved_item 0 rows) + 2 < 1200" by (simp add: its)
    note fits = roll_fits [OF this]
    have ev: "sprintf [L ''@event grid.rescued_roll {\"rescued\":'', S (CHR ''['' # items saved_item 0 rows @ '']''),
        L ''}'', L crlf] = ?ev"
      by (simp add: its event_templates)
    have "length ?ev < 1400" using True by (simp add: event_templates)
    then have last: "hg_queue_cstr a (Some (snd (snprintf 1400 ?ev))) w = hg_queue a (Some ?ev) w"
      for w :: "'a store_scheme" by (simp add: queue_snprintf del: render.simps)
    have headline: "hg_queue_line a (Some ''The Grid keeps these, pulled back out of the cages:'') w =
        hg_queue a (Some (''The Grid keeps these, pulled back out of the cages:'' @ crlf)) w" for w :: "'a store_scheme"
      by (simp add: hg_queue_line_def SCRATCH_def)
    show ?thesis
      using True unfolding emit fits by (simp only: ebind_simps case_prod_conv ev last headline lines)
        (simp add: saved_messages_def queue_all_append)
  qed
qed

definition local_grid :: "local_hub \<Rightarrow> unit grid" where
  "local_grid h = (remote_grid ())\<lparr>g_remote := False, g_curl := False, g_local := h\<rparr>"

lemma recent_rescued_live:
  "fst (hg_grid_recent_rescued env 12 12 (local_grid h)) =
     (0, map (\<lambda>r. \<lparr>rs_world = copy_cap 48 (rs_world r), rs_name = copy_cap 33 (rs_name r), rs_by = copy_cap 33 (rs_by r),
       rs_at = rs_at r\<rparr>) (take 12 (rescues h)))"
  by (simp add: hg_grid_recent_rescued_def local_grid_def hg_grid_local_recent_rescued_def recent_count_def Let_def
      rescues_def live_def min_def)

definition rescue :: "string \<Rightarrow> string \<Rightarrow> local_hub \<Rightarrow> local_hub" where
  "rescue name by' = hg_grid_local_record_rescued 1 (Some ''Basalt Relay'') (Some name) (Some by') 1"

lemma rescues_rescue:
  assumes "length name < 33" and "length by' < 33"
  shows "hub_ok ((rescue name by' ^^ n) hg_grid_local_clear) \<and>
    rescues ((rescue name by' ^^ n) hg_grid_local_clear) =
      take GL_MAX_RESCUED (replicate n \<lparr>rs_world = ''Basalt Relay'', rs_name = name, rs_by = by', rs_at = 1\<rparr>)"
proof (induction n)
  case 0
  have "rescues hg_grid_local_clear = []" by (simp add: rescues_def live_def hg_grid_local_clear_def)
  then show ?case by simp
next
  case (Suc n)
  let ?h = "(rescue name by' ^^ n) hg_grid_local_clear"
  have ok: "hub_ok ?h" using Suc.IH by blast
  have take_Cons_take: "take k (x # replicate (min k m) x) = take k (x # replicate m x)" for k m and x :: rescued_row
    by (cases k) simp_all
  show ?case
    using record_rescued_effect(1,2) [OF ok, of 1 "Some ''Basalt Relay''" "Some name" "Some by'" 1] Suc.IH assms
    by (simp add: rescue_def cut_def copy_cap_id or_default_def stamp_def take_Cons_take)
qed

theorem saved_roll_safe_iff_witness:
  "fst (hg_emit_saved_roll_now dead_env 7 (local_grid (rescue ''Mox'' ''Ash'' hg_grid_local_clear)) one_player) =
     Inr (queue_all 7 (saved_messages [\<lparr>rs_world = ''Basalt Relay'', rs_name = ''Mox'', rs_by = ''Ash'', rs_at = 1\<rparr>]) one_player)"
proof -
  let ?r = "\<lparr>rs_world = ''Basalt Relay'', rs_name = ''Mox'', rs_by = ''Ash'', rs_at = 1\<rparr>"
  have "rescues (rescue ''Mox'' ''Ash'' hg_grid_local_clear) = [?r]"
    using rescues_rescue [of "''Mox''" "''Ash''" 1] by (simp add: GL_MAX_RESCUED_def)
  then have rows: "fst (hg_grid_recent_rescued dead_env 12 12 (local_grid (rescue ''Mox'' ''Ash'' hg_grid_local_clear))) =
      (0, [?r])"
    by (simp add: recent_rescued_live copy_cap_def)
  have "length (render (JArr (map saved_json [?r]))) < 1200"
    using length_int_dec_i64 [of 1] by (simp add: saved_json_def jquote_def commas_def json_esc_def esc_char_def esc_rep_def)
  with saved_roll_safe_iff [OF rows, of 7 one_player] show ?thesis
    by (simp add: saved_plain_def esc_rep_def del: render.simps)
qed

section \<open>Rolls that do not fit\<close>

lemma length_items_ge: "(\<And>i r. r \<in> set rs \<Longrightarrow> k \<le> length (item i r)) \<Longrightarrow> k * length rs \<le> length (items item i rs)"
proof (induction rs arbitrary: i)
  case (Cons r rs)
  then have "k \<le> length (item i r)" "k * length rs \<le> length (items item (Suc i) rs)" by simp_all
  then show ?case by simp
qed simp

lemma collect_replicate:
  "collect cap (\<lambda>x. Some (f x)) (replicate n x) out = out @ replicate (min n (cap - length out)) (f x)"
proof (induction n arbitrary: out)
  case (Suc n)
  then show ?case by (cases "cap - length out") (auto simp: replicate_app_Cons_same)
qed simp

lemma hostile_fetch:
  "fst (fetch_rows hostile_env meth params cap (Some \<circ> f) (remote_grid ())) = Some (replicate (min 100 cap) (f ()))"
  by (simp add: fetch_rows_def rpc_call_def remote_grid_def hostile_env_def Let_def comp_def
      collect_replicate)

lemma esc_xs [simp]: "n < cap \<Longrightarrow> esc cap (replicate n (CHR ''x'')) = replicate n (CHR ''x'')"
  by (rule esc_plain) (auto simp: json_plain_def esc_rep_def)

lemma hostile_str: "safe_copy cap (Some (json_str hostile_env () key)) = replicate (min (cap - 1) 1000) (CHR ''x'')"
  by (simp add: safe_copy_take json_str_def hostile_env_def or_default_def take_replicate)

text \<open>The rolls can be driven past their arrays: twelve rescues whose names are as long as a name may be
  overflow the roll of the rescued on a local hub, and a remote hub that answers with rows as long as they may be
  overflows the roll of the fallen and the ledger statistics; in each case the emitter writes outside of its
  buffer on the stack.\<close>

lemma rolls_overrun:
  "(\<exists>n. fst (hg_emit_saved_roll_now env a (local_grid
       ((rescue (replicate 32 (CHR ''x'')) (replicate 32 (CHR ''x'')) ^^ 12) hg_grid_local_clear)) st) =
     Inl (Out_of_bounds n 1200)) \<and>
   (\<exists>n. fst (hg_emit_fallen_roll_now hostile_env a (remote_grid ()) st) = Inl (Out_of_bounds n 1200)) \<and>
   (\<exists>n. fst (hg_emit_gridstats_cmd_now hostile_env a (remote_grid ()) st) = Inl (Out_of_bounds n 800))"
proof (intro conjI)
  let ?x = "replicate 32 (CHR ''x'')"
  let ?h = "(rescue ?x ?x ^^ 12) hg_grid_local_clear"
  let ?r = "\<lparr>rs_world = ''Basalt Relay'', rs_name = ?x, rs_by = ?x, rs_at = 1\<rparr>"
  have "rescues ?h = replicate 12 ?r"
    using rescues_rescue [of ?x ?x 12] by (simp add: GL_MAX_RESCUED_def take_replicate)
  then have rows: "fst (hg_grid_recent_rescued env 12 12 (local_grid ?h)) = (0, replicate 12 ?r)"
    by (simp add: recent_rescued_live copy_cap_def take_replicate)
  have "100 \<le> length (saved_item i r)" if "r \<in> set (replicate 12 ?r)" for i r
    using that by (simp add: saved_item_def)
  then have "100 * length (replicate 12 ?r) \<le> length (items saved_item 0 (replicate 12 ?r))"
    by (rule length_items_ge)
  then have over: "1200 \<le> length (items saved_item 0 (replicate 12 ?r)) + 2" by simp
  show "\<exists>n. fst (hg_emit_saved_roll_now env a (local_grid ?h) st) = Inl (Out_of_bounds n 1200)"
    by (rule emit_saved_over [OF rows _ over]) simp
next
  let ?r = "remote_fallen hostile_env ()"
  have rows: "fst (hg_grid_recent_fallen hostile_env 12 12 (remote_grid ())) = (0, replicate 12 ?r)"
    by (simp add: hg_grid_recent_fallen_def remote_grid_def rows_status_def hostile_fetch [unfolded remote_grid_def])
  have r: "fl_name ?r = replicate 32 (CHR ''x'')" "fl_room ?r = replicate 31 (CHR ''x'')"
    "fl_world ?r = replicate 47 (CHR ''x'')"
    by (simp_all add: remote_fallen_def hostile_str)
  have "100 \<le> length (fallen_item i r)" if "r \<in> set (replicate 12 ?r)" for i r
    using that by (simp add: fallen_item_def r)
  then have "100 * length (replicate 12 ?r) \<le> length (items fallen_item 0 (replicate 12 ?r))"
    by (rule length_items_ge)
  then have over: "1200 \<le> length (items fallen_item 0 (replicate 12 ?r)) + 2" by simp
  have "\<exists>n. emit_fallen_roll a (replicate 12 ?r) st = Inl (Out_of_bounds n 1200)"
    unfolding emit_fallen_roll_def Let_def using roll_over [OF over] by (metis ebind_simps(1))
  then show "\<exists>n. fst (hg_emit_fallen_roll_now hostile_env a (remote_grid ()) st) = Inl (Out_of_bounds n 1200)"
    by (simp add: hg_emit_fallen_roll_now_def Let_def case_prod_beta rows)
next
  let ?r = "remote_ledger hostile_env ()"
  have rows: "fst (hg_grid_ledger_stats hostile_env 32 (remote_grid ())) = (0, replicate 32 ?r)"
    by (simp add: hg_grid_ledger_stats_def remote_grid_def rows_status_def hostile_fetch [unfolded remote_grid_def])
  have r: "lr_kind ?r = replicate 31 (CHR ''x'')" by (simp add: remote_ledger_def hostile_str)
  have "30 \<le> length (kind_item i r)" if "r \<in> set (replicate 32 ?r)" for i r
    using that by (simp add: kind_item_def r)
  then have "30 * length (replicate 32 ?r) \<le> length (items kind_item 0 (replicate 32 ?r))"
    by (rule length_items_ge)
  then have over: "800 \<le> length (items kind_item 0 (replicate 32 ?r)) + 2" by simp
  obtain n where "roll 800 (\<lambda>_ st. st) kind_item (replicate 32 ?r) st = Inl (Out_of_bounds n 800)"
    using roll_over [OF over, of "\<lambda>_ st. st" st] by blast
  then have "fst (hg_emit_gridstats_cmd_now hostile_env a (remote_grid ()) st) = Inl (Out_of_bounds n 800)"
    by (simp add: hg_emit_gridstats_cmd_now_def case_prod_beta rows)
  then show "\<exists>n. fst (hg_emit_gridstats_cmd_now hostile_env a (remote_grid ()) st) = Inl (Out_of_bounds n 800)" ..
qed

end
