(* ===== verification/Voices.thy ===== *)
theory Voices
  imports Rolls
begin

text \<open>
  Two emitters of \<^verbatim>\<open>ffi/format.c\<close> that reach over the whole Grid: the list of
  everyone online, here and on the other nodes, and a cast that every player of this node hears.
\<close>

section \<open>Who is on the Grid\<close>

text \<open>One player: world, name, regard, title.\<close>

type_synonym who = "string \<times> string \<times> string \<times> string"

definition who_entry :: "nat \<Rightarrow> nat \<Rightarrow> bool \<Rightarrow> bool \<Rightarrow> who \<Rightarrow> string option" where
  "who_entry rcap wcap here first = (\<lambda>(world, name, regard, title).
     let (n, nesc) = hg_json_escape 80 (Some name); (t, tesc) = hg_json_escape 80 (Some title);
         (r, resc) = hg_json_escape rcap (Some regard); (w, wesc) = hg_json_escape wcap (Some world)
     in if n < 0 \<or> t < 0 \<or> r < 0 \<or> w < 0 then None
        else Some (sprintf [S (if first then [] else '',''), L ''{\"world\":\"'', S wesc, L ''\",\"name\":\"'', S nesc,
          L ''\",\"regard\":\"'', S resc, L ''\",\"here\":'', S (fmt_bool here), L '',\"title\":\"'', S tesc, L ''\"}'']))"

text \<open>A player whose escapes do not fit is passed over; the loop ends at the first one that does not fit the
  array, leaving the offset where it was.\<close>

fun who_loop :: "nat \<Rightarrow> nat \<Rightarrow> nat \<Rightarrow> bool \<Rightarrow> who list \<Rightarrow> string \<times> bool \<Rightarrow> string \<times> bool" where
  "who_loop cap rcap wcap here [] st = st"
| "who_loop cap rcap wcap here (p # ps) (buf, first) =
     (case who_entry rcap wcap here first p of
        None \<Rightarrow> who_loop cap rcap wcap here ps (buf, first)
      | Some item \<Rightarrow>
          if cap - length buf \<le> length item then (buf, first)
          else who_loop cap rcap wcap here ps (buf @ item, False))"

definition local_who :: "string \<Rightarrow> 'a wstate_scheme \<Rightarrow> who list" where
  "local_who world st = map (\<lambda>s. (world, s_name s, hg_regard_of s, s_title s))
     (filter (\<lambda>s. s_name s \<noteq> []) (map (sess st) (players (table st))))"

definition remote_who :: "string \<Rightarrow> presence_row list \<Rightarrow> who list" where
  "remote_who world rows = map (\<lambda>r. (pr_world r, pr_name r, pr_regard r, pr_title r))
     (filter (\<lambda>r. pr_name r \<noteq> [] \<and> pr_world r \<noteq> world) rows)"

definition hg_emit_grid_who_now ::
  "('j, 'w) env \<Rightarrow> addr \<Rightarrow> 'w grid \<Rightarrow> 'a wstate_scheme \<Rightarrow> 'a wstate_scheme \<times> 'w grid" where
  "hg_emit_grid_who_now env a g st =
     (let world = hg_grid_world_name g;
          acc = who_loop 2048 40 40 True (local_who world st) (''['', True);
          ((rc, rows), g) = hg_grid_presence env 30000 32 g;
          (buf, first) = (if rc = 0 then who_loop 2048 80 80 False (remote_who world rows) acc else acc);
          json = (if length buf + 2 < 2048 then buf @ '']'' else ''[]'');
          st = hg_queue_cstr a (Some (snd (snprintf 2200 (sprintf
                 [L ''@event grid.who {\"players\":'', S json, L ''}'', L crlf])))) st
      in (hg_queue_line a (Some (if first then ''No one else walks the wastes right now.''
                                 else ''Online: survivors walk the wastes.'')) st, g))"

definition who_json :: "bool \<Rightarrow> who \<Rightarrow> jval" where
  "who_json here = (\<lambda>(world, name, regard, title). JObj [(''world'', JStr world), (''name'', JStr name),
     (''regard'', JStr regard), (''here'', JBool here), (''title'', JStr title)])"

definition who_fits :: "nat \<Rightarrow> nat \<Rightarrow> who \<Rightarrow> bool" where
  "who_fits rcap wcap = (\<lambda>(world, name, regard, title).
     length (json_esc (cstr name)) < 80 \<and> length (json_esc (cstr title)) < 80 \<and>
     length (json_esc (cstr regard)) < rcap \<and> length (json_esc (cstr world)) < wcap)"

definition who_clean :: "who \<Rightarrow> who" where
  "who_clean = (\<lambda>(world, name, regard, title). (cstr world, cstr name, cstr regard, cstr title))"

lemma who_entry_eq:
  assumes "0 < rcap" and "0 < wcap"
  shows "who_entry rcap wcap here first p =
    (if who_fits rcap wcap p then Some ((if first then [] else '','') @ render (who_json here (who_clean p))) else None)"
proof -
  obtain w n r t where p: "p = (w, n, r, t)" by (cases p)
  show ?thesis
    using assms unfolding p
    by (simp add: who_entry_def hg_json_escape_spec Let_def or_default_def who_fits_def who_clean_def who_json_def)
       (simp add: jquote_def commas_def json_esc_def esc_char_def esc_rep_def)
qed

lemma who_loop_fits:
  assumes "0 < rcap" and "0 < wcap"
  shows "length (commas (map render (vs @ map (\<lambda>p. who_json here (who_clean p)) (filter (who_fits rcap wcap) ps)))) + 1 < cap \<Longrightarrow>
    who_loop cap rcap wcap here ps (CHR ''['' # commas (map render vs), vs = []) =
      (CHR ''['' # commas (map render (vs @ map (\<lambda>p. who_json here (who_clean p)) (filter (who_fits rcap wcap) ps))),
       vs = [] \<and> filter (who_fits rcap wcap) ps = [])"
proof (induction ps arbitrary: vs)
  case (Cons p ps)
  show ?case
  proof (cases "who_fits rcap wcap p")
    case False
    with Cons show ?thesis by (simp add: who_entry_eq [OF assms])
  next
    case True
    let ?v = "who_json here (who_clean p)"
    let ?item = "(if vs = [] then [] else '','') @ render ?v"
    have item: "commas (map render vs) @ ?item = commas (map render (vs @ [?v]))"
      by (cases "vs = []") (simp_all add: commas_snoc del: render.simps)
    have "length (commas (map render (vs @ [?v]))) \<le>
        length (commas (map render ((vs @ [?v]) @ map (\<lambda>p. who_json here (who_clean p)) (filter (who_fits rcap wcap) ps))))"
      unfolding map_append by (rule length_commas_append)
    then have "length (commas (map render vs) @ ?item) + 1 < cap"
      using Cons.prems True unfolding item by simp
    then have step: "who_loop cap rcap wcap here (p # ps) (CHR ''['' # commas (map render vs), vs = []) =
        who_loop cap rcap wcap here ps (CHR ''['' # commas (map render (vs @ [?v])), False)"
      unfolding item [symmetric] using True
      by (cases "vs = []") (auto simp: who_entry_eq [OF assms] simp del: render.simps)
    show ?thesis
      unfolding step using Cons.IH [of "vs @ [?v]"] Cons.prems True by (simp del: render.simps)
  qed
qed simp

text \<open>Who the list names: of the players here and of the rows from elsewhere, those whose texts fit their
  escape buffers.\<close>

definition who_shown :: "'w grid \<Rightarrow> 'a wstate_scheme \<Rightarrow> presence_row list \<Rightarrow> jval list" where
  "who_shown g st rows = (let world = hg_grid_world_name g in
     map (\<lambda>p. who_json True (who_clean p)) (filter (who_fits 40 40) (local_who world st)) @
     map (\<lambda>p. who_json False (who_clean p)) (filter (who_fits 80 80) (remote_who world rows)))"

lemma presence_failed: "fst (hg_grid_presence env age cap g) = (rc, rows) \<Longrightarrow> rc \<noteq> 0 \<Longrightarrow> rows = []"
  by (auto simp: hg_grid_presence_def rows_status_def split: if_splits option.splits)

definition who_prose :: "bool \<Rightarrow> string" where
  "who_prose nobody = (if nobody then ''No one else walks the wastes right now.'' else ''Online: survivors walk the wastes.'')"

lemma queue_who_prose: "hg_queue_line a (Some (who_prose b)) st = hg_queue a (Some (who_prose b @ crlf)) st"
  by (simp add: hg_queue_line_def SCRATCH_def who_prose_def)

lemma queue_who_event:
  assumes "length (commas (map render vs)) < 2045"
  shows "hg_queue_cstr a (Some (snd (snprintf 2200 (sprintf [L ''@event grid.who {\"players\":'',
      S (CHR ''['' # commas (map render vs) @ '']''), L ''}'', L crlf])))) st =
    hg_queue a (Some (event_line ''grid.who'' (JObj [(''players'', JArr vs)]))) st"
proof -
  let ?ev = "event_line ''grid.who'' (JObj [(''players'', JArr vs)])"
  have "sprintf [L ''@event grid.who {\"players\":'', S (CHR ''['' # commas (map render vs) @ '']''), L ''}'', L crlf] = ?ev"
    by (simp add: event_templates)
  moreover have "length ?ev < 2200" using assms by (simp add: event_templates)
  ultimately show ?thesis by (simp only: queue_snprintf nul_free_event_line) (simp add: queue_snprintf del: render.simps)
qed

text \<open>C26. The list of who is on the Grid is complete when it fits: it names, in table order, the players of this node
  marked as here, one entry for each connection in the registry that has a name, and then the rows the hub reports of
  other nodes, as often as it reports them; of both those whose texts fit their buffers, as one well formed event; and
  the prose says no one is there exactly when the list is empty.  A node whose name is longer than the buffer of 40
  lists none of its own players.\<close>

theorem grid_who_complete:
  assumes rows: "fst (hg_grid_presence env 30000 32 g) = (rc, rows)"
    and reg: "reg_ok st" and fits: "length (render (JArr (who_shown g st rows))) < 2047"
  shows "fst (hg_emit_grid_who_now env a g st) = queue_all a
     [event_line ''grid.who'' (JObj [(''players'', JArr (who_shown g st rows))]),
      who_prose (who_shown g st rows = []) @ crlf] st \<and>
    (40 \<le> length (json_esc (cstr (hg_grid_world_name g))) \<longrightarrow>
       who_shown g st rows = map (\<lambda>p. who_json False (who_clean p))
         (filter (who_fits 80 80) (remote_who (hg_grid_world_name g) rows))) \<and>
    (\<exists>bs. distinct bs \<and> set bs = {b \<in> members_of st. s_name (sess st b) \<noteq> []} \<and>
       local_who (hg_grid_world_name g) st =
         map (\<lambda>b. (hg_grid_world_name g, s_name (sess st b), hg_regard_of (sess st b), s_title (sess st b))) bs)"
proof (intro conjI)
  let ?w = "hg_grid_world_name g"
  let ?here = "map (\<lambda>p. who_json True (who_clean p)) (filter (who_fits 40 40) (local_who ?w st))"
  let ?there = "map (\<lambda>p. who_json False (who_clean p)) (filter (who_fits 80 80) (remote_who ?w rows))"
  have shown: "who_shown g st rows = ?here @ ?there" by (simp add: who_shown_def Let_def)
  have len: "length (commas (map render (?here @ ?there))) < 2045" using fits by (simp add: shown)
  have len1: "length (commas (map render ?here)) < 2045"
    using len length_commas_append [of "map render ?here" "map render ?there"] by simp
  have one: "who_loop 2048 40 40 True (local_who ?w st) (''['', True) = (CHR ''['' # commas (map render ?here), ?here = [])"
    using who_loop_fits [of 40 40 "[]" True "local_who ?w st" 2048] len1 by (simp del: render.simps)
  have two: "(if rc = 0 then who_loop 2048 80 80 False (remote_who ?w rows) (CHR ''['' # commas (map render ?here), ?here = [])
       else (CHR ''['' # commas (map render ?here), ?here = [])) =
      (CHR ''['' # commas (map render (?here @ ?there)), ?here @ ?there = [])"
  proof (cases "rc = 0")
    case True
    then show ?thesis
      using who_loop_fits [of 80 80 ?here False "remote_who ?w rows" 2048] len by (simp del: render.simps)
  next
    case False
    then show ?thesis using presence_failed [OF rows] by (simp add: remote_who_def)
  qed
  define vs where "vs = ?here @ ?there"
  have two: "(if rc = 0 then who_loop 2048 80 80 False (remote_who ?w rows) (CHR ''['' # commas (map render ?here), ?here = [])
       else (CHR ''['' # commas (map render ?here), ?here = [])) = (CHR ''['' # commas (map render vs), vs = [])"
    unfolding vs_def by (rule two)
  have len: "length (commas (map render vs)) < 2045" unfolding vs_def by (rule len)
  then have close: "(if length (CHR ''['' # commas (map render vs)) + 2 < 2048
      then (CHR ''['' # commas (map render vs)) @ '']'' else ''[]'') = CHR ''['' # commas (map render vs) @ '']''" by simp
  show "fst (hg_emit_grid_who_now env a g st) = queue_all a
     [event_line ''grid.who'' (JObj [(''players'', JArr (who_shown g st rows))]),
      who_prose (who_shown g st rows = []) @ crlf] st"
    unfolding hg_emit_grid_who_now_def Let_def case_prod_beta rows fst_conv snd_conv one two shown vs_def [symmetric] close
      who_prose_def [symmetric] queue_who_event [OF len] queue_who_prose queue_all_simps ..
  show "40 \<le> length (json_esc (cstr ?w)) \<longrightarrow> who_shown g st rows = ?there"
    by (auto simp: who_shown_def Let_def local_who_def who_fits_def filter_empty_conv)
  show "\<exists>bs. distinct bs \<and> set bs = {b \<in> members_of st. s_name (sess st b) \<noteq> []} \<and>
      local_who ?w st = map (\<lambda>b. (?w, s_name (sess st b), hg_regard_of (sess st b), s_title (sess st b))) bs"
    using reg by (intro exI [of _ "filter (\<lambda>b. s_name (sess st b) \<noteq> []) (players (table st))"])
      (simp add: reg_ok_def members_of_def local_who_def filter_map comp_def)
qed

text \<open>Ann, alone on the node.\<close>

definition ann_online :: wstate where
  "ann_online = upd_sess 7 (\<lambda>s. s\<lparr>s_name := ''Ann''\<rparr>) one_player"

theorem grid_who_complete_witness:
  "fst (hg_emit_grid_who_now dead_env 7 (local_grid hg_grid_local_clear) ann_online) =
     queue_all 7 [event_line ''grid.who'' (JObj [(''players'', JArr [who_json True (''Dustfall'', ''Ann'', ''neutral'', [])])]),
       ''Online: survivors walk the wastes.'' @ crlf] ann_online"
proof -
  have rows: "fst (hg_grid_presence dead_env 30000 32 (local_grid hg_grid_local_clear)) = (0, [])"
    by (simp add: hg_grid_presence_def local_grid_def)
  have t: "players (table ann_online) = [7]"
    by (simp add: ann_online_def one_player_def hg_session_register_def empty_world_def zero_session_def upd_sess_def numeral_eq_Suc)
  have reg: "reg_ok ann_online"
    by (simp add: reg_ok_def MAX_SESSIONS_def ann_online_def one_player_def hg_session_register_def empty_world_def zero_session_def upd_sess_def
        numeral_eq_Suc)
  have s: "s_name (sess ann_online 7) = ''Ann''" "hg_regard_of (sess ann_online 7) = ''neutral''" "s_title (sess ann_online 7) = []"
    by (simp_all add: hg_regard_of_def ann_online_def one_player_def hg_session_register_def empty_world_def zero_session_def numeral_eq_Suc)
  have w: "hg_grid_world_name (local_grid hg_grid_local_clear) = ''Dustfall''"
    by (simp add: hg_grid_world_name_def local_grid_def remote_grid_def)
  have p: "who_fits 40 40 (''Dustfall'', ''Ann'', ''neutral'', [])" "who_clean (''Dustfall'', ''Ann'', ''neutral'', []) = (''Dustfall'', ''Ann'', ''neutral'', [])"
    by code_simp+
  have "local_who ''Dustfall'' ann_online = [(''Dustfall'', ''Ann'', ''neutral'', [])]"
    using s by (simp add: local_who_def t)
  then have shown: "who_shown (local_grid hg_grid_local_clear) ann_online [] = [who_json True (''Dustfall'', ''Ann'', ''neutral'', [])]"
    using p by (simp add: who_shown_def remote_who_def w Let_def)
  have "length (render (JArr [who_json True (''Dustfall'', ''Ann'', ''neutral'', [])])) < 2047" by code_simp
  with grid_who_complete [OF rows reg, of 7] show ?thesis by (simp add: shown who_prose_def del: render.simps)
qed

section \<open>Casting to the whole Grid\<close>

definition gridcast_line :: "string \<Rightarrow> string" where
  "gridcast_line t = snd (snprintf 280 (sprintf
     [L ''You cast your voice into the dead Grid, out across every node: \"'', S t, L ''\"'']))"

definition gridcast_event :: "string \<Rightarrow> string \<Rightarrow> string \<Rightarrow> string" where
  "gridcast_event wesc fesc tesc = snd (snprintf 400 (sprintf [L ''@event comm.gridcast {\"world\":\"'', S wesc,
     L ''\",\"from\":\"'', S fesc, L ''\",\"text\":\"'', S tesc, L ''\"}'', L crlf]))"

definition hg_emit_comm_gridcast_now :: "addr \<Rightarrow> string option \<Rightarrow> 'w grid \<Rightarrow> 'a wstate_scheme \<Rightarrow> 'a wstate_scheme" where
  "hg_emit_comm_gridcast_now a msg g st =
     (let self = s_name (sess st a); t = or_default msg [];
          st = hg_queue_line a (Some (gridcast_line t)) st
      in hg_deliver_all (Some (gridcast_event (esc 48 (hg_grid_world_name g)) (esc 80 self) (esc 200 t))) None st)"

text \<open>What survives an escape buffer: the whole text or nothing.\<close>

definition fit_text :: "nat \<Rightarrow> string \<Rightarrow> string" where
  "fit_text cap s = (if length (json_esc (cstr s)) < cap then cstr s else [])"

lemma esc_fit_text: "0 < cap \<Longrightarrow> esc cap s = json_esc (fit_text cap s) \<and> length (json_esc (fit_text cap s)) < cap"
  by (simp add: esc_def hg_json_escape_spec or_default_def Let_def fit_text_def)

definition gridcast_json :: "string \<Rightarrow> string \<Rightarrow> string \<Rightarrow> jval" where
  "gridcast_json world self t = JObj [(''world'', JStr (fit_text 48 world)), (''from'', JStr (fit_text 80 self)),
     (''text'', JStr (fit_text 200 t))]"

lemma gridcast_event_refines:
  "gridcast_event (esc 48 world) (esc 80 self) (esc 200 t) = event_line ''comm.gridcast'' (gridcast_json world self t)"
proof -
  note e = esc_fit_text [of 48 world] esc_fit_text [of 80 self] esc_fit_text [of 200 t]
  have eq: "sprintf [L ''@event comm.gridcast {\"world\":\"'', S (esc 48 world), L ''\",\"from\":\"'', S (esc 80 self),
      L ''\",\"text\":\"'', S (esc 200 t), L ''\"}'', L crlf] = event_line ''comm.gridcast'' (gridcast_json world self t)"
    using e by (simp add: gridcast_json_def event_line_def jquote_def commas_def) (simp add: json_esc_def esc_char_def esc_rep_def)
  have "length (event_line ''comm.gridcast'' (gridcast_json world self t)) < 400"
    using e by (simp add: eq [symmetric])
  then show ?thesis unfolding gridcast_event_def eq by (simp add: snprintf_fits del: render.simps)
qed

text \<open>A cast is heard by everyone: every player in the registry gets the one event comm.gridcast, the caster
  after the line that confirms it; the event decodes to the node's name, the caster's name and the text, except
  that a text which takes 200 bytes or more once escaped is announced as an empty one.\<close>

lemma gridcast_heard:
  assumes ok: "outs_ok st" "reg_ok st" and a: "a \<noteq> 0" and t: "nul_free t"
  shows "let v = gridcast_json (hg_grid_world_name g) (s_name (sess st a)) t;
       ev = event_line ''comm.gridcast'' v;
       pre = (if b = a then take OUT_CAP (out_of a st @ gridcast_line t @ crlf) else out_of b st)
    in out_of b (hg_emit_comm_gridcast_now a (Some t) g st) = (if b \<in> members_of st then take OUT_CAP (pre @ ev) else pre) \<and>
       parse_event ev = Some (''comm.gridcast'', v) \<and>
       (200 \<le> length (json_esc t) \<longrightarrow> v = gridcast_json (hg_grid_world_name g) (s_name (sess st a)) [])"
proof -
  let ?v = "gridcast_json (hg_grid_world_name g) (s_name (sess st a)) t"
  let ?st = "hg_queue a (Some (gridcast_line t @ crlf)) st"
  have "nul_free (gridcast_line t)" and "length (gridcast_line t) < 280"
    using t snprintf_text_less [of 280] by (simp_all add: gridcast_line_def snprintf_def)
  then have line: "hg_queue_line a (Some (gridcast_line t)) st = ?st"
    by (simp add: hg_queue_line_eq SCRATCH_def)
  have ok': "outs_ok ?st" "reg_ok ?st" using ok by (simp_all add: hq.put_inv reg_ok_def)
  have mem: "members_of ?st = members_of st" by (simp add: members_of_def)
  have pre: "out_of b ?st = (if b = a then take OUT_CAP (out_of a st @ gridcast_line t @ crlf) else out_of b st)"
    using hq.put_get [OF ok(1) a] hq.put_frame [of a b] by auto
  have ev: "cstr (event_line ''comm.gridcast'' ?v) = event_line ''comm.gridcast'' ?v" by simp
  have "hg_emit_comm_gridcast_now a (Some t) g st = hg_deliver_all (Some (event_line ''comm.gridcast'' ?v)) None ?st"
    by (simp add: hg_emit_comm_gridcast_now_def or_default_def line gridcast_event_refines)
  then have out: "out_of b (hg_emit_comm_gridcast_now a (Some t) g st) =
      (if b \<in> members_of st then take OUT_CAP (out_of b ?st @ event_line ''comm.gridcast'' ?v) else out_of b ?st)"
    using deliver_all_core [OF ok', of b "event_line ''comm.gridcast'' ?v" None]
    unfolding mem ev by (simp add: excepted_def)
  have "parse_event (event_line ''comm.gridcast'' ?v) = Some (''comm.gridcast'', ?v)"
    by (rule parse_event_event_line) simp
  moreover have "?v = gridcast_json (hg_grid_world_name g) (s_name (sess st a)) []" if "200 \<le> length (json_esc t)"
    using that t by (simp add: gridcast_json_def fit_text_def)
  ultimately show ?thesis unfolding Let_def using out pre by simp
qed

end
