(* ===== verification/Store.thy ===== *)
theory Store
  imports GridHub Json
begin

text \<open>
  The record files of the characters (\<^verbatim>\<open>asm/store.asm\<close>): one JSON file per character under
  \<^verbatim>\<open><data>/characters\<close>, written to a temporary file and renamed over the old one.  cJSON is a
  parameter (\<open>json_lib\<close>), and so are the outcomes of the system calls (\<open>read_io\<close>,
  \<open>write_io\<close>); the file system itself is a map from paths to contents.
\<close>

section \<open>Parameters\<close>

text \<open>\<open>jl_text\<close> is \<^verbatim>\<open>cJSON_GetStringValue\<close>, \<open>jl_num\<close> is
  \<^verbatim>\<open>cJSON_GetNumberValue\<close> truncated to 64 bits by \<^verbatim>\<open>cvttsd2si\<close>, \<open>jl_items\<close> the
  children \<^verbatim>\<open>cJSON_GetArrayItem\<close> enumerates.  \<open>jl_print\<close> prints what the
  \<^verbatim>\<open>cJSON_Add*\<close> calls built; it is None when memory runs out.\<close>

record 'j json_lib =
  jl_parse :: "string \<Rightarrow> 'j option"
  jl_print :: "param \<Rightarrow> string option"
  jl_get :: "'j \<Rightarrow> string \<Rightarrow> 'j option"
  jl_text :: "'j \<Rightarrow> string option"
  jl_num :: "'j \<Rightarrow> i64"
  jl_true :: "'j \<Rightarrow> bool"
  jl_items :: "'j \<Rightarrow> 'j list"

record fs =
  files :: "string \<Rightarrow> string option"

record read_io =
  r_open :: bool
  r_seek :: bool
  r_alloc :: bool
  r_got :: nat

text \<open>Of a save: which members \<^verbatim>\<open>cJSON_Add...ToObject\<close> can add (it fails when memory runs out, and only the
  answer for the inventory is looked at), which items of the inventory can be created, and the answers of the system
  calls; \<open>w_write k n\<close> is what the call number \<open>k\<close> of \<^verbatim>\<open>write\<close> returns when asked for \<open>n\<close>
  bytes.  After a short write the code goes on from the address in \<^verbatim>\<open>rsi\<close>, a register \<^verbatim>\<open>write\<close>
  may change: \<open>w_rsi k r i\<close> is byte \<open>i\<close> at the address it holds after call \<open>k\<close>, when it held that of
  \<open>r\<close> before.\<close>

record write_io =
  w_adds :: "string \<Rightarrow> bool"
  w_item :: "nat \<Rightarrow> bool"
  w_open :: bool
  w_write :: "nat \<Rightarrow> nat \<Rightarrow> int"
  w_rsi :: "nat \<Rightarrow> string \<Rightarrow> nat \<Rightarrow> char"
  w_fsync :: bool
  w_close :: bool
  w_rename :: bool

section \<open>Paths\<close>

text \<open>\<open>mkdir_ok\<close> tells for a path whether \<^verbatim>\<open>mkdir\<close> made the directory or found it.  The
  result is the status and the text of \<^verbatim>\<open>store_root\<close>.\<close>

definition make_dir :: "(string \<Rightarrow> bool) \<Rightarrow> string \<Rightarrow> int" where
  "make_dir mkdir_ok path = (if mkdir_ok path then 0 else -1)"

definition hg_store_init :: "(string \<Rightarrow> bool) \<Rightarrow> string \<Rightarrow> string \<Rightarrow> int \<times> string" where
  "hg_store_init mkdir_ok data_dir root =
     (if make_dir mkdir_ok data_dir \<noteq> 0 then (-1, root)
      else let (n, root) = snprintf 512 (sprintf [S data_dir, L ''/characters''])
        in if n \<le> 0 \<or> 512 \<le> n then (-1, root) else (make_dir mkdir_ok root, root))"

definition character_path :: "string \<Rightarrow> nat \<Rightarrow> string \<Rightarrow> string option" where
  "character_path root cap name =
     (if length name = 0 \<or> 32 < length name then None
      else let (n, p) = snprintf cap (sprintf [S root, L ''/'', S (map to_lower name), L ''.json''])
        in if n \<le> 0 \<or> int cap \<le> n then None else Some p)"

section \<open>Loading\<close>

definition json_string :: "'j json_lib \<Rightarrow> 'j \<Rightarrow> string \<Rightarrow> nat \<Rightarrow> string \<Rightarrow> string" where
  "json_string jl root key cap dest =
     (case jl_get jl root key of None \<Rightarrow> dest
      | Some v \<Rightarrow> case jl_text jl v of None \<Rightarrow> dest | Some t \<Rightarrow> snd (snprintf cap t))"

definition json_number :: "'j json_lib \<Rightarrow> 'j \<Rightarrow> string \<Rightarrow> i64 \<Rightarrow> i64" where
  "json_number jl root key fallback =
     (case jl_get jl root key of None \<Rightarrow> fallback | Some v \<Rightarrow> jl_num jl v)"

definition json_bool :: "'j json_lib \<Rightarrow> 'j \<Rightarrow> string \<Rightarrow> i64 \<Rightarrow> i64" where
  "json_bool jl root key fallback =
     (case jl_get jl root key of None \<Rightarrow> fallback | Some v \<Rightarrow> if jl_true jl v then 1 else 0)"

text \<open>The items that are strings fill the 16 slots from the first on.\<close>

fun inv_loop :: "'j json_lib \<Rightarrow> 'j list \<Rightarrow> nat \<times> string list \<Rightarrow> nat \<times> string list" where
  "inv_loop jl [] acc = acc"
| "inv_loop jl (x # xs) (n, slots) =
     (if 16 \<le> n then (n, slots)
      else case jl_text jl x of
             None \<Rightarrow> inv_loop jl xs (n, slots)
           | Some t \<Rightarrow> inv_loop jl xs (Suc n, slots[n := snd (snprintf 16 t)]))"

datatype reading = No_file | Bad_file | File string

definition read_file :: "read_io \<Rightarrow> fs \<Rightarrow> string \<Rightarrow> reading" where
  "read_file io fs path =
     (case files fs path of
        None \<Rightarrow> No_file
      | Some t \<Rightarrow>
          if \<not> r_open io then No_file
          else if \<not> r_seek io \<or> length t < 2 \<or> 65536 < length t \<or> \<not> r_alloc io then Bad_file
          else File (cstr (take (r_got io) t)))"

definition load_fields :: "'j json_lib \<Rightarrow> 'j \<Rightarrow> session \<Rightarrow> session" where
  "load_fields jl j s =
     (let s = s\<lparr>s_race := json_string jl j ''race'' 16 (s_race s),
                s_faction := json_string jl j ''faction'' 16 (s_faction s),
                s_position := json_string jl j ''position'' 16 (s_position s),
                s_title := json_string jl j ''title'' 48 (s_title s),
                s_eq_weapon := json_string jl j ''weapon'' 16 (s_eq_weapon s),
                s_room := json_number jl j ''roomIndex'' (s_room s),
                s_hp := json_number jl j ''hp'' (s_hp s),
                s_max_hp := json_number jl j ''maxHp'' (s_max_hp s),
                s_level := json_number jl j ''level'' (s_level s),
                s_xp := json_number jl j ''xp'' (s_xp s),
                s_gold := json_number jl j ''gold'' (s_gold s),
                s_morality := json_number jl j ''morality'' (s_morality s),
                s_addiction := json_number jl j ''addiction'' (s_addiction s),
                s_ashsworn := json_bool jl j ''ashsworn'' (s_ashsworn s),
                s_strayed := json_bool jl j ''strayed'' (s_strayed s),
                s_redeemed := json_bool jl j ''redeemed'' (s_redeemed s),
                s_resisted := json_bool jl j ''resisted'' (s_resisted s),
                s_secret_hash := json_string jl j ''secretHash'' 72 []\<rparr>;
          empty = replicate 16 []
      in case jl_get jl j ''inventory'' of
           None \<Rightarrow> s\<lparr>s_inv_count := 0, s_inventory := empty\<rparr>
         | Some v \<Rightarrow> let (n, slots) = inv_loop jl (jl_items jl v) (0, empty)
             in s\<lparr>s_inv_count := word_of_nat n, s_inventory := slots\<rparr>)"

definition hg_store_load :: "'j json_lib \<Rightarrow> read_io \<Rightarrow> string \<Rightarrow> fs \<Rightarrow> session \<Rightarrow> int \<times> session" where
  "hg_store_load jl io root fs s =
     (case character_path root 640 (s_name s) of
        None \<Rightarrow> (-1, s)
      | Some path \<Rightarrow>
          case read_file io fs path of
            No_file \<Rightarrow> (0, s)
          | Bad_file \<Rightarrow> (-1, s)
          | File t \<Rightarrow> (case jl_parse jl t of None \<Rightarrow> (-1, s) | Some j \<Rightarrow> (1, load_fields jl j s)))"

section \<open>Saving\<close>

definition saved_items :: "session \<Rightarrow> string list" where
  "saved_items s = filter (\<lambda>t. t \<noteq> []) (take (if unat (s_inv_count s) < 16 then unat (s_inv_count s) else 16) (s_inventory s))"

definition save_object :: "session \<Rightarrow> (string \<times> param) list" where
  "save_object s =
     [(''name'', PStr (s_name s)), (''race'', PStr (s_race s)), (''faction'', PStr (s_faction s)),
      (''position'', PStr (s_position s)), (''title'', PStr (s_title s)), (''weapon'', PStr (s_eq_weapon s)),
      (''roomIndex'', PNum (s_room s)), (''hp'', PNum (s_hp s)), (''maxHp'', PNum (s_max_hp s)),
      (''level'', PNum (s_level s)), (''xp'', PNum (s_xp s)), (''gold'', PNum (s_gold s)),
      (''morality'', PNum (s_morality s)), (''addiction'', PNum (s_addiction s)),
      (''ashsworn'', PBool (ucast (s_ashsworn s) \<noteq> (0 :: i32))), (''strayed'', PBool (ucast (s_strayed s) \<noteq> (0 :: i32))),
      (''redeemed'', PBool (ucast (s_redeemed s) \<noteq> (0 :: i32))), (''resisted'', PBool (ucast (s_resisted s) \<noteq> (0 :: i32))),
      (''secretHash'', PStr (s_secret_hash s)), (''inventory'', PArr (map PStr (saved_items s)))]"

definition built_object :: "write_io \<Rightarrow> session \<Rightarrow> (string \<times> param) list" where
  "built_object io s = filter (\<lambda>(key, _). w_adds io key) (save_object s)"

text \<open>The loop over \<^verbatim>\<open>write\<close> from call \<open>k\<close> on, with \<open>rest\<close> the bytes at
  \<^verbatim>\<open>rsi\<close> that are still to be written.  The result: whether as many bytes as there were have been written,
  and which.\<close>

function write_loop :: "write_io \<Rightarrow> nat \<Rightarrow> string \<Rightarrow> string \<Rightarrow> bool \<times> string" where
  "write_loop io k out rest =
     (if rest = [] then (True, out)
      else let n = nat (min (w_write io k (length rest)) (int (length rest)))
        in if n = 0 then (False, out)
           else write_loop io (Suc k) (out @ take n rest) (map (w_rsi io k rest) [n..<length rest]))"
  by pat_completeness auto
termination by (relation "measure (\<lambda>(io, k, out, rest). length rest)") auto

declare write_loop.simps [simp del]

definition write_file :: "write_io \<Rightarrow> string \<Rightarrow> string \<Rightarrow> string \<Rightarrow> fs \<Rightarrow> int \<times> fs" where
  "write_file io tmp path t fs =
     (if \<not> w_open io then (-1, fs)
      else let (ok, out) = write_loop io 0 [] t;
               fs = fs\<lparr>files := (files fs)(tmp := Some out)\<rparr>
        in if \<not> ok then (-1, fs)
           else if \<not> w_fsync io then (-1, fs)
           else if \<not> w_close io then (-1, fs)
           else if \<not> w_rename io then (-1, fs)
           else (0, fs\<lparr>files := (files fs)(tmp := None, path := files fs tmp)\<rparr>))"

definition hg_store_save :: "'j json_lib \<Rightarrow> write_io \<Rightarrow> string \<Rightarrow> session \<Rightarrow> fs \<Rightarrow> int \<times> fs" where
  "hg_store_save jl io root s fs =
     (case character_path root 640 (s_name s) of
        None \<Rightarrow> (-1, fs)
      | Some path \<Rightarrow>
          let (n, tmp) = snprintf 656 (sprintf [S path, L ''.tmp''])
          in if n \<le> 0 \<or> 656 \<le> n then (-1, fs)
             else if \<not> w_adds io ''inventory'' \<or> \<not> list_all (w_item io) [0..<length (saved_items s)] then (-1, fs)
             else case jl_print jl (PObj (built_object io s)) of
               None \<Rightarrow> (-1, fs)
             | Some t \<Rightarrow> write_file io tmp path t fs)"

section \<open>What is documented of cJSON\<close>

text \<open>A printed object parses to one whose fields read back as what was put in: strings and booleans as they
  are, integers that a double holds exactly, and arrays of strings item by item.  The text holds no NUL.\<close>

definition field_reads :: "'j json_lib \<Rightarrow> param \<Rightarrow> 'j \<Rightarrow> bool" where
  "field_reads jl p x =
     (case p of
        PStr t \<Rightarrow> jl_text jl x = Some t
      | PNum n \<Rightarrow> abs (sint n) \<le> 2 ^ 53 \<longrightarrow> jl_num jl x = n
      | PBool b \<Rightarrow> jl_true jl x = b
      | PArr ps \<Rightarrow> (\<forall>ts. ps = map PStr ts \<longrightarrow> map (jl_text jl) (jl_items jl x) = map Some ts)
      | PObj _ \<Rightarrow> True)"

definition json_faithful :: "'j json_lib \<Rightarrow> bool" where
  "json_faithful jl \<longleftrightarrow>
     (\<forall>kvs t. distinct (map fst kvs) \<and> jl_print jl (PObj kvs) = Some t \<longrightarrow>
        nul_free t \<and> (\<exists>j. jl_parse jl t = Some j \<and>
          (\<forall>k p. (k, p) \<in> set kvs \<longrightarrow> (\<exists>x. jl_get jl j k = Some x \<and> field_reads jl p x))))"

lemma json_faithfulE:
  assumes "json_faithful jl" and "jl_print jl (PObj kvs) = Some t" and "distinct (map fst kvs)"
  obtains j where "jl_parse jl t = Some j" and "nul_free t"
    and "\<And>k p. (k, p) \<in> set kvs \<Longrightarrow> \<exists>x. jl_get jl j k = Some x \<and> field_reads jl p x"
  using assms unfolding json_faithful_def by metis

section \<open>Saving replaces the whole record\<close>

text \<open>What a save in several pieces relies on: \<^verbatim>\<open>write\<close> leaves \<^verbatim>\<open>rsi\<close> alone.\<close>

definition write_keeps_rsi :: "write_io \<Rightarrow> bool" where
  "write_keeps_rsi io \<longleftrightarrow> (\<forall>k r i. i < length r \<longrightarrow> w_rsi io k r i = r ! i)"

lemma kept_rest: "write_keeps_rsi io \<Longrightarrow> map (w_rsi io k r) [n..<length r] = drop n r"
  by (rule nth_equalityI) (simp_all add: write_keeps_rsi_def)

lemma write_loop_length:
  "write_loop io k out rest = (ok, out') \<Longrightarrow> ok \<Longrightarrow> length out' = length out + length rest"
proof (induction io k out rest rule: write_loop.induct)
  case (1 io k out rest)
  let ?n = "nat (min (w_write io k (length rest)) (int (length rest)))"
  have n: "?n \<le> length rest" by simp
  show ?case
  proof (cases "rest = [] \<or> ?n = 0")
    case True
    with "1.prems" show ?thesis by (subst (asm) write_loop.simps) (auto simp: Let_def split: if_splits)
  next
    case False
    then have "write_loop io (Suc k) (out @ take ?n rest) (map (w_rsi io k rest) [?n..<length rest]) = (ok, out')"
      using "1.prems" by (subst (asm) write_loop.simps) (simp add: Let_def)
    from "1.IH" [OF _ refl _ this "1.prems"(2)] False n show ?thesis by simp
  qed
qed

lemma write_loop_kept:
  "write_loop io k out rest = (ok, out') \<Longrightarrow> ok \<Longrightarrow> write_keeps_rsi io \<Longrightarrow> out' = out @ rest"
proof (induction io k out rest rule: write_loop.induct)
  case (1 io k out rest)
  let ?n = "nat (min (w_write io k (length rest)) (int (length rest)))"
  show ?case
  proof (cases "rest = [] \<or> ?n = 0")
    case True
    with "1.prems" show ?thesis by (subst (asm) write_loop.simps) (auto simp: Let_def split: if_splits)
  next
    case False
    then have "write_loop io (Suc k) (out @ take ?n rest) (map (w_rsi io k rest) [?n..<length rest]) = (ok, out')"
      using "1.prems" by (subst (asm) write_loop.simps) (simp add: Let_def)
    from "1.IH" [OF _ refl _ this "1.prems"(2, 3)] False show ?thesis by (simp add: kept_rest "1.prems"(3))
  qed
qed

lemma write_loop_whole:
  assumes "int (length rest) \<le> w_write io k (length rest)"
  shows "write_loop io k out rest = (True, out @ rest)"
  using assms by (subst write_loop.simps) (simp add: Let_def min_def write_loop.simps)

lemma write_loop_done:
  assumes "\<And>k n. 0 < n \<Longrightarrow> 0 < w_write io k n"
  shows "fst (write_loop io k out rest)"
proof (induction "length rest" arbitrary: k out rest rule: less_induct)
  case less
  let ?n = "nat (min (w_write io k (length rest)) (int (length rest)))"
  show ?case
  proof (cases "rest = []")
    case False
    then have "0 < length rest" by simp
    then have "0 < w_write io k (length rest)" "0 < int (length rest)" using assms [of "length rest" k] by simp_all
    then have n: "?n \<noteq> 0" unfolding min_def by (auto simp del: of_nat_0_less_iff)
    then have "length (map (w_rsi io k rest) [?n..<length rest]) < length rest" using False by simp
    from less [OF this, of "Suc k" "out @ take ?n rest"] show ?thesis
      using False n by (subst write_loop.simps) (simp add: Let_def)
  qed (simp add: write_loop.simps)
qed

lemma character_path_Some:
  "character_path root cap name = Some p \<longleftrightarrow>
     0 < length name \<and> length name \<le> 32 \<and> p = root @ ''/'' @ map to_lower name @ ''.json'' \<and> length p < cap"
  by (auto simp: character_path_def snprintf_def Let_def)

lemma tmp_differs: "(p :: string) @ ''.tmp'' \<noteq> p"
  by simp

text \<open>What a completed write has put into the file: as many bytes as the text has, and the text itself when the first
  call of \<^verbatim>\<open>write\<close> took all of it or the register is kept.\<close>

definition written :: "write_io \<Rightarrow> string \<Rightarrow> string \<Rightarrow> bool" where
  "written io t out \<longleftrightarrow> length out = length t \<and>
     (write_keeps_rsi io \<or> int (length t) \<le> w_write io 0 (length t) \<longrightarrow> out = t)"

lemma write_loop_written: "write_loop io 0 [] t = (True, out) \<Longrightarrow> written io t out"
  using write_loop_length [of io 0 "[]" t True out] write_loop_kept [of io 0 "[]" t True out] write_loop_whole [of t io 0 "[]"]
  by (auto simp: written_def)

lemma write_file_cases:
  assumes "write_file io tmp path t fs = (rc, fs')" and "tmp \<noteq> path"
  shows "(rc = 0 \<and> (\<exists>out. files fs' path = Some out \<and> written io t out) \<or>
      rc = -1 \<and> files fs' path = files fs path) \<and>
    files fs' = (files fs)(path := files fs' path, tmp := files fs' tmp)"
proof -
  obtain ok out where w: "write_loop io 0 [] t = (ok, out)" by fastforce
  show ?thesis
    using assms w write_loop_written [of io t out]
    by (cases "w_open io"; cases ok; cases "w_fsync io"; cases "w_close io"; cases "w_rename io")
       (auto simp: write_file_def Let_def fun_upd_def)
qed

text \<open>C24. A save replaces the whole record or leaves the old one: whatever the allocations and the system calls answer (a full
  disk, a short write, a failed \<^verbatim>\<open>fsync\<close> or \<^verbatim>\<open>rename\<close>), the call returned -1 and the character's
  file is what it was, or the call returned 0 and the file is the one just written; no file but the character's and
  its temporary one is touched.  The new file has the full length of the printed record, and it is that record when
  the first call of \<^verbatim>\<open>write\<close> took all of it, or when \<^verbatim>\<open>write\<close> leaves \<^verbatim>\<open>rsi\<close>
  alone, which it need not.  The printed record lacks the members that could not be added, which nobody checks.\<close>

theorem save_atomic:
  "let (rc, fs') = hg_store_save jl io root s fs
   in case character_path root 640 (s_name s) of
        None \<Rightarrow> rc = -1 \<and> fs' = fs
      | Some p \<Rightarrow>
          (rc = 0 \<and> (\<exists>t out. jl_print jl (PObj (filter (\<lambda>(key, _). w_adds io key) (save_object s))) = Some t \<and>
             files fs' p = Some out \<and> length out = length t \<and>
             (write_keeps_rsi io \<or> int (length t) \<le> w_write io 0 (length t) \<longrightarrow> out = t)) \<or>
           rc = -1 \<and> files fs' p = files fs p) \<and>
          files fs' = (files fs)(p := files fs' p, p @ ''.tmp'' := files fs' (p @ ''.tmp''))"
proof (cases "character_path root 640 (s_name s)")
  case None
  then show ?thesis by (simp add: hg_store_save_def)
next
  case (Some p)
  note path = this
  then have p: "length p < 640" unfolding character_path_Some by blast
  show ?thesis
  proof (cases "\<not> w_adds io ''inventory'' \<or> \<not> list_all (w_item io) [0..<length (saved_items s)] \<or>
      jl_print jl (PObj (built_object io s)) = None")
    case True
    with path p show ?thesis by (auto simp: hg_store_save_def snprintf_def)
  next
    case False
    then obtain t where t: "jl_print jl (PObj (built_object io s)) = Some t" by auto
    obtain rc fs' where w: "write_file io (p @ ''.tmp'') p t fs = (rc, fs')" by fastforce
    then have save: "hg_store_save jl io root s fs = (rc, fs')"
      using t False path p by (simp add: hg_store_save_def snprintf_def)
    show ?thesis
      using write_file_cases [OF w tmp_differs] path t [unfolded built_object_def]
      unfolding save written_def by auto
  qed
qed

text \<open>The disk takes 100 bytes at a time, and the register is kept.\<close>

definition good_writes :: write_io where
  "good_writes = \<lparr>w_adds = (\<lambda>_. True), w_item = (\<lambda>_. True), w_open = True, w_write = (\<lambda>k n. if n < 100 then int n else 100),
     w_rsi = (\<lambda>k r i. if i < length r then r ! i else NUL), w_fsync = True, w_close = True, w_rename = True\<rparr>"

lemma good_writes_keep [simp]: "write_keeps_rsi good_writes"
  by (simp add: write_keeps_rsi_def good_writes_def)

section \<open>What was saved is loaded\<close>

text \<open>A save that goes well: everything is added and created, each call of \<^verbatim>\<open>write\<close> takes something, and
  either it leaves \<^verbatim>\<open>rsi\<close> alone or it takes all it is given.\<close>

definition writes_well :: "write_io \<Rightarrow> bool" where
  "writes_well io \<longleftrightarrow> (\<forall>key. w_adds io key) \<and> (\<forall>i. w_item io i) \<and> w_open io \<and> (\<forall>k n. 0 < n \<longrightarrow> 0 < w_write io k n) \<and>
     (write_keeps_rsi io \<or> (\<forall>k n. w_write io k n = int n)) \<and> w_fsync io \<and> w_close io \<and> w_rename io"

lemma good_writes_well: "writes_well good_writes"
  by (simp add: writes_well_def) (simp add: good_writes_def)

definition reads_well :: "read_io \<Rightarrow> bool" where
  "reads_well io \<longleftrightarrow> r_open io \<and> r_seek io \<and> r_alloc io \<and> 65536 \<le> r_got io"

definition flag :: "i64 \<Rightarrow> i64" where
  "flag w = (if ucast w = (0 :: i32) then 0 else 1)"

text \<open>What a record can hold: integers that a double represents, and items that fit their slots.\<close>

definition small :: "i64 \<Rightarrow> bool" where
  "small n \<longleftrightarrow> abs (sint n) \<le> 2 ^ 53"

definition record_ok :: "session \<Rightarrow> bool" where
  "record_ok s \<longleftrightarrow> cells_ok s \<and> length (s_inventory s) = 16 \<and> list_all (\<lambda>t. length t < 16) (s_inventory s) \<and>
     list_all small [s_room s, s_hp s, s_max_hp s, s_level s, s_xp s, s_gold s, s_morality s, s_addiction s]"

text \<open>What a load restores; the other cells (the opponent, cooldowns, armour, the name as typed) are those of the
  new connection.\<close>

definition restore :: "session \<Rightarrow> session \<Rightarrow> session" where
  "restore s r = r\<lparr>s_race := s_race s, s_faction := s_faction s, s_position := s_position s, s_title := s_title s,
     s_eq_weapon := s_eq_weapon s, s_room := s_room s, s_hp := s_hp s, s_max_hp := s_max_hp s, s_level := s_level s,
     s_xp := s_xp s, s_gold := s_gold s, s_morality := s_morality s, s_addiction := s_addiction s,
     s_ashsworn := flag (s_ashsworn s), s_strayed := flag (s_strayed s), s_redeemed := flag (s_redeemed s),
     s_resisted := flag (s_resisted s), s_secret_hash := s_secret_hash s,
     s_inv_count := word_of_nat (length (saved_items s)),
     s_inventory := saved_items s @ replicate (16 - length (saved_items s)) []\<rparr>"

lemma saved_items_bounds:
  assumes "record_ok s"
  shows "length (saved_items s) \<le> 16" "list_all (\<lambda>t. length t < 16) (saved_items s)"
proof -
  have "length (saved_items s) \<le> length (take (if unat (s_inv_count s) < 16 then unat (s_inv_count s) else 16) (s_inventory s))"
    unfolding saved_items_def by (rule length_filter_le)
  then show "length (saved_items s) \<le> 16" by (simp split: if_splits)
  show "list_all (\<lambda>t. length t < 16) (saved_items s)"
    using assms by (auto simp: record_ok_def saved_items_def list_all_iff dest!: in_set_takeD)
qed

lemma inv_loop_fills:
  assumes "map (jl_text jl) xs = map Some ts" and "length us + length ts \<le> 16" and "list_all (\<lambda>t. length t < 16) ts"
  shows "inv_loop jl xs (length us, us @ replicate (16 - length us) []) =
    (length us + length ts, us @ ts @ replicate (16 - length us - length ts) [])"
  using assms
proof (induction ts arbitrary: xs us)
  case (Cons t ts)
  then obtain y ys where xs: "xs = y # ys" "jl_text jl y = Some t" "map (jl_text jl) ys = map Some ts"
    by (cases xs) auto
  have upd: "(us @ replicate (16 - length us) [])[length us := t] = (us @ [t]) @ replicate (16 - length (us @ [t])) []"
  proof -
    obtain k where "16 - length us = Suc k" using Cons.prems(2) by (cases "16 - length us") auto
    moreover from this have "16 - Suc (length us) = k" by linarith
    ultimately show ?thesis by (simp add: list_update_append)
  qed
  show ?case
    using Cons.IH [OF xs(3), of "us @ [t]"] Cons.prems(2, 3) xs(1, 2) upd by (simp add: snprintf_def)
qed simp

lemma load_fields_restores:
  assumes "record_ok s"
    and get: "\<And>k p. (k, p) \<in> set (save_object s) \<Longrightarrow> \<exists>x. jl_get jl j k = Some x \<and> field_reads jl p x"
  shows "load_fields jl j r = restore s r"
proof -
  have str: "json_string jl j k cap d = t" if "(k, PStr t) \<in> set (save_object s)" "length t < cap" for k t cap d
    using get [OF that(1)] that(2) by (auto simp: json_string_def field_reads_def snprintf_def)
  have num: "json_number jl j k d = n" if "(k, PNum n) \<in> set (save_object s)" "small n" for k n d
    using get [OF that(1)] that(2) by (auto simp: json_number_def field_reads_def small_def)
  have bool: "json_bool jl j k d = flag w" if "(k, PBool (ucast w \<noteq> (0 :: i32))) \<in> set (save_object s)" for k w d
    using get [OF that] by (auto simp: json_bool_def field_reads_def flag_def)
  obtain x where x: "jl_get jl j ''inventory'' = Some x" "map (jl_text jl) (jl_items jl x) = map Some (saved_items s)"
    using get [of "''inventory''" "PArr (map PStr (saved_items s))"] by (auto simp: save_object_def field_reads_def)
  have loop: "inv_loop jl (jl_items jl x) (0, replicate 16 []) =
      (length (saved_items s), saved_items s @ replicate (16 - length (saved_items s)) [])"
    using inv_loop_fills [OF x(2), of "[]"] saved_items_bounds [OF assms(1)] by simp
  have ok: "cells_ok s" "small (s_room s)" "small (s_hp s)" "small (s_max_hp s)" "small (s_level s)" "small (s_xp s)"
      "small (s_gold s)" "small (s_morality s)" "small (s_addiction s)"
    using assms(1) by (simp_all add: record_ok_def)
  note cells = ok(1) [unfolded cells_ok_def cell_ok_def]
  have strings: "json_string jl j ''race'' 16 d = s_race s" "json_string jl j ''faction'' 16 d = s_faction s"
      "json_string jl j ''position'' 16 d = s_position s" "json_string jl j ''title'' 48 d = s_title s"
      "json_string jl j ''weapon'' 16 d = s_eq_weapon s" "json_string jl j ''secretHash'' 72 d = s_secret_hash s" for d
    by (rule str; use cells in \<open>simp add: save_object_def\<close>)+
  have numbers: "json_number jl j ''roomIndex'' d = s_room s" "json_number jl j ''hp'' d = s_hp s"
      "json_number jl j ''maxHp'' d = s_max_hp s" "json_number jl j ''level'' d = s_level s"
      "json_number jl j ''xp'' d = s_xp s" "json_number jl j ''gold'' d = s_gold s"
      "json_number jl j ''morality'' d = s_morality s" "json_number jl j ''addiction'' d = s_addiction s" for d
    by (rule num; use ok in \<open>simp add: save_object_def\<close>)+
  have flags: "json_bool jl j ''ashsworn'' d = flag (s_ashsworn s)" "json_bool jl j ''strayed'' d = flag (s_strayed s)"
      "json_bool jl j ''redeemed'' d = flag (s_redeemed s)" "json_bool jl j ''resisted'' d = flag (s_resisted s)" for d
    by (rule bool; simp add: save_object_def)+
  show ?thesis
    by (simp add: load_fields_def restore_def Let_def x(1) loop strings numbers flags)
qed


lemma save_writes:
  assumes "writes_well io" and "character_path root 640 (s_name s) = Some p" and "jl_print jl (PObj (save_object s)) = Some t"
  shows "hg_store_save jl io root s fs = (0, fs\<lparr>files := (files fs)(p @ ''.tmp'' := None, p := Some t)\<rparr>)"
proof -
  have p: "length p < 640" using assms(2) unfolding character_path_Some by blast
  have built: "built_object io s = save_object s" using assms(1) by (simp add: built_object_def writes_well_def)
  obtain out where "write_loop io 0 [] t = (True, out)"
    using assms(1) write_loop_done [of io 0 "[]" t] by (cases "write_loop io 0 [] t") (auto simp: writes_well_def)
  moreover from this have "out = t" using write_loop_written assms(1) by (auto simp: written_def writes_well_def)
  ultimately show ?thesis
    using assms p built
    by (simp add: hg_store_save_def snprintf_def write_file_def writes_well_def list_all_iff Let_def)
qed

lemma load_reads:
  assumes "reads_well io" and "character_path root 640 (s_name r) = Some p" and "files fs p = Some t"
    and "2 \<le> length t" and "length t \<le> 65536" and "nul_free t" and "jl_parse jl t = Some j"
  shows "hg_store_load jl io root fs r = (1, load_fields jl j r)"
  using assms by (simp add: hg_store_load_def read_file_def reads_well_def)

lemma store_roundtrip_core:
  assumes "json_faithful jl" and "writes_well wio" and "reads_well rio" and "record_ok s"
    and "jl_print jl (PObj (save_object s)) = Some t" and "2 \<le> length t" and "length t \<le> 65536"
    and "character_path root 640 (s_name s) \<noteq> None" and "case_eq (s_name r) (s_name s)"
  shows "let (rc, fs') = hg_store_save jl wio root s fs
     in rc = 0 \<and> hg_store_load jl rio root fs' r = (1, restore s r)"
proof -
  obtain p where p: "character_path root 640 (s_name s) = Some p" using assms(8) by blast
  have "map to_lower (s_name r) = map to_lower (s_name s)" using assms(9) by (simp add: case_eq_def)
  then have pr: "character_path root 640 (s_name r) = Some p"
    using p unfolding character_path_Some by (metis length_map)
  have "distinct (map fst (save_object s))" by (simp add: save_object_def)
  then obtain j where j: "jl_parse jl t = Some j" "nul_free t"
      "\<And>k p. (k, p) \<in> set (save_object s) \<Longrightarrow> \<exists>x. jl_get jl j k = Some x \<and> field_reads jl p x"
    using json_faithfulE [OF assms(1, 5)] by metis
  have "hg_store_load jl rio root (fs\<lparr>files := (files fs)(p @ ''.tmp'' := None, p := Some t)\<rparr>) r = (1, load_fields jl j r)"
    by (rule load_reads [OF assms(3) pr _ assms(6, 7) j(2, 1)]) simp
  then show ?thesis
    using save_writes [OF assms(2) p assms(5)] load_fields_restores [OF assms(4) j(3)] by simp
qed

text \<open>C8. What was saved is loaded: when allocations and system calls succeed (in one write, or in however many short ones, provided
  that \<^verbatim>\<open>write\<close> leaves \<^verbatim>\<open>rsi\<close> alone, which the code takes for granted), a character's record is
  stored, and a later connection under the same name, in any letter case, gets back race, allegiance,
  title, weapon, room, all numbers, the moral marks, the passphrase hash and the items carried, each in its cell.
  The integers are those a double holds (up to 2^53), as the record stores them as JSON numbers.\<close>

theorem store_roundtrip:
  assumes "json_faithful jl" and "writes_well wio" and "reads_well rio" and "record_ok s"
    and "jl_print jl (PObj (save_object s)) = Some t" and "2 \<le> length t" and "length t \<le> 65536"
    and "character_path root 640 (s_name s) \<noteq> None" and "case_eq (s_name r) (s_name s)"
  shows "let (rc, fs') = hg_store_save jl wio root s fs
     in rc = 0 \<and> hg_store_load jl rio root fs' r = (1, restore s r)"
  by (rule store_roundtrip_core [OF assms])

section \<open>A concrete JSON library\<close>

fun plain :: "param \<Rightarrow> jval" where
  "plain (PStr s) = JStr s"
| "plain (PNum n) = JInt (sint n)"
| "plain (PBool b) = JBool b"
| "plain (PArr ps) = JArr (map plain ps)"
| "plain (PObj kvs) = JObj (map (\<lambda>(k, p). (k, plain p)) kvs)"

definition plain_json :: "jval json_lib" where
  "plain_json = \<lparr>jl_parse = json_parse, jl_print = Some \<circ> render \<circ> plain,
     jl_get = (\<lambda>j k. case j of JObj fs \<Rightarrow> map_of fs k | _ \<Rightarrow> None),
     jl_text = (\<lambda>j. case j of JStr s \<Rightarrow> Some s | _ \<Rightarrow> None),
     jl_num = (\<lambda>j. case j of JInt i \<Rightarrow> word_of_int i | _ \<Rightarrow> 0), jl_true = (\<lambda>j. j = JBool True),
     jl_items = (\<lambda>j. case j of JArr xs \<Rightarrow> xs | _ \<Rightarrow> [])\<rparr>"

lemma plain_field_reads: "field_reads plain_json p (plain p)"
  by (cases p) (auto simp: field_reads_def plain_json_def)

lemma plain_json_faithful: "json_faithful plain_json"
  unfolding json_faithful_def
proof (intro allI impI, elim conjE)
  fix kvs :: "(string \<times> param) list" and t
  assume d: "distinct (map fst kvs)" and "jl_print plain_json (PObj kvs) = Some t"
  then have t: "t = render (plain (PObj kvs))" by (simp add: plain_json_def)
  have "jl_get plain_json (plain (PObj kvs)) k = Some (plain p)" if "(k, p) \<in> set kvs" for k p
    using that d by (auto simp: plain_json_def map_of_map comp_def intro!: map_of_is_SomeI image_eqI)
  then show "nul_free t \<and> (\<exists>j. jl_parse plain_json t = Some j \<and>
      (\<forall>k p. (k, p) \<in> set kvs \<longrightarrow> (\<exists>x. jl_get plain_json j k = Some x \<and> field_reads plain_json p x)))"
    unfolding t using nul_free_render plain_field_reads by (auto simp: plain_json_def json_parse_render simp del: plain.simps)
qed

definition veteran :: session where
  "veteran = zero_session\<lparr>s_name := ''Mira'', s_race := ''elf'', s_faction := ''ally'', s_position := ''standing'',
     s_gold := 12, s_morality := -7, s_hp := 21, s_max_hp := 30, s_level := 2, s_redeemed := 1, s_secret_hash := ''$2b$10$xyz'',
     s_inv_count := 2, s_inventory := [''shiv'', ''charm''] @ replicate 14 []\<rparr>"

theorem store_roundtrip_witness:
  "let (rc, fs') = hg_store_save plain_json good_writes ''data/characters'' veteran
       \<lparr>files = (\<lambda>_. None)\<rparr>
   in rc = 0 \<and> hg_store_load plain_json \<lparr>r_open = True, r_seek = True, r_alloc = True, r_got = 70000\<rparr> ''data/characters'' fs'
       (zero_session\<lparr>s_name := ''mira''\<rparr>) = (1, restore veteran (zero_session\<lparr>s_name := ''mira''\<rparr>))"
proof -
  define vs where "vs = save_object veteran"
  have print: "jl_print plain_json (PObj (save_object veteran)) = Some (render (plain (PObj vs)))"
    by (simp add: plain_json_def vs_def)
  have "length (render (plain (PObj vs))) = 299"
    unfolding vs_def save_object_def saved_items_def veteran_def zero_session_def
    by (simp add: jquote_def commas_def json_esc_def esc_char_def esc_rep_def int_dec_def nat_dec.simps fmt_bool_def)
  then have len: "2 \<le> length (render (plain (PObj vs)))" "length (render (plain (PObj vs))) \<le> 65536" by simp_all
  have "record_ok veteran" by code_simp
  moreover have "character_path ''data/characters'' 640 (s_name veteran) \<noteq> None" by code_simp
  moreover have "case_eq (s_name (zero_session\<lparr>s_name := ''mira''\<rparr>)) (s_name veteran)" by code_simp
  ultimately show ?thesis
    by (intro store_roundtrip [OF plain_json_faithful good_writes_well _ _ print len]) (simp_all add: reads_well_def)
qed

text \<open>Mira is saved in pieces of 100 bytes.\<close>

theorem save_atomic_witness:
  "files (snd (hg_store_save plain_json good_writes ''data/characters'' veteran \<lparr>files = (\<lambda>_. None)\<rparr>)) ''data/characters/mira.json'' =
     Some (render (plain (PObj (save_object veteran))))"
proof -
  obtain rc fs' where save: "hg_store_save plain_json good_writes ''data/characters'' veteran \<lparr>files = (\<lambda>_. None)\<rparr> = (rc, fs')"
    by fastforce
  have p: "character_path ''data/characters'' 640 (s_name veteran) = Some ''data/characters/mira.json''" by code_simp
  have "rc = 0"
    using save_writes [OF good_writes_well p, of plain_json] save by (simp add: plain_json_def)
  moreover have "filter (\<lambda>(key, _). w_adds good_writes key) (save_object veteran) = save_object veteran"
    by (simp add: good_writes_def case_prod_beta)
  ultimately show ?thesis
    using save_atomic [of plain_json good_writes "''data/characters''" veteran "\<lparr>files = (\<lambda>_. None)\<rparr>"] save p
    by (simp add: plain_json_def del: render.simps plain.simps)
qed

end
