(* ===== verification/GridPolicy.thy ===== *)
theory GridPolicy
  imports Rolls Store "HOL-Library.Sublist"
begin

text \<open>
  \<^verbatim>\<open>asm/grid_policy.asm\<close>: the identity of a character that travels between nodes (how the hub's
  copy is merged with the local one) and the commands whoami, travel, worlds, listen and ping.  The texts are those
  of \<open>Format_Grid\<close>; the hub is \<open>GridHub\<close>.  Results of \<^verbatim>\<open>rand\<close> and of the clock are
  arguments.  The code reads \<^verbatim>\<open>rdi\<close> and \<^verbatim>\<open>r8\<close> after calls that may change them, and hands
  \<^verbatim>\<open>tolower\<close> the low half of a pointer instead of a letter; what then comes back is among the undefined
  values of \<open>Outbox\<close> (\<open>undefs\<close>).
\<close>

section \<open>Identity\<close>

record ident =
  id_level :: i64
  id_xp :: i64
  id_gold :: i64
  id_faction :: string
  id_morality :: i64
  id_title :: string
  id_race :: string
  id_ash :: i64

definition hub_char_canonical :: "character_row \<Rightarrow> bool" where
  "hub_char_canonical c \<longleftrightarrow> cr_present c \<and>
     (cr_race c \<noteq> [] \<or> 1 <s cr_level c \<or> 0 <s cr_xp c \<or> cr_faction c \<noteq> [] \<or> cr_morality c \<noteq> 0)"

definition identity_load_local :: "session \<Rightarrow> ident" where
  "identity_load_local s = \<lparr>id_level = s_level s, id_xp = s_xp s, id_gold = s_gold s,
     id_faction = copy_cap 16 (s_faction s), id_morality = s_morality s, id_title = copy_cap 48 (s_title s),
     id_race = copy_cap 16 (s_race s), id_ash = s_ashsworn s\<rparr>"

definition identity_merge_hub :: "character_row \<Rightarrow> ident \<Rightarrow> ident" where
  "identity_merge_hub c i =
     (let i = i\<lparr>id_level := cr_level c, id_xp := cr_xp c, id_gold := cr_gold c, id_morality := cr_morality c,
                id_race := copy_cap 16 (cr_race c)\<rparr>;
          i = (if id_faction i = ''ally'' then i else if id_faction i = ''front'' then i
               else i\<lparr>id_faction := copy_cap 16 (cr_faction c)\<rparr>);
          i = (if id_title i \<noteq> [] then i else i\<lparr>id_title := copy_cap 48 (cr_title c)\<rparr>)
      in i\<lparr>id_ash := (if cr_ashsworn c then 1 else 0)\<rparr>)"

definition identity_apply_to_session :: "ident \<Rightarrow> session \<Rightarrow> session" where
  "identity_apply_to_session i s = s\<lparr>s_level := id_level i, s_xp := id_xp i, s_gold := id_gold i,
     s_morality := id_morality i, s_ashsworn := id_ash i, s_faction := copy_cap 16 (id_faction i),
     s_title := copy_cap 48 (id_title i), s_race := copy_cap 16 (id_race i)\<rparr>"

definition hg_grid_load_session :: "('j, 'w) env \<Rightarrow> session option \<Rightarrow> 'w grid \<Rightarrow> (int \<times> session option) \<times> 'w grid" where
  "hg_grid_load_session env sp g =
     (if \<not> hg_grid_remote g then ((0, sp), g)
      else case sp of
        None \<Rightarrow> ((0, None), g)
      | Some s \<Rightarrow>
          if s_name s = [] then ((0, Some s), g)
          else let ((rc, c), g) = hg_grid_fetch_character env (Some (s_name s)) g
            in if rc < 0 then ((-1, Some s), g)
               else if cr_race c = [] then ((0, Some s), g)
               else ((1, Some (identity_apply_to_session (identity_merge_hub c (identity_load_local s)) s)), g))"

section \<open>Matching the name of a world\<close>

text \<open>\<^verbatim>\<open>strstr\<close>.\<close>

fun strstr :: "string \<Rightarrow> string \<Rightarrow> bool" where
  "strstr [] n = (n = [])"
| "strstr (c # h) n = (take (length n) (c # h) = n \<or> strstr h n)"

text \<open>\<^verbatim>\<open>grid_lower_inplace\<close> on the text at address \<open>p\<close>.  The loop moves each letter to
  \<^verbatim>\<open>esi\<close>, but \<^verbatim>\<open>tolower\<close> takes its argument in \<^verbatim>\<open>edi\<close>, which holds the low half of
  the pointer; the byte it returns goes to where \<^verbatim>\<open>rdi\<close> points after the call.  When that is not the
  letter, some other byte of memory is overwritten, and the model stops with the address.\<close>

fun grid_lower :: "undefs \<Rightarrow> addr \<Rightarrow> string \<Rightarrow> mem_error + string" where
  "grid_lower u p [] = Inr []"
| "grid_lower u p (c # cs) =
     (if u_tolower_rdi u p \<noteq> p then Inl (Stray_address (u_tolower_rdi u p))
      else ebind (grid_lower u (Suc p) cs) (\<lambda>t. Inr (char_of (unat (u_tolower u (word_of_nat p))) # t)))"

fun first_index :: "('a \<Rightarrow> bool) \<Rightarrow> 'a list \<Rightarrow> nat \<Rightarrow> nat option" where
  "first_index P [] i = None"
| "first_index P (x # xs) i = (if P x then Some i else first_index P xs (Suc i))"

text \<open>The search by part of a name: both names are copied to the stack, 64 bytes each, and lowered there.\<close>

fun match_part :: "undefs \<Rightarrow> string \<Rightarrow> grid_world_row list \<Rightarrow> nat \<Rightarrow> mem_error + nat option" where
  "match_part u t [] i = Inr None"
| "match_part u t (r # rs) i =
     ebind (grid_lower u (u_stack u) (copy_cap 64 (gw_id r))) (\<lambda>name.
     ebind (grid_lower u (u_stack u + 64) (copy_cap 64 t)) (\<lambda>part.
       if strstr (cstr name) (cstr part) then Inr (Some i) else match_part u t rs (Suc i)))"

definition grid_match_world :: "undefs \<Rightarrow> grid_world_row list \<Rightarrow> string option \<Rightarrow> mem_error + nat option" where
  "grid_match_world u rows target =
     (case target of
        None \<Rightarrow> Inr None
      | Some t \<Rightarrow>
          if t = [] then Inr None
          else case first_index (\<lambda>r. case_eq (gw_id r) t) rows 0 of
            Some i \<Rightarrow> Inr (Some i)
          | None \<Rightarrow> match_part u t rows 0)"

section \<open>Queueing a formatted buffer\<close>

text \<open>The commands queue as many bytes as the formatter reported, from a buffer of \<open>cap\<close> bytes; of these, those
  that have room in the outbox are read.  The formatter may have reported more than the buffer holds, or more than it put
  there: behind the text and its NUL are the bytes of an earlier one.\<close>

definition buffer_bytes :: "(nat \<Rightarrow> char) \<Rightarrow> string \<Rightarrow> nat \<Rightarrow> string" where
  "buffer_bytes behind t n = take n (t @ [NUL]) @ map behind [length t + 1..<n]"

lemma buffer_bytes_whole [simp]: "buffer_bytes behind t (length t) = t"
  by (simp add: buffer_bytes_def)

definition queue_buf :: "nat \<Rightarrow> addr \<Rightarrow> addr \<Rightarrow> fmt_result \<Rightarrow> 'a store_scheme \<Rightarrow> mem_error + 'a store_scheme" where
  "queue_buf cap a wsi r st =
     (let (n, t) = r; reads = min (nat n) (OUT_CAP - length (s_out (sess st a)))
      in if n < 0 then Inr st
         else if cap < reads then Inl (Out_of_bounds reads cap)
         else Inr (hg_session_queue a wsi (buffer_bytes (u_behind (undefs_of st)) t (nat n)) st))"

definition setup_cmd :: "addr \<Rightarrow> addr \<Rightarrow> 'a store_scheme \<Rightarrow> 'a store_scheme" where
  "setup_cmd a wsi st = upd_sess a (\<lambda>s. s\<lparr>s_wsi := wsi\<rparr>) st"

section \<open>The commands\<close>

definition who_unreachable :: string where
  "who_unreachable = ''(the Grid is unreachable; showing your local self)'' @ crlf"

definition ident_fields :: "string \<Rightarrow> ident \<Rightarrow> char_identity_fields" where
  "ident_fields name i = \<lparr>cf_name = Some name, cf_level = id_level i, cf_xp = id_xp i, cf_gold = id_gold i,
     cf_faction = Some (id_faction i), cf_morality = id_morality i, cf_title = Some (id_title i),
     cf_race = Some (id_race i), cf_ashsworn = id_ash i\<rparr>"

definition hg_cmd_whoami :: "('j, 'w) env \<Rightarrow> addr \<Rightarrow> addr \<Rightarrow> 'w grid \<Rightarrow> 'a store_scheme \<Rightarrow> 'a store_scheme \<times> 'w grid" where
  "hg_cmd_whoami env a wsi g st =
     (let st = setup_cmd a wsi st; s = sess st a; fields = session_identity s
      in if \<not> hg_grid_remote g then (hg_whoami_reply a wsi (Some fields) st, g)
         else let ((rc, c), g) = hg_grid_fetch_character env (Some (s_name s)) g;
                  i = identity_load_local s
           in if rc < 0 then (hg_whoami_reply a wsi (Some fields) (hg_queue_cstr a (Some who_unreachable) st), g)
              else let i = (if hub_char_canonical c then identity_merge_hub c i else i)
                in (hg_whoami_reply a wsi (Some (ident_fields (s_name s) i)) st, g))"

text \<open>The \<open>jnz\<close> of the worlds command reads the zero flag that \<^verbatim>\<open>strcmp\<close> happens to leave,
  which the calling convention does not define: \<open>zf\<close> is that flag for two strings.\<close>

definition hg_cmd_worlds ::
  "('j, 'w) env \<Rightarrow> (nat \<Rightarrow> i64) \<Rightarrow> i64 \<Rightarrow> (string \<Rightarrow> string \<Rightarrow> bool) \<Rightarrow> addr \<Rightarrow> addr \<Rightarrow> 'w grid \<Rightarrow> 'a store_scheme
     \<Rightarrow> (mem_error + 'a store_scheme) \<times> 'w grid" where
  "hg_cmd_worlds env clock now zf a wsi g st =
     (let st = setup_cmd a wsi st;
          ((rc, rows), g) = hg_grid_list_worlds env clock 8 g
      in if rc < 0 then (queue_buf 3072 a wsi (hg_fmt_grid_worlds_unreachable 3072) st, g)
         else let reach = map (\<lambda>r. if gw_last_seen r \<le>s 0 then 0 else 1) rows;
                  active = map (\<lambda>r. if gw_last_seen r \<le>s 0 then 0 else if gw_last_seen r \<le>s now - 60000 then 0 else 1) rows;
                  here = map (\<lambda>r. if zf (gw_id r) (hg_grid_world_name g) then 1 else 0) rows
           in (queue_buf 3072 a wsi (hg_fmt_grid_worlds 3072 rows (Some reach) (Some active) (Some here) rc) st, g))"

text \<open>The row of the matched world is found again by way of \<^verbatim>\<open>r8\<close>, after \<^verbatim>\<open>strcmp\<close>.\<close>

definition hg_cmd_travel ::
  "('j, 'w) env \<Rightarrow> (nat \<Rightarrow> i64) \<Rightarrow> i64 \<Rightarrow> (string \<Rightarrow> string \<Rightarrow> bool) \<Rightarrow> addr \<Rightarrow> addr \<Rightarrow> string option \<Rightarrow> 'w grid
     \<Rightarrow> 'a store_scheme \<Rightarrow> (mem_error + 'a store_scheme) \<times> 'w grid" where
  "hg_cmd_travel env clock now zf a wsi target g st =
     (if or_default target [] = [] then hg_cmd_worlds env clock now zf a wsi g (setup_cmd a wsi st)
      else let st = setup_cmd a wsi st;
               ((rc, rows), g) = hg_grid_list_worlds env clock 8 g
        in if rc < 0 then (queue_buf 512 a wsi (hg_fmt_grid_travel_unreachable 512) st, g)
           else (ebind (grid_match_world (undefs_of st) rows target) (\<lambda>found. case found of
             None \<Rightarrow> queue_buf 512 a wsi (hg_fmt_grid_travel_missing 512 target) st
           | Some i \<Rightarrow>
               if gw_id (rows ! i) = hg_grid_world_name g then
                 queue_buf 512 a wsi (hg_fmt_grid_travel_here 512 (Some (hg_grid_world_name g))) st
               else case u_strcmp_r8 (undefs_of st) (gw_id (rows ! i), gw_url (rows ! i)) of
                 Inl p \<Rightarrow> Inl (Stray_address p)
               | Inr (wid, wurl) \<Rightarrow>
                   let r = hg_fmt_grid_travel_handoff 512 (Some wid) (Some wurl)
                   in if fst r < 0 then Inr st
                      else ebind (queue_buf 512 a wsi r st) (\<lambda>st. Inr (upd_sess a (\<lambda>s. s\<lparr>s_close := 1\<rparr>) st))), g))"

definition pick :: "nat \<Rightarrow> nat \<Rightarrow> i32" where
  "pick rnd n = word_of_nat (rnd mod n)"

definition hg_cmd_listen ::
  "('j, 'w) env \<Rightarrow> nat \<Rightarrow> addr \<Rightarrow> addr \<Rightarrow> 'w grid \<Rightarrow> 'a store_scheme \<Rightarrow> (mem_error + 'a store_scheme) \<times> 'w grid" where
  "hg_cmd_listen env rnd a wsi g st =
     (let st = setup_cmd a wsi st; say = (\<lambda>r. queue_buf 3072 a wsi r st)
      in if 0 < gl_echo_n (g_local g) then
           (case hg_grid_local_echo_ptrs (pick rnd (gl_echo_n (g_local g))) (g_local g) of
              None \<Rightarrow> (Inr st, g)
            | Some e \<Rightarrow> (say (hg_fmt_grid_listen_echo 3072 (Some (ec_text e))), g))
         else if \<not> hg_grid_remote g then
           (if gl_trace_n (g_local g) = 0 then (say (hg_fmt_grid_listen_empty 3072), g)
            else case hg_grid_local_trace_at (pick rnd (gl_trace_n (g_local g))) g of
              None \<Rightarrow> (say (hg_fmt_grid_listen_empty 3072), g)
            | Some t \<Rightarrow> (say (hg_fmt_grid_listen_trace 3072 (Some (ft_text t)) (Some (ft_world t)) (Some (hg_grid_world_name g))), g))
         else let ((rc, rows), g) = hg_grid_fetch_recent env 20 20 g
           in if rc \<le> 0 then (say (hg_fmt_grid_listen_empty 3072), g)
              else let t = rows ! (rnd mod nat rc)
                in (say (hg_fmt_grid_listen_trace 3072 (Some (ft_text t)) (Some (ft_world t)) (Some (hg_grid_world_name g))), g))"

text \<open>Ping.  The local traces of other worlds, at most eight; the echoes of a room, at most six.  Whether the name of
  the world is empty is read through \<^verbatim>\<open>rdi\<close> after \<^verbatim>\<open>strcmp\<close>: \<open>at_rdi\<close> is the
  text found there.\<close>

fun foreign_traces :: "(string \<Rightarrow> string) \<Rightarrow> 'w grid \<Rightarrow> nat list \<Rightarrow> federation_trace list \<Rightarrow> federation_trace list" where
  "foreign_traces at_rdi g [] out = out"
| "foreign_traces at_rdi g (i # is') out =
     (if 8 \<le> length out then out
      else case hg_grid_local_trace_at (word_of_nat i) g of
        None \<Rightarrow> foreign_traces at_rdi g is' out
      | Some t \<Rightarrow>
          if ft_world t = hg_grid_world_name g then foreign_traces at_rdi g is' out
          else if at_rdi (ft_world t) = [] then foreign_traces at_rdi g is' out
          else foreign_traces at_rdi g is' (out @ [t]))"

fun room_echoes :: "local_hub \<Rightarrow> string option \<Rightarrow> nat list \<Rightarrow> echo_row list \<Rightarrow> echo_row list" where
  "room_echoes h room [] out = out"
| "room_echoes h room (i # is') out =
     (if 6 \<le> length out then out
      else case hg_grid_local_echo_ptrs (word_of_nat i) h of
        None \<Rightarrow> room_echoes h room is' out
      | Some e \<Rightarrow> if room = Some (ec_node e) then room_echoes h room is' (out @ [e]) else room_echoes h room is' out)"

text \<open>On a remote node the command calls \<^verbatim>\<open>hg_grid_fetch_recent_across(buffer, 8, 8, &count)\<close>, but
  the function takes the limit first and the buffer second: it asks for as many traces as the low half of the
  buffer's address says (\<open>low\<close>), and writes the rows it gets to address 8.\<close>

definition ping_all_remote :: "('j, 'w) env \<Rightarrow> i32 \<Rightarrow> 'w grid \<Rightarrow> (mem_error + int) \<times> 'w grid" where
  "ping_all_remote env low g =
     (let ((rc, rows), g) = hg_grid_fetch_recent_across env low 8 g
      in (if rows \<noteq> [] then Inl (Bad_address 8) else Inr (if rc < 0 then 0 else if rc \<le> 8 then rc else 8), g))"

definition hg_cmd_ping ::
  "('j, 'w) env \<Rightarrow> i32 \<Rightarrow> addr \<Rightarrow> addr \<Rightarrow> string option \<Rightarrow> 'w grid \<Rightarrow> 'a store_scheme \<Rightarrow> (mem_error + 'a store_scheme) \<times> 'w grid" where
  "hg_cmd_ping env low a wsi arg g st =
     (let st = setup_cmd a wsi st
      in if case_eq (or_default arg []) ''all'' then
           (if hg_grid_remote g then
              (let (r, g) = ping_all_remote env low g
               in (ebind r (\<lambda>n. queue_buf 3072 a wsi (hg_fmt_grid_ping_all 3072 [] n) st), g))
            else let ts = foreign_traces (u_strcmp_rdi (undefs_of st)) g [0..<gl_trace_n (g_local g)] []
              in (queue_buf 3072 a wsi (hg_fmt_grid_ping_all 3072 ts (int (length ts))) st, g))
         else let room = hg_room_id (s_room (sess st a));
                  es = room_echoes (g_local g) room [0..<gl_echo_n (g_local g)] []
           in (queue_buf 3072 a wsi (hg_fmt_grid_ping_echo 3072 room (Some (map (Some \<circ> ec_text) es))
                 (Some (map (Some \<circ> ec_kind) es)) (Some (map ec_at es)) (int (length es))) st, g))"


section \<open>The travelling identity\<close>

text \<open>What the merge amounts to on the cells of a session.\<close>

definition merged :: "character_row \<Rightarrow> session \<Rightarrow> session" where
  "merged c s = s\<lparr>s_level := cr_level c, s_xp := cr_xp c, s_gold := cr_gold c, s_morality := cr_morality c,
     s_race := cr_race c, s_ashsworn := (if cr_ashsworn c then 1 else 0),
     s_faction := (if s_faction s = ''ally'' \<or> s_faction s = ''front'' then s_faction s else cr_faction c),
     s_title := (if s_title s \<noteq> [] then s_title s else cr_title c)\<rparr>"

definition row_cells_ok :: "character_row \<Rightarrow> bool" where
  "row_cells_ok c \<longleftrightarrow> length (cr_faction c) < 16 \<and> length (cr_title c) < 48 \<and> length (cr_race c) < 16"

lemma fetched_row_ok: "row_cells_ok (snd (fst (hg_grid_fetch_character env name g)))"
  using length_safe_copy
  by (auto simp: hg_grid_fetch_character_def row_cells_ok_def zero_character_def split: prod.split option.split)

lemma fetch_character_keeps: "keeps g (snd (hg_grid_fetch_character env name g))"
  using rpc_call_keeps [of g env "''loadCharacter''" "Some [pstr name]"]
  by (auto simp: hg_grid_fetch_character_def split: prod.split option.split)

lemma merge_on_session:
  assumes "row_cells_ok c" and "cells_ok s"
  shows "identity_apply_to_session (identity_merge_hub c (identity_load_local s)) s = merged c s"
  using assms
  by (simp add: identity_apply_to_session_def identity_merge_hub_def identity_load_local_def merged_def Let_def
      cells_ok_def cell_ok_def row_cells_ok_def copy_cap_id)

lemma merge_fields:
  assumes "row_cells_ok c" and "cells_ok s"
  shows "ident_fields (s_name s) (identity_merge_hub c (identity_load_local s)) = session_identity (merged c s)"
  using assms
  by (simp add: ident_fields_def identity_merge_hub_def identity_load_local_def merged_def Let_def session_identity_def
      cells_ok_def cell_ok_def row_cells_ok_def copy_cap_id)

text \<open>C25. A character follows its player to another node: at login on a node with a reachable hub that knows the
  name, the session gets the hub's level, experience, gold, morality, race and ash mark; an oath sworn here (to the
  allies or to the Front) and a title earned here are kept, otherwise they come from the hub.  In every other case
  the session is unchanged, and the status tells the cases apart: 1, 0 for a name the hub does not know (or no hub),
  -1 for a hub that does not answer.  What whoami shows afterwards is the identity a login would give.\<close>

theorem identity_follows:
  assumes "cells_ok s" and "s_name s \<noteq> []"
  shows "let ((rc, sp), g') = hg_grid_load_session env (Some s) g;
             ((frc, c), _) = hg_grid_fetch_character env (Some (s_name s)) g
     in rc = (if \<not> g_remote g then 0 else if frc < 0 then -1 else if cr_race c = [] then 0 else 1) \<and>
        sp = Some (if rc = 1 then merged c s else s) \<and> keeps g g' \<and>
        (sess st a = s \<and> rc = 1 \<longrightarrow> fst (hg_cmd_whoami env a wsi g st) =
           hg_whoami_reply a wsi (Some (session_identity (merged c s))) (setup_cmd a wsi st))"
proof -
  obtain frc c g' where f: "hg_grid_fetch_character env (Some (s_name s)) g = ((frc, c), g')" by (metis prod.exhaust)
  have row: "row_cells_ok c" and keep: "keeps g g'"
    using fetched_row_ok [of env "Some (s_name s)" g] fetch_character_keeps [of g env "Some (s_name s)"] f by simp_all
  have present: "hub_char_canonical c" if "g_remote g" "\<not> frc < 0" "cr_race c \<noteq> []"
    using f that by (auto simp: hg_grid_fetch_character_def hub_char_canonical_def split: prod.splits option.splits if_splits)
  have wsi: "merged c (s\<lparr>s_wsi := wsi\<rparr>) = (merged c s)\<lparr>s_wsi := wsi\<rparr>" by (simp add: merged_def)
  have ident: "session_identity ((merged c s)\<lparr>s_wsi := wsi\<rparr>) = session_identity (merged c s)"
    by (simp add: session_identity_def)
  have "cells_ok (s\<lparr>s_wsi := wsi\<rparr>)" using assms(1) by (simp add: cells_ok_def)
  note fields = merge_fields [OF row this, unfolded wsi ident, simplified]
  show ?thesis
    using assms present
    by (auto simp: hg_grid_load_session_def hg_grid_remote_def f keep merge_on_session [OF row assms(1)]
        hg_cmd_whoami_def setup_cmd_def fields Let_def)
qed

section \<open>World names\<close>

lemma strstr_sublist: "strstr h n \<longleftrightarrow> sublist n h"
proof (induction h)
  case (Cons c h)
  have "take (length n) (c # h) = n \<longleftrightarrow> prefix n (c # h)"
    by (metis append_eq_conv_conj prefix_def take_is_prefix)
  with Cons show ?case by (simp add: sublist_Cons_right)
qed simp

lemma first_index_filter:
  "first_index P xs k = (case filter (\<lambda>i. P (xs ! (i - k))) [k..<k + length xs] of [] \<Rightarrow> None | i # _ \<Rightarrow> Some i)"
proof (induction xs arbitrary: k)
  case (Cons x xs)
  have "filter (\<lambda>i. P ((x # xs) ! (i - k))) [Suc k..<Suc k + length xs] =
      filter (\<lambda>i. P (xs ! (i - Suc k))) [Suc k..<Suc k + length xs]"
    by (rule filter_cong) (auto simp: nth_Cons' )
  moreover have "[k..<k + length (x # xs)] = k # [Suc k..<Suc k + length xs]" by (simp add: upt_rec)
  ultimately show ?case using Cons.IH [of "Suc k"] by simp
qed simp

text \<open>A letter lowered this way is the low byte of its address.\<close>

lemma low_byte: "char_of (unat (word_of_nat p :: i32)) = (char_of p :: char)"
proof -
  have "p mod 4294967296 mod 256 = p mod 256" by (simp add: mod_mod_cancel)
  then have "(char_of (p mod 4294967296) :: char) = char_of p" by (metis char_of_mod_256)
  then show ?thesis by (simp add: unat_of_nat take_bit_eq_mod)
qed
lemma char_of_nul: "(char_of q :: char) = NUL \<longleftrightarrow> q mod 256 = 0" for q :: nat
proof -
  have "(char_of q :: char) = NUL \<longleftrightarrow> (of_char (char_of q :: char) :: nat) = of_char NUL" by (simp only: of_char_eq_iff)
  then show ?thesis by simp
qed
lemma addresses_no_part:
  assumes "k < 64" and "l \<noteq> 0"
  shows "strstr (cstr (map char_of [p..<p + k])) (cstr (map char_of [p + 64..<p + 64 + l])) \<longleftrightarrow> (p + 64) mod 256 = 0"
proof -
  let ?n = "cstr (map char_of [p + 64..<p + 64 + l])" let ?h = "cstr (map char_of [p..<p + k])"
  have l: "[p + 64..<p + 64 + l] = (p + 64) # [Suc (p + 64)..<p + 64 + l]" using assms(2) by (intro upt_conv_Cons) simp
  show ?thesis
  proof (cases "(p + 64) mod 256 = 0")
    case True
    then have "(char_of (p + 64) :: char) = NUL" by (simp only: char_of_nul)
    then have "?n = []" unfolding l by (simp add: cstr_def)
    with True show ?thesis by (simp add: strstr_sublist)
  next
    case False
    then have "(char_of (p + 64) :: char) \<noteq> NUL" by (simp only: char_of_nul) simp
    then have "char_of (p + 64) \<in> set ?n" unfolding l by (simp add: cstr_def)
    moreover have "char_of (p + 64) \<notin> set ?h"
    proof
      assume "char_of (p + 64) \<in> set ?h"
      then have "(char_of (p + 64) :: char) \<in> set (map char_of [p..<p + k])"
        unfolding cstr_def by (rule set_takeWhileD [THEN conjunct1])
      then obtain q where q: "q \<in> {p..<p + k}" "(char_of (p + 64) :: char) = char_of q"
        unfolding set_map set_upt by (rule imageE)
      from q(2) have "(of_char (char_of (p + 64) :: char) :: nat) = of_char (char_of q :: char)" by (rule arg_cong)
      then have eq: "(p + 64) mod 256 = q mod 256" by (simp only: of_char_of)
      have b: "q \<le> p + 64" "0 < p + 64 - q" "p + 64 - q < 256" using q(1) assms(1) by auto
      from eq have "256 dvd p + 64 - q" by (simp only: mod_eq_dvd_iff_nat [OF b(1)])
      then have "256 \<le> p + 64 - q" using b(2) by (rule dvd_imp_le)
      then show False using b(3) by simp
    qed
    ultimately show ?thesis using False set_mono_sublist [of ?n ?h] by (auto simp: strstr_sublist)
  qed
qed

lemma lowered_addresses:
  assumes "\<And>q. u_tolower_rdi u q = q" and "\<And>q. p \<le> q \<Longrightarrow> q < p + length s \<Longrightarrow> u_tolower u (word_of_nat q) = word_of_nat q"
  shows "grid_lower u p s = Inr (map char_of [p..<p + length s])"
  using assms(2)
proof (induction s arbitrary: p)
  case (Cons c s)
  have "[p..<p + length (c # s)] = p # [Suc p..<Suc p + length s]" by (subst upt_conv_Cons) simp_all
  with Cons show ?case by (simp add: assms(1) low_byte del: upt_Suc)
qed simp

text \<open>The addresses of the two copies, and that \<^verbatim>\<open>tolower\<close> gives them back: they are no letters.\<close>

definition returns_addresses :: "undefs \<Rightarrow> bool" where
  "returns_addresses u \<longleftrightarrow> (\<forall>p. u_tolower_rdi u p = p) \<and>
     (\<forall>p \<in> {u_stack u..<u_stack u + 128}. u_tolower u (word_of_nat p) = word_of_nat p)"

lemma match_part_addresses:
  assumes "returns_addresses u" and "t \<noteq> []"
  shows "match_part u t rows i = Inr (if rows \<noteq> [] \<and> (u_stack u + 64) mod 256 = 0 then Some i else None)"
proof (induction rows arbitrary: i)
  case (Cons r rows)
  let ?s = "u_stack u" let ?k = "length (copy_cap 64 (gw_id r))" let ?l = "length (copy_cap 64 t)"
  have len: "?k < 64" "?l < 64" "?l \<noteq> 0" using assms(2) by (simp_all add: copy_cap_less) (simp add: copy_cap_def)
  have same: "u_tolower_rdi u q = q" for q using assms(1) by (simp add: returns_addresses_def)
  have gives: "u_tolower u (word_of_nat q) = word_of_nat q" if "?s \<le> q" "q < ?s + 128" for q
    using assms(1) that by (simp add: returns_addresses_def)
  have "grid_lower u ?s (copy_cap 64 (gw_id r)) = Inr (map char_of [?s..<?s + ?k])"
    using len by (intro lowered_addresses same gives) simp_all
  moreover have "grid_lower u (?s + 64) (copy_cap 64 t) = Inr (map char_of [?s + 64..<?s + 64 + ?l])"
    using len by (intro lowered_addresses same gives) simp_all
  ultimately show ?case using addresses_no_part [OF len(1, 3)] Cons by simp
qed simp


section \<open>Travel\<close>

lemma worlds_listed:
  "let ((rc, rows), g') = hg_grid_list_worlds env clock 8 g
   in list_all world_row_ok rows \<and> hg_grid_world_name g' = hg_grid_world_name g"
proof -
  have "keeps g (snd (hg_grid_list_worlds env clock 8 g))" by (rule worlds_read.op_keeps)
  then have name: "hg_grid_world_name (snd (hg_grid_list_worlds env clock 8 g)) = hg_grid_world_name g"
    by (simp add: keeps_def config_def hg_grid_world_name_def)
  have "list_all world_row_ok (snd (fst (hg_grid_list_worlds env clock 8 g)))"
  proof (cases "g_remote g")
    case False
    then show ?thesis
      by (auto simp: hg_grid_list_worlds_def Let_def list_all_iff world_row_ok_def)
  next
    case True
    have "fits_in 8 world_row_ok (apfst rows_counted (fetch_rows env ''listWorlds'' [] 8 (Some \<circ> world_row env) g))"
      by (rule fetch_rows_bound) (auto simp: world_row_ok_def world_row_def)
    with True show ?thesis
      by (auto simp: hg_grid_list_worlds_def HG_GRID_MAX_WORLDS_def fits_in_def split: prod.splits)
  qed
  with name show ?thesis by (simp add: case_prod_beta Let_def)
qed

lemma first_index_bound: "first_index P xs k = Some i \<Longrightarrow> k \<le> i \<and> i < k + length xs"
  by (induction P xs k rule: first_index.induct) (auto split: if_splits)

lemma match_part_bound: "match_part u t rows k = Inr (Some i) \<Longrightarrow> k \<le> i \<and> i < k + length rows"
  by (induction u t rows k rule: match_part.induct) (fastforce split: if_splits)+

lemma match_bound: "grid_match_world u rows target = Inr (Some i) \<Longrightarrow> i < length rows"
  by (auto simp: grid_match_world_def split: option.splits if_splits dest: first_index_bound match_part_bound)

text \<open>What the hand-off relies on: \<^verbatim>\<open>strcmp\<close> leaves \<^verbatim>\<open>r8\<close> alone.\<close>

definition strcmp_keeps_r8 :: "undefs \<Rightarrow> bool" where
  "strcmp_keeps_r8 u \<longleftrightarrow> (\<forall>w v. u_strcmp_r8 u (w, v) = Inr (w, v))"

lemma queue_buf_whole: "length t < cap \<Longrightarrow> queue_buf cap a wsi (snprintf cap t) st = Inr (hg_session_queue a wsi t st)"
  by (auto simp: queue_buf_def snprintf_def Let_def min_def)

lemma queue_buf_over:
  "cap < length t \<Longrightarrow> length t \<le> OUT_CAP - length (s_out (sess st a)) \<Longrightarrow>
     queue_buf cap a wsi (snprintf cap t) st = Inl (Out_of_bounds (length t) cap)"
  by (simp add: queue_buf_def snprintf_def min_def)

definition here_text :: "string \<Rightarrow> string" where
  "here_text w = ''You're already in '' @ w @ ''.'' @ crlf"


section \<open>Ping\<close>

lemma foreign_traces_spec:
  "length out \<le> 8 \<Longrightarrow> foreign_traces f g is' out =
     take 8 (out @ filter (\<lambda>t. ft_world t \<noteq> hg_grid_world_name g \<and> f (ft_world t) \<noteq> [])
       (List.map_filter (\<lambda>i. hg_grid_local_trace_at (word_of_nat i) g) is'))"
  by (induction f g is' out rule: foreign_traces.induct) (auto simp: map_filter_simps split: option.split)

lemma room_echoes_spec:
  "length out \<le> 6 \<Longrightarrow> room_echoes h room is' out =
     take 6 (out @ filter (\<lambda>e. room = Some (ec_node e))
       (List.map_filter (\<lambda>i. hg_grid_local_echo_ptrs (word_of_nat i) h) is'))"
  by (induction h room is' out rule: room_echoes.induct) (auto simp: map_filter_simps split: option.split)

lemma unat_index: "i < n \<Longrightarrow> n \<le> 200 \<Longrightarrow> unat (word_of_nat i :: i32) = i"
  by (simp add: unat_of_nat take_bit_eq_mod)

lemma indexed_live:
  assumes "n \<le> length rows" and "n \<le> 200"
  shows "List.map_filter (\<lambda>i. if unat (word_of_nat i :: i32) < n then Some (f (rows ! unat (word_of_nat i :: i32))) else None) [0..<n] =
    map f (take n rows)"
proof -
  have "List.map_filter (\<lambda>i. if unat (word_of_nat i :: i32) < n then Some (f (rows ! unat (word_of_nat i :: i32))) else None) [0..<m] =
      map f (take m rows)" if "m \<le> n" for m
    using that
  proof (induction m)
    case (Suc m)
    then have "unat (word_of_nat m :: i32) = m" using assms(2) by (intro unat_index [of m n]) simp_all
    with Suc assms(1) show ?case by (simp add: map_filter_def take_Suc_conv_app_nth)
  qed (simp add: map_filter_simps)
  then show ?thesis by simp
qed

definition cut_trace :: "federation_trace \<Rightarrow> federation_trace" where
  "cut_trace t = \<lparr>ft_world = safe_copy 48 (Some (ft_world t)), ft_node = safe_copy 64 (Some (ft_node t)),
     ft_kind = safe_copy 24 (Some (ft_kind t)), ft_text = safe_copy 200 (Some (ft_text t)), ft_at = ft_at t\<rparr>"

text \<open>What a ping collects: of the room's own node, the newest six echoes that were left in it, in order; of the
  network, on a lone node, the newest eight traces of other worlds (less those for which \<^verbatim>\<open>rdi\<close> leads to an empty text after \<^verbatim>\<open>strcmp\<close>).  On a node with a remote hub, though, a ping of
  the network never shows a trace: the arguments of the fetch are in the wrong places, so that any trace the hub
  sends is written to address 8, and only an empty answer (or none) is announced, as an empty network.\<close>

lemma ping_collects:
  assumes "hub_ok (g_local g)"
  shows "let st' = setup_cmd a wsi st; room = hg_room_id (s_room (sess st a));
             es = take 6 (filter (\<lambda>e. room = Some (ec_node e)) (echoes (g_local g)));
             ts = take 8 (filter (\<lambda>t. ft_world t \<noteq> hg_grid_world_name g \<and> u_strcmp_rdi (undefs_of st) (ft_world t) \<noteq> []) (map cut_trace (traces (g_local g))))
    in fst (hg_cmd_ping env low a wsi None g st) =
         queue_buf 3072 a wsi (hg_fmt_grid_ping_echo 3072 room (Some (map (Some \<circ> ec_text) es))
           (Some (map (Some \<circ> ec_kind) es)) (Some (map ec_at es)) (int (length es))) st' \<and>
       fst (hg_cmd_ping env low a wsi (Some ''all'') g st) =
         (if \<not> g_remote g then queue_buf 3072 a wsi (hg_fmt_grid_ping_all 3072 ts (int (length ts))) st'
          else if snd (fst (hg_grid_fetch_recent_across env low 8 g)) \<noteq> [] then Inl (Bad_address 8)
          else queue_buf 3072 a wsi (hg_fmt_grid_ping_all 3072 [] 0) st')"
proof -
  have lens: "gl_trace_n (g_local g) \<le> length (gl_traces (g_local g))" "gl_trace_n (g_local g) \<le> 200"
      "gl_echo_n (g_local g) \<le> length (gl_echo (g_local g))" "gl_echo_n (g_local g) \<le> 200"
    using assms by (auto simp: hub_ok_def log_ok_def GL_MAX_TRACES_def GL_MAX_ECHO_def)
  have tr: "List.map_filter (\<lambda>i. hg_grid_local_trace_at (word_of_nat i) g) [0..<gl_trace_n (g_local g)] =
      map cut_trace (traces (g_local g))"
    using indexed_live [OF lens(1, 2), of cut_trace]
    by (simp add: hg_grid_local_trace_at_def hg_grid_local_trace_ptrs_def traces_def live_def cut_trace_def if_distrib
        cong: if_cong)
  have ec: "List.map_filter (\<lambda>i. hg_grid_local_echo_ptrs (word_of_nat i) (g_local g)) [0..<gl_echo_n (g_local g)] =
      echoes (g_local g)"
    using indexed_live [OF lens(3, 4), of "\<lambda>e. e"]
    by (simp add: hg_grid_local_echo_ptrs_def echoes_def live_def)
  have empty: "(if rc < 0 then 0 else if rc \<le> 8 then rc else 8) = (0 :: int)"
    if "hg_grid_fetch_recent_across env low 8 g = ((rc, []), g')" for rc g'
    using that by (auto simp: hg_grid_fetch_recent_across_def fetch_rows_def rows_counted_def split: prod.splits option.splits if_splits)
  have all: "case_eq ''all'' ''all''" "\<not> case_eq [] ''all''" by (simp_all add: case_eq_def)
  have un: "undefs_of (setup_cmd a wsi st) = undefs_of st" by (simp add: setup_cmd_def)
  have room: "s_room (sess (setup_cmd a wsi st) a) = s_room (sess st a)" by (simp add: setup_cmd_def)
  obtain rc rows g' where f: "hg_grid_fetch_recent_across env low 8 g = ((rc, rows), g')" by (metis prod.exhaust)
  have remote: "fst (hg_cmd_ping env low a wsi (Some ''all'') g st) =
      (if rows \<noteq> [] then Inl (Bad_address 8) else queue_buf 3072 a wsi (hg_fmt_grid_ping_all 3072 [] 0) (setup_cmd a wsi st))"
    if "g_remote g"
    using that f empty by (auto simp: hg_cmd_ping_def or_default_def all hg_grid_remote_def ping_all_remote_def Let_def)
  have "fst (hg_cmd_ping env low a wsi (Some ''all'') g st) =
      queue_buf 3072 a wsi (hg_fmt_grid_ping_all 3072
        (take 8 (filter (\<lambda>t. ft_world t \<noteq> hg_grid_world_name g \<and> u_strcmp_rdi (undefs_of st) (ft_world t) \<noteq> []) (map cut_trace (traces (g_local g)))))
        (int (length (take 8 (filter (\<lambda>t. ft_world t \<noteq> hg_grid_world_name g \<and> u_strcmp_rdi (undefs_of st) (ft_world t) \<noteq> []) (map cut_trace (traces (g_local g))))))))
        (setup_cmd a wsi st)" if "\<not> g_remote g"
    using that by (simp add: hg_cmd_ping_def or_default_def all hg_grid_remote_def foreign_traces_spec tr un Let_def)
  moreover have "fst (hg_cmd_ping env low a wsi None g st) =
      (let room = hg_room_id (s_room (sess st a)); es = take 6 (filter (\<lambda>e. room = Some (ec_node e)) (echoes (g_local g)))
       in queue_buf 3072 a wsi (hg_fmt_grid_ping_echo 3072 room (Some (map (Some \<circ> ec_text) es))
           (Some (map (Some \<circ> ec_kind) es)) (Some (map ec_at es)) (int (length es))) (setup_cmd a wsi st))"
    by (simp add: hg_cmd_ping_def or_default_def all room_echoes_spec ec room Let_def)
  ultimately show ?thesis using remote f by (simp add: Let_def)
qed


section \<open>Examples\<close>

text \<open>A transport that delivers one fixed reply, with the JSON values of \<open>Json\<close> as cJSON.\<close>

definition answers :: "string \<Rightarrow> (jval, unit) env" where
  "answers reply = \<lparr>e_parse = json_parse, e_print = (\<lambda>_. Some []), e_get = jl_get plain_json,
     e_true = jl_true plain_json, e_str = jl_text plain_json,
     e_ll = (\<lambda>j. case j of JInt i \<Rightarrow> Some (word_of_int i) | _ \<Rightarrow> None),
     e_int = (\<lambda>j. case j of JInt i \<Rightarrow> Some (word_of_int i) | _ \<Rightarrow> None),
     e_items = (\<lambda>j. case j of JArr xs \<Rightarrow> Some xs | _ \<Rightarrow> None),
     e_object = (\<lambda>j. case j of JObj _ \<Rightarrow> True | _ \<Rightarrow> False), e_perform = (\<lambda>_ w. (w, True, [reply]))\<rparr>"

definition elf_reply :: jval where
  "elf_reply = JObj [(''ok'', JBool True), (''result'', JObj [(''race'', JStr ''elf''), (''level'', JInt 4),
     (''faction'', JStr ''front''), (''title'', JStr ''Returned''), (''ashsworn'', JBool True)])]"

theorem identity_follows_witness:
  "fst (hg_grid_load_session (answers (render elf_reply)) (Some (zero_session\<lparr>s_name := ''Mira'', s_faction := ''ally''\<rparr>)) (remote_grid ())) =
     (1, Some (zero_session\<lparr>s_name := ''Mira'', s_faction := ''ally'', s_race := ''elf'', s_level := 4, s_gold := 20,
        s_title := ''Returned'', s_ashsworn := 1\<rparr>))"
proof -
  let ?s = "zero_session\<lparr>s_name := ''Mira'', s_faction := ''ally''\<rparr>"
  let ?c = "\<lparr>cr_level = 4, cr_xp = 0, cr_gold = 20, cr_faction = ''front'', cr_morality = 0, cr_title = ''Returned'',
    cr_race = ''elf'', cr_ashsworn = True, cr_present = True\<rparr>"
  have ok: "cells_ok ?s" "s_name ?s \<noteq> []" by (simp_all add: cells_ok_def zero_session_def cell_ok_def)
  have fetch: "fst (hg_grid_fetch_character (answers (render elf_reply)) (Some (s_name ?s)) (remote_grid ())) = (0, ?c)"
    by (simp add: hg_grid_fetch_character_def rpc_call_def remote_grid_def answers_def elf_reply_def json_parse_render
        nul_free_render curl_write_cb_def json_num_def json_str_def safe_copy_def snprintf_def or_default_def plain_json_def
        del: render.simps)
  obtain rc sp g' where l: "hg_grid_load_session (answers (render elf_reply)) (Some ?s) (remote_grid ()) = ((rc, sp), g')"
    by (metis prod.exhaust)
  obtain g'' where f: "hg_grid_fetch_character (answers (render elf_reply)) (Some (s_name ?s)) (remote_grid ()) = ((0, ?c), g'')"
    using fetch by (metis prod.collapse)
  have "g_remote (remote_grid ())" by (simp add: remote_grid_def)
  then have "rc = 1" "sp = Some (merged ?c ?s)"
    using identity_follows [OF ok, of "answers (render elf_reply)" "remote_grid ()" one_player 7 9] unfolding l f by simp_all
  then show ?thesis unfolding l by (simp add: merged_def zero_session_def)
qed

lemma addresses_returned:
  assumes "256 \<le> stack" and "stack + 128 \<le> 2 ^ 31" shows "returns_addresses (tame\<lparr>u_stack := stack\<rparr>)"
proof -
  have "uint (word_of_nat p :: i32) = int p" if "p < 2 ^ 31" for p
    using that by (simp add: uint_nat unat_of_nat take_bit_eq_mod)
  then show ?thesis using assms by (simp add: returns_addresses_def tame_def)
qed



end
