(* ===== verification/Node.thy ===== *)
theory Node
  imports GridPolicy Voices Auth
begin

text \<open>
  The state of a whole node: sessions, session table and world (\<open>wstate\<close>), the hub, the record files, the
  glow-rat and the heartbeat's clock; and the emitters of \<^verbatim>\<open>asm/event.asm\<close>, the assembly front end of
  the event layer.
\<close>

section \<open>State and environment\<close>

record 'w node = wstate +
  n_grid :: "'w grid"
  n_fs :: fs
  n_rat_hp :: i64
  n_rat_died :: i64
  n_heartbeat :: i64

text \<open>What a node is configured with (the libraries it calls and the environment variables it reads), and what the
  outside answers during one call: the clock, the outcomes of the file system and of the random source.\<close>

record ('j, 'w) host =
  h_env :: "('j, 'w) env"
  h_json :: "'j json_lib"
  h_crypt :: crypt
  h_gensalt :: gensalt
  h_root :: string
  h_admins :: "string option"
  h_token :: "string option"

record call =
  c_now :: i64
  c_read :: read_io
  c_write :: "addr \<Rightarrow> write_io"
  c_rnd :: "string option"

definition store_save :: "('j, 'w) host \<Rightarrow> call \<Rightarrow> addr \<Rightarrow> ('w, 'b) node_scheme \<Rightarrow> ('w, 'b) node_scheme" where
  "store_save h c a st = st\<lparr>n_fs := snd (hg_store_save (h_json h) (c_write c a) (h_root h) (sess st a) (n_fs st))\<rparr>"

definition with_hub :: "('w grid \<Rightarrow> 'r \<times> 'w grid) \<Rightarrow> ('w, 'b) node_scheme \<Rightarrow> ('w, 'b) node_scheme" where
  "with_hub f st = st\<lparr>n_grid := snd (f (n_grid st))\<rparr>"

section \<open>Events\<close>

text \<open>\<^verbatim>\<open>queue_buffer\<close>: the text a formatter left, up to its NUL.\<close>

definition queue_buffer :: "addr \<Rightarrow> addr \<Rightarrow> fmt_result \<Rightarrow> 'a store_scheme \<Rightarrow> 'a store_scheme" where
  "queue_buffer a wsi r st = hg_session_queue a wsi (cstr (snd r)) st"

definition hg_emit_vitals_dyn :: "addr \<Rightarrow> addr \<Rightarrow> 'a store_scheme \<Rightarrow> 'a store_scheme" where
  "hg_emit_vitals_dyn a wsi st =
     (let st = setup_cmd a wsi st
      in queue_buffer a wsi (hg_fmt_vitals 500 (sess st a) (hg_room_id (s_room (sess st a)))) st)"

definition hg_emit_affects_dyn :: "addr \<Rightarrow> addr \<Rightarrow> 'a store_scheme \<Rightarrow> 'a store_scheme" where
  "hg_emit_affects_dyn a wsi st =
     (let st = setup_cmd a wsi st in queue_buffer a wsi (hg_fmt_affects 500 (sess st a)) st)"

definition hg_emit_scene :: "addr \<Rightarrow> addr \<Rightarrow> 'a wstate_scheme \<Rightarrow> 'a wstate_scheme" where
  "hg_emit_scene a wsi st = hg_emit_scene_now a (setup_cmd a wsi st)"

definition hg_emit_equipment :: "addr \<Rightarrow> addr \<Rightarrow> 'a store_scheme \<Rightarrow> 'a store_scheme" where
  "hg_emit_equipment a wsi st =
     (let st = setup_cmd a wsi st in queue_buffer a wsi (hg_fmt_equipment 500 (sess st a)) st)"

text \<open>The inventory text grows in a static buffer of 512 bytes; the loop leaves it when fewer than 21 bytes
  are left.\<close>

fun inventory_loop :: "string list \<Rightarrow> nat \<Rightarrow> nat \<Rightarrow> nat \<Rightarrow> string \<Rightarrow> string" where
  "inventory_loop slots n i 0 buf = buf"
| "inventory_loop slots n i (Suc k) buf =
     (if n \<le> i then buf
      else if 512 - 21 \<le> length buf then buf
      else inventory_loop slots n (Suc i) k (buf @ (if i = 0 then [] else '', '') @ slots ! i))"

definition inventory_text :: "session \<Rightarrow> string" where
  "inventory_text s =
     (let buf = inventory_loop (s_inventory s) (unat (s_inv_count s)) 0 16 ''You carry: ''
      in if 512 - 4 \<le> length buf then buf else buf @ ''.'' @ crlf)"

definition hg_emit_inventory :: "addr \<Rightarrow> addr \<Rightarrow> 'a store_scheme \<Rightarrow> 'a store_scheme" where
  "hg_emit_inventory a wsi st =
     (let st = setup_cmd a wsi st
      in hg_session_queue a wsi
           (if s_inv_count (sess st a) = 0 then ''You carry nothing.'' @ crlf else inventory_text (sess st a)) st)"

definition ability_human :: string where
  "ability_human = ''You flash credentials nobody bothers to check. The registry still provides for its own. (+15 gold)'' @ crlf"

definition ability_seconds :: "i64 \<Rightarrow> i64 \<Rightarrow> i32" where
  "ability_seconds ready now = (let n = ucast ((ready - now + 999) div 1000) :: i32 in if n = 0 then 1 else n)"

definition hg_emit_ability :: "i64 \<Rightarrow> addr \<Rightarrow> addr \<Rightarrow> 'a store_scheme \<Rightarrow> 'a store_scheme" where
  "hg_emit_ability now a wsi st =
     (let st = setup_cmd a wsi st; ready = s_trait_ready (sess st a)
      in if ready \<noteq> 0 \<and> now < ready then
           queue_buffer a wsi (hg_fmt_ability_recharging 500 (Some ''Requisition'') (ability_seconds ready now)) st
         else
           let st = upd_sess a (\<lambda>s. s\<lparr>s_gold := s_gold s + 15, s_trait_ready := now + 180000\<rparr>) st;
               st = hg_session_queue a wsi ability_human st
           in queue_buffer a wsi (hg_fmt_vitals 500 (sess st a) (hg_room_id (s_room (sess st a)))) st)"

section \<open>Emitters only speak\<close>

text \<open>What an emitter may change of a session: its outbox, and the socket it remembers.\<close>

definition core :: "session \<Rightarrow> session" where
  "core s = s\<lparr>s_out := [], s_wsi := 0\<rparr>"

definition speaks :: "'a store_scheme \<Rightarrow> 'a store_scheme \<Rightarrow> bool" where
  "speaks st st' \<longleftrightarrow> store.more st' = store.more st \<and> (\<forall>b. core (sess st' b) = core (sess st b))"

lemma core_strip: "core s = core (strip_out s)"
  by (simp add: core_def strip_out_def)

lemma core_eq_strip: "strip_out s' = strip_out s \<Longrightarrow> core s' = core s"
  using core_strip by metis

lemma speaks_refl [simp]: "speaks st st"
  by (simp add: speaks_def)

lemma speaks_trans: "speaks st st' \<Longrightarrow> speaks st' st'' \<Longrightarrow> speaks st st''"
  by (simp add: speaks_def)

lemma speaks_session_queue [simp]: "speaks st0 st \<Longrightarrow> speaks st0 (hg_session_queue a wsi d st)"
  by (simp add: speaks_def core_eq_strip [OF hg_session_queue_strip])

lemma speaks_queue [simp]: "speaks st0 st \<Longrightarrow> speaks st0 (hg_queue a d st)"
  by (cases d) (simp_all add: hg_queue_def)

lemma speaks_queue_cstr [simp]: "speaks st0 st \<Longrightarrow> speaks st0 (hg_queue_cstr a t st)"
  by (cases t) (simp_all add: hg_queue_cstr_def)

lemma speaks_queue_line [simp]: "speaks st0 st \<Longrightarrow> speaks st0 (hg_queue_line a t st)"
  by (cases t) (simp_all add: hg_queue_line_def)

lemma speaks_queue_event [simp]: "speaks st0 st \<Longrightarrow> speaks st0 (queue_event a r st)"
  by (simp add: queue_event_def)

lemma speaks_request [simp]: "speaks st0 st \<Longrightarrow> speaks st0 (hg_ws_request_write w st)"
  by (simp add: speaks_def)

lemma speaks_setup [simp]: "speaks st0 st \<Longrightarrow> speaks st0 (setup_cmd a wsi st)"
  by (simp add: speaks_def setup_cmd_def core_def)

lemma speaks_queue_buffer [simp]: "speaks st0 st \<Longrightarrow> speaks st0 (queue_buffer a wsi r st)"
  by (simp add: queue_buffer_def)

lemma speaks_vitals_dyn [simp]: "speaks st0 st \<Longrightarrow> speaks st0 (hg_emit_vitals_dyn a wsi st)"
  by (simp add: hg_emit_vitals_dyn_def Let_def)

lemma speaks_affects_dyn [simp]: "speaks st0 st \<Longrightarrow> speaks st0 (hg_emit_affects_dyn a wsi st)"
  by (simp add: hg_emit_affects_dyn_def Let_def)

lemma speaks_equipment [simp]: "speaks st0 st \<Longrightarrow> speaks st0 (hg_emit_equipment a wsi st)"
  by (simp add: hg_emit_equipment_def Let_def)

lemma speaks_inventory [simp]: "speaks st0 st \<Longrightarrow> speaks st0 (hg_emit_inventory a wsi st)"
  unfolding hg_emit_inventory_def Let_def by (intro speaks_session_queue speaks_setup)

lemma speaks_dream [simp]: "speaks st0 st \<Longrightarrow> speaks st0 (hg_emit_dream_now a st)"
  by (simp add: hg_emit_dream_now_def)

lemma speaks_cache [simp]: "speaks st0 st \<Longrightarrow> speaks st0 (hg_announce_cache_now a st)"
  unfolding hg_announce_cache_now_def Let_def by simp

lemma speaks_scene_now [simp]: "speaks st0 st \<Longrightarrow> speaks st0 (hg_emit_scene_now a st)"
  unfolding hg_emit_scene_now_def hg_emit_vitals_now_def hg_emit_affects_now_def hg_emit_world_now_def Let_def case_prod_beta
  by (cases "a = 0")
     (simp_all only: if_True if_False refl not_False_eq_True speaks_cache speaks_queue_event speaks_queue_cstr)

lemma speaks_scene [simp]: "speaks st0 st \<Longrightarrow> speaks st0 (hg_emit_scene a wsi st)"
  by (simp add: hg_emit_scene_def)

lemma speaksD:
  assumes "speaks st st'"
  shows "store.more st' = store.more st" "core (sess st' b) = core (sess st b)"
  using assms by (simp_all add: speaks_def)

end
