(* ===== verification/Combat.thy ===== *)
theory Combat
  imports Node
begin

text \<open>
  The fights of \<^verbatim>\<open>asm/combat.asm\<close>: the rounds against the glow-rat, death, the heartbeat with
  its pulse, its beat and the rat's return, and the commands of that file.  \<open>game\<close> is the state of play without
  text, files and hub, and \<open>view\<close> reads it off a node: the rounds and the heartbeat refine functions of
  the game alone.

  A \<open>call\<close> fixes what the outside answers during one entry into the assembly: the clock does not move during it.
  The cells \<^verbatim>\<open>world_started_ms\<close>, \<^verbatim>\<open>heartbeat_now_ms\<close> and
  \<^verbatim>\<open>market_resolved\<close> are only ever written, and are left out.
\<close>

section \<open>Texts\<close>

definition mob_rat :: string where "mob_rat = ''rat''"
definition mob_glow :: string where "mob_glow = ''a glow-rat''"
definition mob_glow_short :: string where "mob_glow_short = ''glow-rat''"

definition rat_desc :: string where
  "rat_desc = ''A bloated rodent, fur matted and faintly luminous with absorbed rads.'' @ crlf"
definition consider_easy :: string where
  "consider_easy = ''You could put a glow-rat down without breaking a sweat.'' @ crlf @ crlf"
definition attack_prose :: string where "attack_prose = ''You throw yourself at a glow-rat.'' @ crlf"
definition kill_prose :: string where "kill_prose = ''You have slain a glow-rat!  (+8 xp)'' @ crlf"
definition already_fighting :: string where
  "already_fighting = ''You'' @ [CHR 0x27] @ ''re already locked in this fight.'' @ crlf @ crlf"
definition no_mob :: string where
  "no_mob = ''You don'' @ [CHR 0x27] @ ''t see that here.'' @ crlf @ crlf"
definition wield_prose :: string where "wield_prose = ''You ready shiv.'' @ crlf @ crlf"
definition remove_prose :: string where "remove_prose = ''You stow shiv.'' @ crlf @ crlf"
definition no_item :: string where "no_item = ''You have nothing like that to wear.'' @ crlf @ crlf"
definition not_wearing :: string where "not_wearing = ''You are not wearing that.'' @ crlf @ crlf"
definition rest_prose :: string where
  "rest_prose = ''You settle against the cold metal and let your breath slow.'' @ crlf @ crlf"
definition stand_prose :: string where "stand_prose = ''You get to your feet.'' @ crlf @ crlf"
definition sleep_prose :: string where
  "sleep_prose = ''You close your eyes, and the dead network leans close and shows you something.'' @ crlf @ crlf"
definition fight_block :: string where
  "fight_block = ''Not while you'' @ [CHR 0x27] @ ''re fighting for your life.'' @ crlf @ crlf"
definition affects_clear :: string where
  "affects_clear = ''You stand clear: no afflictions hold you.'' @ crlf @ crlf"
definition title_cleared :: string where "title_cleared = ''Your title is cleared.'' @ crlf @ crlf"
definition inscribe_need :: string where
  "inscribe_need = ''Carve what into the Grid? (inscribe <a few words for whoever comes next>)'' @ crlf @ crlf"
definition inscribe_line1 :: string where
  "inscribe_line1 = ''You press your words into the dead network, where they will outlast you:'' @ crlf"
definition inscribe_line2 :: string where
  "inscribe_line2 = ''The Grid takes them. Someone will key into this node, long after you are gone, and hear you. (try ping)''
     @ crlf @ crlf"
definition died_prose :: string where
  "died_prose = ''The dark takes you -- and the Grid, stubborn, reknits you at the Cracked Nexus.'' @ crlf @ crlf"

definition phase_table :: "string list" where
  "phase_table = [''day'', ''dusk'', ''night'', ''dawn'']"

section \<open>A round of combat\<close>

definition queue_cstring :: "addr \<Rightarrow> addr \<Rightarrow> string \<Rightarrow> 'a store_scheme \<Rightarrow> 'a store_scheme" where
  "queue_cstring a wsi t st = hg_session_queue a wsi (cstr t) st"

text \<open>The comparison of the weapon with \<^verbatim>\<open>shiv\<close>, byte by byte; both end in NUL.\<close>

fun is_shiv :: "string \<Rightarrow> string \<Rightarrow> bool" where
  "is_shiv [] d = (d = [])"
| "is_shiv (c # cs) [] = False"
| "is_shiv (c # cs) (d # ds) = (c = d \<and> is_shiv cs ds)"

definition player_damage :: "session \<Rightarrow> i64" where
  "player_damage s =
     (if s_eq_weapon s = [] then 5 else if is_shiv (s_eq_weapon s) ''shiv'' then 5 + 3 else 5)"

definition world_phase :: "i64 \<Rightarrow> string" where
  "world_phase tick = phase_table ! unat (tick AND 3)"

definition emit_world_state :: "addr \<Rightarrow> addr \<Rightarrow> 'a wstate_scheme \<Rightarrow> 'a wstate_scheme" where
  "emit_world_state a wsi st =
     (let st = setup_cmd a wsi st
      in queue_cstring a wsi (snd (hg_format_world_state 240 (world_tick st) (Some (world_phase (world_tick st))))) st)"

definition kill_hub_record ::
  "('j, 'w) host \<Rightarrow> call \<Rightarrow> addr \<Rightarrow> ('w, 'b) node_scheme \<Rightarrow> ('w, 'b) node_scheme" where
  "kill_hub_record h c a st =
     with_hub (hg_grid_on_kill (h_env h) (c_now c) (hg_room_id (s_room (sess st a))) (Some (s_name (sess st a)))
       (Some mob_glow)) st"

definition rat_killed ::
  "('j, 'w) host \<Rightarrow> call \<Rightarrow> addr \<Rightarrow> addr \<Rightarrow> ('w, 'b) node_scheme \<Rightarrow> ('w, 'b) node_scheme" where
  "rat_killed h c a wsi st =
     (let st = st\<lparr>rat_alive := 0, n_rat_died := c_now c\<rparr>;
          st = upd_sess a (\<lambda>s. s\<lparr>s_in_combat := 0, s_target := 0, s_xp := s_xp s + 8\<rparr>) st;
          st = queue_buffer a wsi (hg_fmt_combat_end 500 (Some mob_rat) (Some ''killed'')) st;
          st = queue_cstring a wsi kill_prose st;
          st = kill_hub_record h c a st;
          st = hg_emit_vitals_dyn a wsi st
      in store_save h c a st)"

definition queue_counted :: "addr \<Rightarrow> addr \<Rightarrow> fmt_result \<Rightarrow> 'a store_scheme \<Rightarrow> 'a store_scheme" where
  "queue_counted a wsi r st = hg_session_queue a wsi (take (nat (fst r)) (snd r)) st"

definition player_died ::
  "('j, 'w) host \<Rightarrow> call \<Rightarrow> addr \<Rightarrow> addr \<Rightarrow> ('w, 'b) node_scheme \<Rightarrow> ('w, 'b) node_scheme" where
  "player_died h c a wsi st =
     (let st = with_hub (hg_grid_on_death (h_env h) (c_now c) (hg_room_id (s_room (sess st a)))
                 (Some (s_name (sess st a)))) st;
          st = upd_sess a (\<lambda>s. s\<lparr>s_hp := s_max_hp s, s_room := 0, s_in_combat := 0, s_target := 0, s_poisoned := 0\<rparr>) st;
          st = hg_session_queue a wsi died_prose st;
          st = queue_counted a wsi (hg_fmt_char_died 240 (Some ''nexus'') (s_hp (sess st a)) (s_max_hp (sess st a))) st;
          st = queue_counted a wsi (hg_fmt_combat_end 240 (Some mob_rat) (Some ''died'')) st;
          st = hg_emit_vitals_dyn a wsi st
      in hg_emit_scene a wsi st)"

definition hg_combat_round ::
  "('j, 'w) host \<Rightarrow> call \<Rightarrow> addr \<Rightarrow> addr \<Rightarrow> ('w, 'b) node_scheme \<Rightarrow> ('w, 'b) node_scheme" where
  "hg_combat_round h c a wsi st =
     (let st = setup_cmd a wsi st
      in if s_target (sess st a) = 0 then st
         else if rat_alive st = 0 then
           let st = upd_sess a (\<lambda>s. s\<lparr>s_in_combat := 0, s_target := 0\<rparr>) st;
               st = queue_buffer a wsi (hg_fmt_combat_end 500 (Some mob_rat) (Some ''gone'')) st
           in hg_emit_vitals_dyn a wsi st
         else
           let dmg = player_damage (sess st a);
               left = n_rat_hp st - dmg;
               mob_hp = (if 0 \<le>s left then left else 0);
               st = st\<lparr>n_rat_hp := mob_hp\<rparr>;
               mob_dmg = (if mob_hp \<le>s 0 then 0 else 4);
               hp = s_hp (sess st a) - mob_dmg;
               st = upd_sess a (\<lambda>s. s\<lparr>s_hp := s_hp s - mob_dmg\<rparr>) st;
               st = queue_buffer a wsi (hg_fmt_combat_round 500 (Some mob_rat) mob_hp 12 dmg mob_dmg hp) st
           in if mob_hp \<le>s 0 then rat_killed h c a wsi st
              else if hp \<le>s 0 then player_died h c a wsi st
              else hg_emit_vitals_dyn a wsi st)"

section \<open>The heartbeat\<close>

definition HG_COMBAT_MS :: i64 where "HG_COMBAT_MS = 2000"
definition HG_HEARTBEAT_MS :: i64 where "HG_HEARTBEAT_MS = 2000"

text \<open>The socket of a session: its own cell, or the one the registry remembers (0 is none).\<close>

definition registry_wsi :: "addr \<Rightarrow> 'a wstate_scheme \<Rightarrow> addr" where
  "registry_wsi a st = (case find_entry a (table st) 0 of None \<Rightarrow> 0 | Some i \<Rightarrow> wsi_table st ! i)"

definition hg_session_pulse ::
  "('j, 'w) host \<Rightarrow> call \<Rightarrow> addr \<Rightarrow> addr \<Rightarrow> i64 \<Rightarrow> ('w, 'b) node_scheme \<Rightarrow> ('w, 'b) node_scheme" where
  "hg_session_pulse h c a wsi now st =
     (if s_in_combat (sess st a) = 0 then st
      else let wsi = (if wsi \<noteq> 0 then wsi else registry_wsi a st)
        in if wsi = 0 then st
           else let st = setup_cmd a wsi st; due = s_last_tick (sess st a);
                    arm = upd_sess a (\<lambda>s. s\<lparr>s_last_tick := now + HG_COMBAT_MS\<rparr>)
             in if due = 0 then arm st
                else if now < due then st
                else hg_combat_round h c a wsi (arm st))"

definition hg_session_flush :: "addr \<Rightarrow> 'a store_scheme \<Rightarrow> 'a store_scheme" where
  "hg_session_flush a st =
     (if a = 0 \<or> s_out (sess st a) = [] then st else hg_ws_request_write (s_wsi (sess st a)) st)"

definition hg_session_flush_all :: "'a wstate_scheme \<Rightarrow> 'a wstate_scheme" where
  "hg_session_flush_all st = fold (\<lambda>a st. if a = 0 then st else hg_session_flush a st) (table st) st"

definition tick_session :: "addr \<Rightarrow> 'a wstate_scheme \<Rightarrow> 'a wstate_scheme" where
  "tick_session a st =
     (let own = s_wsi (sess st a); wsi = (if own \<noteq> 0 then own else registry_wsi a st)
      in if wsi = 0 then st
         else let st = (if own \<noteq> 0 then st else setup_cmd a wsi st)
           in if s_in_combat (sess st a) \<noteq> 0 then st
              else let st = emit_world_state a wsi st
                in if s_position (sess st a) \<noteq> ''resting'' then st
                   else if s_max_hp (sess st a) \<le>s s_hp (sess st a) then st
                   else let hp = s_hp (sess st a) + 2; top = s_max_hp (sess st a);
                            st = upd_sess a (\<lambda>s. s\<lparr>s_hp := (if hp \<le>s top then hp else top)\<rparr>) st
                     in hg_emit_vitals_dyn a wsi st)"

definition combat_pulse ::
  "('j, 'w) host \<Rightarrow> call \<Rightarrow> i64 \<Rightarrow> addr \<Rightarrow> ('w, 'b) node_scheme \<Rightarrow> ('w, 'b) node_scheme" where
  "combat_pulse h c now a st =
     (if a = 0 \<or> s_in_combat (sess st a) = 0 then st
      else hg_session_flush a (hg_session_pulse h c a (s_wsi (sess st a)) now st))"

definition beat_session :: "addr \<Rightarrow> 'a wstate_scheme \<Rightarrow> 'a wstate_scheme" where
  "beat_session a st = (if a = 0 then st else hg_session_flush a (tick_session a st))"

definition rat_respawn :: "i64 \<Rightarrow> ('w, 'b) node_scheme \<Rightarrow> ('w, 'b) node_scheme" where
  "rat_respawn now st =
     (if rat_alive st \<noteq> 0 \<or> n_rat_died st = 0 \<or> now < n_rat_died st + 20000 then st
      else st\<lparr>n_rat_hp := 12, rat_alive := 1, n_rat_died := 0\<rparr>)"

definition hg_heartbeat ::
  "('j, 'w) host \<Rightarrow> call \<Rightarrow> i64 \<Rightarrow> ('w, 'b) node_scheme \<Rightarrow> ('w, 'b) node_scheme" where
  "hg_heartbeat h c now st =
     (let st = fold (combat_pulse h c now) (table st) st;
          st = (if now < n_heartbeat st + HG_HEARTBEAT_MS then st
                else let st = st\<lparr>n_heartbeat := now, world_tick := world_tick st + 1\<rparr>
                  in fold beat_session (table st) st)
      in rat_respawn now st)"

definition hg_world_boot :: "('w, 'b) node_scheme \<Rightarrow> ('w, 'b) node_scheme" where
  "hg_world_boot st = st\<lparr>n_heartbeat := 0, world_tick := 0, n_rat_hp := 12, rat_alive := 1, n_rat_died := 0,
     session_count := 0, table := replicate MAX_SESSIONS 0, wsi_table := replicate MAX_SESSIONS 0\<rparr>"

definition hg_combat_arm :: "i64 \<Rightarrow> addr \<Rightarrow> addr \<Rightarrow> 'a store_scheme \<Rightarrow> 'a store_scheme" where
  "hg_combat_arm now a wsi st =
     (if a = 0 then st
      else upd_sess a (\<lambda>s. s\<lparr>s_last_tick := now + HG_COMBAT_MS, s_wsi := (if wsi = 0 then s_wsi s else wsi)\<rparr>) st)"

section \<open>The commands\<close>

definition names_rat :: "string \<Rightarrow> bool" where
  "names_rat t \<longleftrightarrow> case_eq t mob_rat \<or> case_eq t mob_glow \<or> case_eq t mob_glow_short"

text \<open>An argument is a pointer that may be NULL.\<close>

definition hg_cmd_wield :: "addr \<Rightarrow> addr \<Rightarrow> string option \<Rightarrow> 'a store_scheme \<Rightarrow> 'a store_scheme" where
  "hg_cmd_wield a wsi arg st =
     (let st = setup_cmd a wsi st
      in if arg \<noteq> None \<and> \<not> case_eq (or_default arg []) ''shiv'' then hg_session_queue a wsi no_item st
         else let st = upd_sess a (\<lambda>s. s\<lparr>s_eq_weapon := ''shiv''\<rparr>) st;
                  st = hg_session_queue a wsi wield_prose st
              in hg_emit_equipment a wsi st)"

definition hg_cmd_remove :: "addr \<Rightarrow> addr \<Rightarrow> string option \<Rightarrow> 'a store_scheme \<Rightarrow> 'a store_scheme" where
  "hg_cmd_remove a wsi arg st =
     (let st = setup_cmd a wsi st
      in if arg \<noteq> None \<and> \<not> case_eq (or_default arg []) ''shiv'' then hg_session_queue a wsi no_item st
         else if s_eq_weapon (sess st a) = [] then hg_session_queue a wsi not_wearing st
         else let st = upd_sess a (\<lambda>s. s\<lparr>s_eq_weapon := []\<rparr>) st;
                  st = hg_session_queue a wsi remove_prose st
              in hg_emit_equipment a wsi st)"

definition rat_here :: "addr \<Rightarrow> 'a wstate_scheme \<Rightarrow> bool" where
  "rat_here a st \<longleftrightarrow> s_room (sess st a) = 6 \<and> rat_alive st \<noteq> 0"

definition hg_cmd_attack ::
  "call \<Rightarrow> addr \<Rightarrow> addr \<Rightarrow> string option \<Rightarrow> ('w, 'b) node_scheme \<Rightarrow> ('w, 'b) node_scheme" where
  "hg_cmd_attack c a wsi arg st =
     (let st = setup_cmd a wsi st
      in if s_in_combat (sess st a) \<noteq> 0 then hg_session_queue a wsi already_fighting st
         else if rat_here a st \<and> arg \<noteq> None \<and> names_rat (or_default arg []) then
           let st = upd_sess a (\<lambda>s. s\<lparr>s_in_combat := 1, s_target := 1, s_position := ''standing''\<rparr>) st;
               st = queue_buffer a wsi (hg_fmt_combat_start 500 (Some mob_rat) (Some mob_glow)) st;
               st = hg_session_queue a wsi attack_prose st;
               st = hg_emit_vitals_dyn a wsi st
           in hg_combat_arm (c_now c) a wsi st
         else queue_buffer a wsi (hg_fmt_attack_miss 500 arg (if rat_here a st then Some mob_glow else None)) st)"

text \<open>\<^verbatim>\<open>consider\<close> compares its argument without a test for NULL.\<close>

definition hg_cmd_consider ::
  "addr \<Rightarrow> addr \<Rightarrow> string option \<Rightarrow> 'a wstate_scheme \<Rightarrow> mem_error + 'a wstate_scheme" where
  "hg_cmd_consider a wsi arg st =
     (let st = setup_cmd a wsi st
      in if \<not> rat_here a st then Inr (hg_session_queue a wsi no_mob st)
         else case arg of
           None \<Rightarrow> Inl (Bad_address 0)
         | Some t \<Rightarrow> Inr (hg_session_queue a wsi (if case_eq t mob_rat then consider_easy else no_mob) st))"

definition hg_cmd_look_mob :: "addr \<Rightarrow> addr \<Rightarrow> string option \<Rightarrow> 'a wstate_scheme \<Rightarrow> 'a wstate_scheme" where
  "hg_cmd_look_mob a wsi arg st =
     (let st = setup_cmd a wsi st
      in if rat_here a st \<and> arg \<noteq> None \<and> names_rat (or_default arg []) then queue_cstring a wsi rat_desc st
         else hg_session_queue a wsi no_mob st)"

definition hg_cmd_exits :: "addr \<Rightarrow> addr \<Rightarrow> 'a store_scheme \<Rightarrow> mem_error + 'a store_scheme" where
  "hg_cmd_exits a wsi st =
     (let st = setup_cmd a wsi st
      in queue_buf 256 a wsi
           (snprintf 240 (sprintf [L ''Exits: '', S (or_default (hg_room_exits (s_room (sess st a))) []), L crlf])) st)"

definition hg_cmd_rest :: "addr \<Rightarrow> addr \<Rightarrow> ('w, 'b) node_scheme \<Rightarrow> ('w, 'b) node_scheme" where
  "hg_cmd_rest a wsi st =
     (let st = setup_cmd a wsi st
      in if s_in_combat (sess st a) \<noteq> 0 then hg_session_queue a wsi fight_block st
         else let st = upd_sess a (\<lambda>s. s\<lparr>s_position := ''resting''\<rparr>) st;
                  st = st\<lparr>n_heartbeat := 0\<rparr>;
                  st = hg_session_queue a wsi rest_prose st
              in hg_emit_vitals_dyn a wsi st)"

definition hg_cmd_stand :: "addr \<Rightarrow> addr \<Rightarrow> 'a store_scheme \<Rightarrow> 'a store_scheme" where
  "hg_cmd_stand a wsi st =
     (let st = setup_cmd a wsi st;
          st = upd_sess a (\<lambda>s. s\<lparr>s_position := ''standing''\<rparr>) st;
          st = hg_session_queue a wsi stand_prose st
      in hg_emit_vitals_dyn a wsi st)"

definition hg_cmd_sleep :: "addr \<Rightarrow> addr \<Rightarrow> 'a store_scheme \<Rightarrow> 'a store_scheme" where
  "hg_cmd_sleep a wsi st =
     (let st = setup_cmd a wsi st
      in if s_in_combat (sess st a) \<noteq> 0 then hg_session_queue a wsi fight_block st
         else let st = upd_sess a (\<lambda>s. s\<lparr>s_position := ''resting''\<rparr>) st;
                  st = hg_session_queue a wsi sleep_prose st;
                  st = hg_emit_dream_now a st
              in hg_emit_vitals_dyn a wsi st)"

definition hg_cmd_world :: "addr \<Rightarrow> addr \<Rightarrow> 'a wstate_scheme \<Rightarrow> 'a wstate_scheme" where
  "hg_cmd_world a wsi st =
     (let st = setup_cmd a wsi st;
          st = queue_buffer a wsi
                 (snprintf 240 (sprintf [L ''The sky: '', S (world_phase (world_tick st)), L '', clear.'', L crlf])) st
      in emit_world_state a wsi st)"

definition hg_cmd_title ::
  "('j, 'w) host \<Rightarrow> call \<Rightarrow> addr \<Rightarrow> addr \<Rightarrow> string option \<Rightarrow> ('w, 'b) node_scheme \<Rightarrow> ('w, 'b) node_scheme" where
  "hg_cmd_title h c a wsi arg st =
     (let st = setup_cmd a wsi st; t = or_default arg []
      in if t = [] then
           store_save h c a (hg_session_queue a wsi title_cleared (upd_sess a (\<lambda>s. s\<lparr>s_title := []\<rparr>) st))
         else
           let st = upd_sess a (\<lambda>s. s\<lparr>s_title := copy_cap 48 t\<rparr>) st
           in store_save h c a (queue_buffer a wsi
                (snprintf 240 (sprintf [L ''Your title is now: '', S (s_title (sess st a)), L ''.'', L crlf])) st))"

definition hg_cmd_affects :: "addr \<Rightarrow> addr \<Rightarrow> 'a store_scheme \<Rightarrow> 'a store_scheme" where
  "hg_cmd_affects a wsi st = hg_session_queue a wsi affects_clear (hg_emit_affects_dyn a wsi (setup_cmd a wsi st))"

text \<open>\<^verbatim>\<open>inscribe\<close> prints the words into 120 of 128 bytes of its stack frame and queues as many
  bytes as \<^verbatim>\<open>snprintf\<close> would have needed.  \<open>queue_buf\<close> is the read of that buffer.\<close>

definition hg_cmd_inscribe ::
  "('j, 'w) host \<Rightarrow> call \<Rightarrow> addr \<Rightarrow> addr \<Rightarrow> string option \<Rightarrow> ('w, 'b) node_scheme \<Rightarrow> mem_error + ('w, 'b) node_scheme" where
  "hg_cmd_inscribe h c a wsi arg st =
     (let st = setup_cmd a wsi st; words = dropWhile (\<lambda>ch. ch = CHR '' '') (or_default arg [])
      in if words = [] then Inr (hg_session_queue a wsi inscribe_need st)
         else let st = with_hub (hg_grid_inscribe (h_env h) (c_now c) (hg_room_id (s_room (sess st a)))
                         (Some (s_name (sess st a))) (Some words)) st;
                  st = hg_session_queue a wsi inscribe_line1 st
           in ebind (queue_buf 128 a wsi (snprintf 120 (sprintf [L ''  \"'', S words, L ''\"'', L crlf])) st)
                (\<lambda>st. Inr (hg_session_queue a wsi inscribe_line2 st)))"

section \<open>Simulation\<close>

text \<open>What a detailed step owes the rules of the game: seen through an abstraction it is a step of the rules.
  Whole runs then follow, and the invariants of the rules are invariants of the code.\<close>

locale simulation =
  fixes abs_of :: "'s \<Rightarrow> 'a"
    and step :: "'i \<Rightarrow> 's \<Rightarrow> 's"
    and rule_of :: "'i \<Rightarrow> 'a \<Rightarrow> 'a"
  assumes step_abs: "abs_of (step i s) = rule_of i (abs_of s)"
begin

lemma run_abs: "abs_of (fold step xs s) = fold rule_of xs (abs_of s)"
  by (induction xs arbitrary: s) (simp_all add: step_abs)

end

section \<open>The game behind the text\<close>

record play =
  p_sess :: "addr \<Rightarrow> session"
  p_table :: "addr list"
  p_wsis :: "addr list"
  p_count :: i64
  p_tick :: i64
  p_alive :: i64
  p_cache :: "i64 list"
  p_rat_hp :: i64
  p_died :: i64
  p_beat :: i64

definition view :: "('w, 'b) node_scheme \<Rightarrow> play" where
  "view st = \<lparr>p_sess = (\<lambda>b. strip_out (sess st b)), p_table = table st, p_wsis = wsi_table st,
     p_count = session_count st, p_tick = world_tick st, p_alive = rat_alive st, p_cache = cache_gold st,
     p_rat_hp = n_rat_hp st, p_died = n_rat_died st, p_beat = n_heartbeat st\<rparr>"

definition upd :: "addr \<Rightarrow> (session \<Rightarrow> session) \<Rightarrow> play \<Rightarrow> play" where
  "upd a f g = g\<lparr>p_sess := (p_sess g)(a := f (p_sess g a))\<rparr>"

abbreviation wired :: "addr \<Rightarrow> addr \<Rightarrow> play \<Rightarrow> play" where
  "wired a wsi \<equiv> upd a (\<lambda>s. s\<lparr>s_wsi := wsi\<rparr>)"

lemma view_cong:
  assumes "store.more st' = store.more st" and "\<And>b. strip_out (sess st' b) = strip_out (sess st b)"
  shows "view st' = view (st :: ('w, 'b) node_scheme)"
  using assms by (cases st, cases st') (simp add: view_def)

lemma view_sel [simp]:
  "p_sess (view st) = (\<lambda>b. strip_out (sess st b))" "p_table (view st) = table st" "p_wsis (view st) = wsi_table st"
  "p_tick (view st) = world_tick st" "p_alive (view st) = rat_alive st" "p_rat_hp (view st) = n_rat_hp st"
  "p_died (view st) = n_rat_died st" "p_beat (view st) = n_heartbeat st" "p_count (view st) = session_count st"
  by (simp_all add: view_def)

lemma strip_sel [simp]:
  "s_target (strip_out s) = s_target s" "s_in_combat (strip_out s) = s_in_combat s" "s_hp (strip_out s) = s_hp s"
  "s_max_hp (strip_out s) = s_max_hp s" "s_room (strip_out s) = s_room s" "s_wsi (strip_out s) = s_wsi s"
  "s_last_tick (strip_out s) = s_last_tick s" "s_position (strip_out s) = s_position s"
  "s_eq_weapon (strip_out s) = s_eq_weapon s" "s_xp (strip_out s) = s_xp s"
  by (simp_all add: strip_out_def)

lemma view_update [simp]:
  "view (st\<lparr>n_rat_hp := x\<rparr>) = (view st)\<lparr>p_rat_hp := x\<rparr>" "view (st\<lparr>rat_alive := x\<rparr>) = (view st)\<lparr>p_alive := x\<rparr>"
  "view (st\<lparr>n_rat_died := x\<rparr>) = (view st)\<lparr>p_died := x\<rparr>" "view (st\<lparr>n_heartbeat := x\<rparr>) = (view st)\<lparr>p_beat := x\<rparr>"
  "view (st\<lparr>world_tick := x\<rparr>) = (view st)\<lparr>p_tick := x\<rparr>"
  by (simp_all add: view_def)

lemma view_upd_sess [simp]:
  "(\<And>s. strip_out (f s) = f (strip_out s)) \<Longrightarrow> view (upd_sess a f st) = upd a f (view st)"
  by (auto simp: view_def upd_def upd_sess_def)

lemma view_setup [simp]: "view (setup_cmd a wsi st) = wired a wsi (view st)"
  unfolding setup_cmd_def by (rule view_upd_sess) (simp add: strip_out_def)

lemma view_session_queue [simp]: "view (hg_session_queue a wsi d st) = view st"
  by (rule view_cong) (simp_all add: hg_session_queue_strip)

lemma view_queue [simp]: "view (hg_queue a d st) = view st"
  by (cases d) (simp_all add: hg_queue_def)

lemma view_queue_cstr [simp]: "view (hg_queue_cstr a t st) = view st"
  by (cases t) (simp_all add: hg_queue_cstr_def)

lemma view_queue_line [simp]: "view (hg_queue_line a t st) = view st"
  by (cases t) (simp_all add: hg_queue_line_def)

lemma view_queue_event [simp]: "view (queue_event a r st) = view st"
  by (simp add: queue_event_def)

lemma view_request [simp]: "view (hg_ws_request_write w st) = view st"
  by (rule view_cong) simp_all

lemma view_queue_text [simp]:
  "view (queue_buffer a wsi r st) = view st" "view (queue_cstring a wsi t st) = view st"
  "view (queue_counted a wsi r st) = view st"
  by (simp_all add: queue_buffer_def queue_cstring_def queue_counted_def)

lemma view_vitals_dyn [simp]: "view (hg_emit_vitals_dyn a wsi st) = wired a wsi (view st)"
  by (simp add: hg_emit_vitals_dyn_def Let_def)

lemma view_affects_dyn [simp]: "view (hg_emit_affects_dyn a wsi st) = wired a wsi (view st)"
  by (simp add: hg_emit_affects_dyn_def Let_def)

lemma view_equipment [simp]: "view (hg_emit_equipment a wsi st) = wired a wsi (view st)"
  by (simp add: hg_emit_equipment_def Let_def)

lemma view_dream [simp]: "view (hg_emit_dream_now a st) = view st"
  by (simp add: hg_emit_dream_now_def)

lemma view_cache [simp]: "view (hg_announce_cache_now a st) = view st"
  unfolding hg_announce_cache_now_def Let_def by simp

lemma view_scene_now [simp]: "view (hg_emit_scene_now a st) = view st"
  unfolding hg_emit_scene_now_def hg_emit_vitals_now_def hg_emit_affects_now_def hg_emit_world_now_def Let_def case_prod_beta
  by (cases "a = 0")
     (simp_all only: if_True if_False refl not_False_eq_True view_cache view_queue_event view_queue_cstr)

lemma view_scene [simp]: "view (hg_emit_scene a wsi st) = wired a wsi (view st)"
  by (simp add: hg_emit_scene_def)

lemma view_world_state [simp]: "view (emit_world_state a wsi st) = wired a wsi (view st)"
  by (simp add: emit_world_state_def Let_def)

lemma view_store_save [simp]: "view (store_save h c a st) = view st"
  by (simp add: store_save_def view_def)

lemma view_with_hub [simp]: "view (with_hub f st) = view st"
  by (simp add: with_hub_def view_def)

lemma view_flush [simp]: "view (hg_session_flush a st) = view st"
  by (simp add: hg_session_flush_def)

lemma is_shiv_eq: "is_shiv a b \<longleftrightarrow> a = b"
  by (induction a b rule: is_shiv.induct) auto

lemma player_damage_eq: "player_damage s = (if s_eq_weapon s = ''shiv'' then 8 else 5)"
  by (auto simp: player_damage_def is_shiv_eq)

section \<open>The rules of the game\<close>

text \<open>What a round and a beat do to the game, without a word said.\<close>

definition leave :: "session \<Rightarrow> session" where
  "leave s = s\<lparr>s_in_combat := 0, s_target := 0\<rparr>"

definition slayer :: "session \<Rightarrow> session" where
  "slayer s = s\<lparr>s_in_combat := 0, s_target := 0, s_xp := s_xp s + 8\<rparr>"

definition reknit :: "session \<Rightarrow> session" where
  "reknit s = s\<lparr>s_hp := s_max_hp s, s_room := 0, s_in_combat := 0, s_target := 0, s_poisoned := 0\<rparr>"

definition bitten :: "session \<Rightarrow> session" where
  "bitten s = (if s_hp s - 4 \<le>s 0 then reknit s else s\<lparr>s_hp := s_hp s - 4\<rparr>)"

definition struck :: "i64 \<Rightarrow> session \<Rightarrow> i64" where
  "struck rat_hp s = (let left = rat_hp - player_damage s in if 0 \<le>s left then left else 0)"

definition p_round :: "i64 \<Rightarrow> addr \<Rightarrow> addr \<Rightarrow> play \<Rightarrow> play" where
  "p_round now a wsi g =
     (let g = wired a wsi g; s = p_sess g a; left = struck (p_rat_hp g) s
      in if s_target s = 0 then g
         else if p_alive g = 0 then upd a leave g
         else if left \<le>s 0 then upd a slayer (g\<lparr>p_rat_hp := left, p_alive := 0, p_died := now\<rparr>)
         else upd a bitten (g\<lparr>p_rat_hp := left\<rparr>))"

lemma upd_sel [simp]:
  "p_sess (upd a f g) = (p_sess g)(a := f (p_sess g a))" "p_table (upd a f g) = p_table g" "p_wsis (upd a f g) = p_wsis g"
  "p_alive (upd a f g) = p_alive g" "p_rat_hp (upd a f g) = p_rat_hp g" "p_died (upd a f g) = p_died g"
  "p_beat (upd a f g) = p_beat g" "p_tick (upd a f g) = p_tick g" "p_count (upd a f g) = p_count g"
  by (simp_all add: upd_def)

lemma wired_upd: "(\<And>s. (f s)\<lparr>s_wsi := wsi\<rparr> = f (s\<lparr>s_wsi := wsi\<rparr>)) \<Longrightarrow> wired a wsi (upd a f g) = upd a f (wired a wsi g)"
  by (simp add: upd_def)

lemma upd_same [simp]: "upd a (\<lambda>s. s) g = g"
  by (simp add: upd_def)

lemma wired_twice [simp]: "wired a wsi (wired a wsi g) = wired a wsi g"
  by (simp add: upd_def)

lemma wired_fields [simp]:
  "(wired a wsi g)\<lparr>p_rat_hp := x\<rparr> = wired a wsi (g\<lparr>p_rat_hp := x\<rparr>)"
  "(wired a wsi g)\<lparr>p_alive := y\<rparr> = wired a wsi (g\<lparr>p_alive := y\<rparr>)"
  "(wired a wsi g)\<lparr>p_died := z\<rparr> = wired a wsi (g\<lparr>p_died := z\<rparr>)"
  by (simp_all add: upd_def)

lemma wired_moves [simp]:
  "wired a wsi (upd a leave g) = upd a leave (wired a wsi g)"
  "wired a wsi (upd a slayer g) = upd a slayer (wired a wsi g)"
  "wired a wsi (upd a reknit g) = upd a reknit (wired a wsi g)"
  "wired a wsi (upd a (\<lambda>s. s\<lparr>s_hp := s_hp s - d\<rparr>) g) = upd a (\<lambda>s. s\<lparr>s_hp := s_hp s - d\<rparr>) (wired a wsi g)"
  by (rule wired_upd, simp add: leave_def slayer_def reknit_def)+

lemma view_moves [simp]:
  "view (upd_sess a (\<lambda>s. s\<lparr>s_in_combat := 0, s_target := 0\<rparr>) st) = upd a leave (view st)"
  "view (upd_sess a (\<lambda>s. s\<lparr>s_in_combat := 0, s_target := 0, s_xp := s_xp s + 8\<rparr>) st) = upd a slayer (view st)"
  "view (upd_sess a (\<lambda>s. s\<lparr>s_hp := s_max_hp s, s_room := 0, s_in_combat := 0, s_target := 0, s_poisoned := 0\<rparr>) st) =
     upd a reknit (view st)"
  by (subst view_upd_sess; simp add: strip_out_def leave_def [abs_def] slayer_def [abs_def] reknit_def [abs_def])+

lemma view_rat_killed:
  "view (rat_killed h c a wsi st) = upd a slayer (wired a wsi ((view st)\<lparr>p_alive := 0, p_died := c_now c\<rparr>))"
  by (simp add: rat_killed_def kill_hub_record_def Let_def)

lemma view_player_died: "view (player_died h c a wsi st) = upd a reknit (wired a wsi (view st))"
  by (simp add: player_died_def Let_def)

lemma setup_sel [simp]:
  "n_rat_hp (setup_cmd a wsi st) = n_rat_hp st" "rat_alive (setup_cmd a wsi st) = rat_alive st"
  "sess (setup_cmd a wsi st) a = (sess st a)\<lparr>s_wsi := wsi\<rparr>"
  by (simp_all add: setup_cmd_def upd_sess_def)

lemma view_hp [simp]: "view (upd_sess a (\<lambda>s. s\<lparr>s_hp := s_hp s - d\<rparr>) st) = upd a (\<lambda>s. s\<lparr>s_hp := s_hp s - d\<rparr>) (view st)"
  by (rule view_upd_sess) (simp add: strip_out_def)

lemma bitten_split:
  "upd a bitten g =
     (let hurt = upd a (\<lambda>s. s\<lparr>s_hp := s_hp s - 4\<rparr>) g in if s_hp (p_sess g a) - 4 \<le>s 0 then upd a reknit hurt else hurt)"
  by (simp add: upd_def bitten_def reknit_def Let_def)

lemma round_refines: "view (hg_combat_round h c a wsi st) = p_round (c_now c) a wsi (view st)"
proof -
  let ?s = "(sess st a)\<lparr>s_wsi := wsi\<rparr>" and ?g = "wired a wsi (view st)"
  have w: "(strip_out (sess st a))\<lparr>s_wsi := wsi\<rparr> = strip_out ?s" by (simp add: strip_out_def)
  have dmg: "player_damage (strip_out ?s) = player_damage ?s" by (simp add: player_damage_def)
  consider "s_target (sess st a) = 0" | "s_target (sess st a) \<noteq> 0" "rat_alive st = 0"
    | "s_target (sess st a) \<noteq> 0" "rat_alive st \<noteq> 0" by blast
  then show ?thesis
  proof cases
    case 1
    then show ?thesis by (simp add: hg_combat_round_def p_round_def Let_def)
  next
    case 2
    then show ?thesis by (simp add: hg_combat_round_def p_round_def Let_def)
  next
    case 3
    define left where "left = struck (n_rat_hp st) ?s"
    show ?thesis
    proof (cases "left \<le>s 0")
      case True
      then show ?thesis using 3
        by (simp add: hg_combat_round_def p_round_def Let_def w struck_def left_def dmg view_rat_killed split: if_splits)
    next
      case False
      then have "0 \<le>s n_rat_hp st - player_damage ?s" "\<not> n_rat_hp st - player_damage ?s \<le>s 0"
        by (simp_all add: left_def struck_def Let_def split: if_splits)
      then show ?thesis using 3
        by (simp add: hg_combat_round_def p_round_def Let_def w struck_def dmg view_player_died bitten_split)
    qed
  qed
qed

definition listed :: "addr \<Rightarrow> addr list \<Rightarrow> addr list \<Rightarrow> addr" where
  "listed a ts ws = (case find_entry a ts 0 of None \<Rightarrow> 0 | Some i \<Rightarrow> ws ! i)"

definition socket :: "addr \<Rightarrow> play \<Rightarrow> addr" where
  "socket a g = (if s_wsi (p_sess g a) \<noteq> 0 then s_wsi (p_sess g a) else listed a (p_table g) (p_wsis g))"

definition armed :: "i64 \<Rightarrow> session \<Rightarrow> session" where
  "armed now s = s\<lparr>s_last_tick := now + HG_COMBAT_MS\<rparr>"

definition p_pulse :: "i64 \<Rightarrow> i64 \<Rightarrow> addr \<Rightarrow> play \<Rightarrow> play" where
  "p_pulse clock now a g =
     (let w = socket a g; due = s_last_tick (p_sess g a)
      in if a = 0 \<or> s_in_combat (p_sess g a) = 0 \<or> w = 0 then g
         else if due = 0 then upd a (armed now) (wired a w g)
         else if now < due then wired a w g
         else p_round clock a w (upd a (armed now) (wired a w g)))"

definition rested :: "session \<Rightarrow> session" where
  "rested s =
     (if s_in_combat s \<noteq> 0 \<or> s_position s \<noteq> ''resting'' \<or> s_max_hp s \<le>s s_hp s then s
      else s\<lparr>s_hp := (if s_hp s + 2 \<le>s s_max_hp s then s_hp s + 2 else s_max_hp s)\<rparr>)"

definition p_rest :: "addr \<Rightarrow> play \<Rightarrow> play" where
  "p_rest a g = (let w = socket a g in if a = 0 \<or> w = 0 then g else upd a rested (wired a w g))"

definition p_respawn :: "i64 \<Rightarrow> play \<Rightarrow> play" where
  "p_respawn now g =
     (if p_alive g \<noteq> 0 \<or> p_died g = 0 \<or> now < p_died g + 20000 then g
      else g\<lparr>p_rat_hp := 12, p_alive := 1, p_died := 0\<rparr>)"

definition p_heartbeat :: "i64 \<Rightarrow> i64 \<Rightarrow> play \<Rightarrow> play" where
  "p_heartbeat clock now g =
     (let g = fold (p_pulse clock now) (p_table g) g;
          g = (if now < p_beat g + HG_HEARTBEAT_MS then g
               else fold p_rest (p_table g) (g\<lparr>p_beat := now, p_tick := p_tick g + 1\<rparr>))
      in p_respawn now g)"

lemma socket_view: "socket a (view st) = (if s_wsi (sess st a) \<noteq> 0 then s_wsi (sess st a) else registry_wsi a st)"
  by (simp add: socket_def registry_wsi_def listed_def)

lemma wired_own: "s_wsi (p_sess g a) = w \<Longrightarrow> wired a w g = g"
  by (cases g, cases "p_sess g a") (auto simp: upd_def)

lemma view_armed [simp]:
  "view (upd_sess a (\<lambda>s. s\<lparr>s_last_tick := now + HG_COMBAT_MS\<rparr>) st) = upd a (armed now) (view st)"
  by (subst view_upd_sess) (simp_all add: strip_out_def armed_def [abs_def])

lemma pulse_refines: "view (combat_pulse h c now a st) = p_pulse (c_now c) now a (view st)"
  by (simp add: combat_pulse_def hg_session_pulse_def p_pulse_def Let_def socket_view round_refines)

lemma view_heal [simp]:
  "view (upd_sess a (\<lambda>s. s\<lparr>s_hp := x\<rparr>) st) = upd a (\<lambda>s. s\<lparr>s_hp := x\<rparr>) (view st)"
  by (rule view_upd_sess) (simp add: strip_out_def)

lemma world_state_strip: "strip_out (sess (emit_world_state a w st) a) = (strip_out (sess st a))\<lparr>s_wsi := w\<rparr>"
  by (simp add: emit_world_state_def Let_def queue_cstring_def hg_session_queue_strip) (simp add: setup_cmd_def strip_out_def)

lemma world_state_sel [simp]:
  "s_position (sess (emit_world_state a w st) a) = s_position (sess st a)"
  "s_hp (sess (emit_world_state a w st) a) = s_hp (sess st a)"
  "s_max_hp (sess (emit_world_state a w st) a) = s_max_hp (sess st a)"
  using arg_cong [where f = s_position, OF world_state_strip [of a w st]]
    arg_cong [where f = s_hp, OF world_state_strip [of a w st]]
    arg_cong [where f = s_max_hp, OF world_state_strip [of a w st]] by simp_all

lemma upd_rested:
  "upd a rested g = (let s = p_sess g a in
     if s_in_combat s \<noteq> 0 \<or> s_position s \<noteq> ''resting'' \<or> s_max_hp s \<le>s s_hp s then g
     else upd a (\<lambda>t. t\<lparr>s_hp := (if s_hp s + 2 \<le>s s_max_hp s then s_hp s + 2 else s_max_hp s)\<rparr>) g)"
  by (simp add: upd_def rested_def Let_def)

lemma wired_heal [simp]:
  "wired a w (upd a (\<lambda>s. s\<lparr>s_hp := x\<rparr>) g) = upd a (\<lambda>s. s\<lparr>s_hp := x\<rparr>) (wired a w g)"
  by (rule wired_upd) simp

lemma tick_refines:
  assumes "a \<noteq> 0"
  shows "view (tick_session a st) = p_rest a (view st)"
proof (cases "s_wsi (sess st a) = 0")
  case True
  then show ?thesis
    by (simp add: tick_session_def p_rest_def Let_def socket_view upd_rested assms)
next
  case False
  then have "wired a (s_wsi (sess st a)) (view st) = view st" by (simp add: wired_own)
  with False show ?thesis
    by (simp add: tick_session_def p_rest_def Let_def socket_view upd_rested assms)
qed

lemma beat_refines: "view (beat_session a st) = p_rest a (view st)"
  by (cases "a = 0") (simp_all add: beat_session_def tick_refines, simp add: p_rest_def)

interpretation pulses: simulation view "combat_pulse h c now" "p_pulse (c_now c) now" for h c now
  by unfold_locales (rule pulse_refines)

interpretation rests: simulation view beat_session p_rest
  by unfold_locales (rule beat_refines)

lemma respawn_refines: "view (rat_respawn now st) = p_respawn now (view st)"
  by (simp add: rat_respawn_def p_respawn_def)

lemma p_pulse_table: "p_table (p_pulse clock now a g) = p_table g \<and> p_beat (p_pulse clock now a g) = p_beat g"
  by (simp add: p_pulse_def p_round_def Let_def)

lemma heartbeat_refines_core:
  fixes st :: "('w, 'b) node_scheme"
  shows "view (hg_heartbeat h c now st) = p_heartbeat (c_now c) now (view st)"
proof -
  define st1 where "st1 = fold (combat_pulse h c now) (table st) st"
  define g1 where "g1 = fold (p_pulse (c_now c) now) (p_table (view st)) (view st)"
  have g1: "view st1 = g1"
    unfolding st1_def g1_def view_sel by (rule pulses.run_abs)
  have beats: "view (fold beat_session xs s) = fold p_rest xs (view s)" for xs and s :: "('w, 'b) node_scheme"
    by (rule rests.run_abs)
  have sel: "n_heartbeat st1 = p_beat g1" "table st1 = p_table g1" "world_tick st1 = p_tick g1"
    unfolding g1 [symmetric] by simp_all
  have "hg_heartbeat h c now st = (let st = (if now < n_heartbeat st1 + HG_HEARTBEAT_MS then st1
      else fold beat_session (table st1) (st1\<lparr>n_heartbeat := now, world_tick := world_tick st1 + 1\<rparr>)) in rat_respawn now st)"
    by (simp add: hg_heartbeat_def st1_def Let_def)
  moreover have "p_heartbeat (c_now c) now (view st) = (let g = (if now < p_beat g1 + HG_HEARTBEAT_MS then g1
      else fold p_rest (p_table g1) (g1\<lparr>p_beat := now, p_tick := p_tick g1 + 1\<rparr>)) in p_respawn now g)"
    by (simp add: p_heartbeat_def g1_def Let_def)
  ultimately show ?thesis
    by (simp add: Let_def respawn_refines beats g1 sel)
qed

section \<open>The invariant of the game\<close>

lemma sint_sum_small:
  fixes x y :: i64
  assumes "\<bar>sint x\<bar> < 2 ^ 62" and "\<bar>sint y\<bar> < 2 ^ 62"
  shows "sint (x + y) = sint x + sint y" and "sint (x - y) = sint x - sint y"
proof -
  have "sint (x + y) = signed_take_bit 63 (sint x + sint y)" "sint (x - y) = signed_take_bit 63 (sint x - sint y)"
    by (simp_all add: sint_word_ariths)
  then show "sint (x + y) = sint x + sint y" "sint (x - y) = sint x - sint y"
    using assms by (simp_all add: signed_take_bit_int_eq_self)
qed

text \<open>A player in the world is alive; a fighter has a target and is on their feet.  The rat is alive and not
  healthier than it was born, or dead.\<close>

definition fit :: "session \<Rightarrow> bool" where
  "fit s \<longleftrightarrow> 0 < sint (s_hp s) \<and> sint (s_hp s) \<le> sint (s_max_hp s) \<and> sint (s_max_hp s) < 2 ^ 61 \<and>
     (s_in_combat s = 0 \<longleftrightarrow> s_target s = 0) \<and> (s_in_combat s \<noteq> 0 \<longrightarrow> s_position s = ''standing'')"

definition rat_ok :: "play \<Rightarrow> bool" where
  "rat_ok g \<longleftrightarrow> (if p_alive g \<noteq> 0 then 0 < sint (p_rat_hp g) \<and> sint (p_rat_hp g) \<le> 12 else p_rat_hp g = 0)"

definition play_ok :: "play \<Rightarrow> bool" where
  "play_ok g \<longleftrightarrow> rat_ok g \<and> (\<forall>b \<in> set (p_table g). b \<noteq> 0 \<longrightarrow> fit (p_sess g b))"

definition damage :: "session \<Rightarrow> int" where
  "damage s = (if s_eq_weapon s = ''shiv'' then 8 else 5)"

lemma struck_value:
  assumes "0 \<le> sint r" and "sint r \<le> 12"
  shows "sint (struck r s) = max 0 (sint r - damage s)"
proof -
  have "sint (r - 8) = sint r - 8" "sint (r - 5) = sint r - 5"
    using sint_sum_small(2) [of r 8] sint_sum_small(2) [of r 5] assms by simp_all
  then show ?thesis
    by (auto simp: struck_def player_damage_eq damage_def Let_def word_sle_eq max_def)
qed

lemma struck_dead: "0 \<le> sint r \<Longrightarrow> sint r \<le> 12 \<Longrightarrow> struck r s \<le>s 0 \<longleftrightarrow> sint r \<le> damage s"
  by (simp add: word_sle_eq struck_value)

lemma sint_zero_iff: "sint (x :: i64) = 0 \<longleftrightarrow> x = 0"
  by (metis signed_0 signed_word_eqI)

lemma fit_moves:
  assumes "fit s"
  shows "fit (leave s)" "fit (slayer s)" "fit (armed now s)" "fit (s\<lparr>s_wsi := w\<rparr>)"
  using assms by (simp_all add: fit_def leave_def slayer_def armed_def)

lemma fit_bitten:
  assumes "fit s"
  shows "fit (bitten s)"
proof -
  have "sint (s_hp s - 4) = sint (s_hp s) - 4"
    using sint_sum_small(2) [of "s_hp s" 4] assms by (simp add: fit_def)
  then show ?thesis
    using assms by (auto simp: fit_def bitten_def reknit_def word_sle_eq)
qed

lemma fit_rested:
  assumes "fit s"
  shows "fit (rested s)"
proof -
  have "sint (s_hp s + 2) = sint (s_hp s) + 2"
    using sint_sum_small(1) [of "s_hp s" 2] assms by (simp add: fit_def)
  then show ?thesis
    using assms by (auto simp: fit_def rested_def word_sle_eq)
qed

lemma play_ok_upd: "play_ok g \<Longrightarrow> (\<And>s. fit s \<Longrightarrow> fit (f s)) \<Longrightarrow> play_ok (upd a f g)"
  by (auto simp: play_ok_def rat_ok_def)

lemma play_ok_round:
  assumes "play_ok g"
  shows "play_ok (p_round now a w g)"
proof -
  let ?s = "(p_sess g a)\<lparr>s_wsi := w\<rparr>"
  have w: "play_ok (wired a w g)"
    using assms by (rule play_ok_upd) (simp add: fit_moves)
  show ?thesis
  proof (cases "p_alive g = 0")
    case True
    then show ?thesis
      using w play_ok_upd [OF w, where f = leave] by (simp add: p_round_def Let_def fit_moves)
  next
    case False
    let ?l = "struck (p_rat_hp g) ?s"
    from assms False have r: "0 < sint (p_rat_hp g)" "sint (p_rat_hp g) \<le> 12" by (simp_all add: play_ok_def rat_ok_def)
    then have l: "sint ?l = max 0 (sint (p_rat_hp g) - damage ?s)" and d: "0 < damage ?s"
      by (simp_all add: struck_value damage_def)
    have dead: "play_ok ((wired a w g)\<lparr>p_rat_hp := ?l, p_alive := 0, p_died := now\<rparr>)" if "?l \<le>s 0"
      using w that l by (auto simp: play_ok_def rat_ok_def word_sle_eq simp flip: sint_zero_iff)
    have hurt: "play_ok ((wired a w g)\<lparr>p_rat_hp := ?l\<rparr>)" if "\<not> ?l \<le>s 0"
      using w that l r d False by (auto simp: play_ok_def rat_ok_def word_sle_eq)
    show ?thesis
      using False w play_ok_upd [OF dead, of slayer a] play_ok_upd [OF hurt, of bitten a]
      by (simp add: p_round_def Let_def fit_moves fit_bitten)
  qed
qed

lemma play_ok_pulse: "play_ok g \<Longrightarrow> play_ok (p_pulse clock now a g)"
  by (simp add: p_pulse_def Let_def play_ok_upd play_ok_round fit_moves)

lemma play_ok_rest: "play_ok g \<Longrightarrow> play_ok (p_rest a g)"
  by (simp add: p_rest_def Let_def play_ok_upd fit_moves fit_rested)

lemma play_ok_respawn: "play_ok g \<Longrightarrow> play_ok (p_respawn now g)"
  by (simp add: p_respawn_def play_ok_def rat_ok_def)

lemma fold_preserves: "(\<And>x s. P s \<Longrightarrow> P (f x s)) \<Longrightarrow> P s \<Longrightarrow> P (fold f xs s)"
  by (induction xs arbitrary: s) simp_all

lemma heartbeat_keeps:
  assumes "\<And>a g. P g \<Longrightarrow> P (p_pulse clock now a g)" and "\<And>a g. P g \<Longrightarrow> P (p_rest a g)"
    and "\<And>g. P g \<Longrightarrow> P (g\<lparr>p_beat := now, p_tick := p_tick g + 1\<rparr>)" and "\<And>g. P g \<Longrightarrow> P (p_respawn now g)" and "P g"
  shows "P (p_heartbeat clock now g)"
proof -
  have pulses: "P (fold (p_pulse clock now) (p_table g) g)" using assms(1, 5) by (rule fold_preserves)
  have "P (fold p_rest xs s)" if "P s" for xs s using assms(2) that by (rule fold_preserves)
  with pulses assms(3, 4) show ?thesis unfolding p_heartbeat_def Let_def by simp
qed

lemma play_ok_clock [simp]: "play_ok (g\<lparr>p_beat := x, p_tick := y\<rparr>) = play_ok g"
  by (simp add: play_ok_def rat_ok_def)

lemma play_ok_heartbeat: "play_ok g \<Longrightarrow> play_ok (p_heartbeat clock now g)"
  by (rule heartbeat_keeps [where P = play_ok]) (simp_all add: play_ok_pulse play_ok_rest play_ok_respawn)

text \<open>C3. The fight does not depend on anything outside of the game: what a round and a heartbeat do to the players, the
  rat and the clock of the world is a function of the game and of the time alone.  Which of the hub's calls fail, what
  the disk does when the slayer is saved and how full the outboxes are makes no difference to it.\<close>

theorem heartbeat_refines:
  "view (hg_heartbeat h c now st) = p_heartbeat (c_now c) now (view st) \<and>
   view (hg_combat_round h c a wsi st) = p_round (c_now c) a wsi (view st)"
  by (simp add: heartbeat_refines_core round_refines)

end
