(* ===== verification/Fights.thy ===== *)
theory Fights
  imports Combat
begin

text \<open>
  What the rules of \<open>Combat\<close> come to: every fight ends, and when; the rat returns; the order of the world is
  kept by everything a player may do; and two commands that do not keep to the rules.
\<close>

section \<open>How long a fight lasts\<close>

text \<open>The rounds a fighter may still need: one for every five points of the rat, begun or not, and one to see
  that it is dead.\<close>

definition need :: "addr \<Rightarrow> play \<Rightarrow> nat" where
  "need a g =
     (if s_target (p_sess g a) = 0 then 0 else if p_alive g = 0 then 1 else nat ((sint (p_rat_hp g) + 4) div 5))"

lemma need_upd: "(\<And>s. s_target (f s) = s_target s) \<Longrightarrow> need a (upd b f g) = need a g"
  by (simp add: need_def)

lemma target_moves [simp]:
  "s_target (leave s) = 0" "s_target (slayer s) = 0" "s_target (reknit s) = 0"
  "s_target (armed now s) = s_target s" "s_target (rested s) = s_target s"
  by (simp_all add: leave_def slayer_def reknit_def armed_def rested_def)

lemma rat_ok_upd [simp]: "rat_ok (upd a f g) = rat_ok g"
  by (simp add: rat_ok_def)

lemma need_round:
  assumes "rat_ok g"
  shows "need a (p_round now b w g) \<le> need a g - (if a = b then 1 else 0)"
proof -
  let ?s = "(p_sess g b)\<lparr>s_wsi := w\<rparr>" and ?r = "sint (p_rat_hp g)"
  show ?thesis
  proof (cases "p_alive g = 0 \<or> s_target ?s = 0")
    case True
    then show ?thesis by (auto simp: p_round_def Let_def need_def)
  next
    case False
    let ?l = "struck (p_rat_hp g) ?s"
    from assms False have r: "0 < ?r" "?r \<le> 12" by (simp_all add: rat_ok_def)
    then have l: "sint ?l = max 0 (?r - damage ?s)" and d: "5 \<le> damage ?s" and k: "?l \<le>s 0 \<longleftrightarrow> ?r \<le> damage ?s"
      by (simp_all add: struck_value struck_dead damage_def)
    have one: "1 \<le> nat ((?r + 4) div 5)" using r by simp
    have less: "nat ((sint ?l + 4) div 5) \<le> nat ((?r + 4) div 5) - 1" if "damage ?s < ?r"
    proof -
      have "(?r - damage ?s + 4) div 5 \<le> (?r + 4) div 5 - 1" using d by linarith
      then show ?thesis using that l by simp
    qed
    show ?thesis
    proof (cases "?l \<le>s 0")
      case True
      then show ?thesis using False one by (auto simp: p_round_def Let_def need_def)
    next
      case False': False
      then have "damage ?s < ?r" using k by simp
      from less [OF this] le_trans [OF less [OF this] diff_le_self] show ?thesis using False False' one
        by (auto simp: p_round_def Let_def need_def bitten_def)
    qed
  qed
qed

lemma rat_ok_round: "rat_ok g \<Longrightarrow> rat_ok (p_round now a w g)"
  using play_ok_round [of "g\<lparr>p_table := []\<rparr>" now a w]
  by (simp add: play_ok_def rat_ok_def p_round_def Let_def split: if_splits)

text \<open>Rounds in any order, each by some player over some socket; the hub and the file system answer each of them as
  they like.\<close>

type_synonym turn = "addr \<times> addr \<times> call"

definition turns :: "('j, 'w) host \<Rightarrow> turn list \<Rightarrow> ('w, 'b) node_scheme \<Rightarrow> ('w, 'b) node_scheme" where
  "turns h ts st = fold (\<lambda>(a, wsi, c). hg_combat_round h c a wsi) ts st"

definition node_ok :: "('w, 'b) node_scheme \<Rightarrow> bool" where
  "node_ok st \<longleftrightarrow> play_ok (view st)"

definition turns_of :: "addr \<Rightarrow> turn list \<Rightarrow> nat" where
  "turns_of a ts = length (filter (\<lambda>t. fst t = a) ts)"

interpretation rounds: simulation view "\<lambda>(a, wsi, c). hg_combat_round h c a wsi" "\<lambda>(a, wsi, c). p_round (c_now c) a wsi" for h
  by unfold_locales (auto simp: round_refines)

lemma turns_view: "view (turns h ts st) = fold (\<lambda>(a, wsi, c). p_round (c_now c) a wsi) ts (view st)"
  unfolding turns_def by (rule rounds.run_abs)

lemma need_rounds:
  "rat_ok g \<Longrightarrow> rat_ok (fold (\<lambda>(a, wsi, c). p_round (c_now c) a wsi) ts g) \<and>
     need a (fold (\<lambda>(a, wsi, c). p_round (c_now c) a wsi) ts g) \<le> need a g - turns_of a ts"
proof (induction ts arbitrary: g)
  case (Cons t ts)
  obtain b w c where t: "t = (b, w, c)" by (cases t)
  let ?g = "p_round (c_now c) b w g"
  have "rat_ok ?g" "need a ?g \<le> need a g - (if a = b then 1 else 0)"
    using Cons.prems by (simp_all add: rat_ok_round need_round)
  moreover note Cons.IH [OF this(1)]
  ultimately show ?case by (auto simp: t turns_of_def)
qed (simp add: turns_of_def)

lemma need_at_most: "rat_ok g \<Longrightarrow> need a g \<le> 3"
proof -
  assume "rat_ok g"
  then have "sint (p_rat_hp g) \<le> 12" if "p_alive g \<noteq> 0" using that by (simp add: rat_ok_def)
  then have "(sint (p_rat_hp g) + 4) div 5 \<le> 3" if "p_alive g \<noteq> 0" using that by fastforce
  then show ?thesis by (auto simp: need_def)
qed

lemma need_0: "rat_ok g \<Longrightarrow> need a g = 0 \<longleftrightarrow> s_target (p_sess g a) = 0"
  by (auto simp: need_def rat_ok_def)

text \<open>C32. Every fight ends: a fighter who has had three rounds against the glow-rat no longer has a target, whatever
  other fighters do in between and however the hub and the file system answer; the rat is dead or healthier than
  it should be never: it stays within its twelve points.\<close>

theorem fight_ends:
  assumes "node_ok st" and "3 \<le> turns_of a ts"
  shows "s_target (sess (turns h ts st) a) = 0 \<and> rat_ok (view (turns h ts st))"
proof -
  have ok: "rat_ok (view st)" using assms(1) by (simp add: node_ok_def play_ok_def)
  note r = need_rounds [OF ok, of ts a, folded turns_view [of h]]
  have "need a (view (turns h ts st)) = 0" using r need_at_most [OF ok, of a] assms(2) by simp
  with need_0 [of "view (turns h ts st)" a] r show ?thesis by simp
qed

section \<open>When a fight is over\<close>

definition paired :: "session \<Rightarrow> bool" where
  "paired s \<longleftrightarrow> (s_in_combat s = 0 \<longleftrightarrow> s_target s = 0)"

text \<open>A fighter's next round is due, and with \<open>need\<close> rounds at 2000 ms each, every one late by at most \<open>d\<close>,
  the last of them is due by \<open>l\<close>.  \<open>p\<close> is the time of the last pulse.\<close>

definition on_time :: "nat \<Rightarrow> addr \<Rightarrow> nat \<Rightarrow> nat \<Rightarrow> play \<Rightarrow> bool" where
  "on_time d a l p g \<longleftrightarrow> rat_ok g \<and> socket a g \<noteq> 0 \<and> paired (p_sess g a) \<and>
     (need a g = 0 \<or> p < unat (s_last_tick (p_sess g a)) \<and>
        unat (s_last_tick (p_sess g a)) + (need a g - 1) * (2000 + d) \<le> l)"

lemma socket_fields [simp]:
  "socket a (g\<lparr>p_rat_hp := x\<rparr>) = socket a g" "socket a (g\<lparr>p_alive := y\<rparr>) = socket a g"
  "socket a (g\<lparr>p_died := z\<rparr>) = socket a g" "socket a (g\<lparr>p_beat := u, p_tick := v\<rparr>) = socket a g"
  by (simp_all add: socket_def)

lemma wsi_moves [simp]:
  "s_wsi (leave s) = s_wsi s" "s_wsi (slayer s) = s_wsi s" "s_wsi (bitten s) = s_wsi s" "s_wsi (armed now s) = s_wsi s"
  "s_wsi (rested s) = s_wsi s"
  by (simp_all add: leave_def slayer_def bitten_def reknit_def armed_def rested_def)

lemma tick_moves [simp]:
  "s_last_tick (leave s) = s_last_tick s" "s_last_tick (slayer s) = s_last_tick s" "s_last_tick (bitten s) = s_last_tick s"
  "s_last_tick (rested s) = s_last_tick s" "s_last_tick (armed now s) = now + HG_COMBAT_MS"
  by (simp_all add: leave_def slayer_def bitten_def reknit_def armed_def rested_def)

lemma paired_moves [simp]:
  "paired (leave s)" "paired (slayer s)" "paired s \<Longrightarrow> paired (bitten s)" "paired (armed now s) = paired s"
  "paired (rested s) = paired s" "paired (s\<lparr>s_wsi := w\<rparr>) = paired s"
  by (simp_all add: paired_def leave_def slayer_def bitten_def reknit_def armed_def rested_def)

lemma round_sess:
  "b \<noteq> a \<Longrightarrow> p_sess (p_round clock a w g) b = p_sess g b"
  "s_last_tick (p_sess (p_round clock a w g) a) = s_last_tick (p_sess g a)"
  "paired (p_sess g a) \<Longrightarrow> paired (p_sess (p_round clock a w g) a)"
  "s_wsi (p_sess (p_round clock a w g) a) = w"
  "p_table (p_round clock a w g) = p_table g" "p_wsis (p_round clock a w g) = p_wsis g"
  by (simp_all add: p_round_def Let_def)

lemma socket_cong: "s_wsi (p_sess g' a) = s_wsi (p_sess g a) \<Longrightarrow> p_table g' = p_table g \<Longrightarrow> p_wsis g' = p_wsis g \<Longrightarrow>
    socket a g' = socket a g"
  by (simp add: socket_def)

lemma pulse_other:
  assumes "b \<noteq> a"
  shows "p_sess (p_pulse clock now b g) a = p_sess g a"
  using assms by (simp add: p_pulse_def Let_def round_sess)

lemma pulse_tables: "p_table (p_pulse clock now b g) = p_table g" "p_wsis (p_pulse clock now b g) = p_wsis g"
  by (simp_all add: p_pulse_def Let_def round_sess)

lemma need_wired [simp]: "need a (wired b w g) = need a g" "need a (upd b (armed now) g) = need a g"
  "need a (upd b rested g) = need a g"
  by (simp_all add: need_upd)

lemma need_pulse:
  assumes "rat_ok g"
  shows "rat_ok (p_pulse clock now b g)" "need a (p_pulse clock now b g) \<le> need a g"
proof -
  let ?h = "upd b (armed now) (wired b (socket b g) g)"
  have "rat_ok ?h" using assms by simp
  from rat_ok_round [OF this] need_round [OF this, of a clock b "socket b g"]
  show "rat_ok (p_pulse clock now b g)" "need a (p_pulse clock now b g) \<le> need a g"
    using assms by (auto simp: p_pulse_def Let_def split: if_splits intro: le_trans)
qed

lemma on_time_other:
  assumes "on_time d a l p g" and "b \<noteq> a"
  shows "on_time d a l p (p_pulse clock now b g)"
proof -
  let ?g = "p_pulse clock now b g"
  have r: "rat_ok ?g" "need a ?g \<le> need a g"
    using assms(1) need_pulse [of g] by (simp_all add: on_time_def)
  have s: "p_sess ?g a = p_sess g a" using assms(2) by (rule pulse_other)
  then have "socket a ?g = socket a g" by (intro socket_cong) (simp_all add: pulse_tables)
  moreover have "unat (s_last_tick (p_sess g a)) + (need a ?g - 1) * (2000 + d) \<le> l" if "need a g \<noteq> 0"
  proof (rule le_trans)
    show "unat (s_last_tick (p_sess g a)) + (need a ?g - 1) * (2000 + d) \<le>
        unat (s_last_tick (p_sess g a)) + (need a g - 1) * (2000 + d)"
      using r by (intro add_left_mono mult_le_mono1 diff_le_mono)
    show "\<dots> \<le> l" using assms(1) that by (simp add: on_time_def)
  qed
  ultimately show ?thesis using assms(1) r by (cases "need a g = 0") (simp_all add: on_time_def s)
qed

lemma due_step:
  fixes n' n t due d l p :: nat
  assumes "0 < n'" and "n' \<le> n - 1" and "t \<le> p + d" and "p < due" and "due + (n - 1) * (2000 + d) \<le> l"
  shows "t + 2000 + (n' - 1) * (2000 + d) \<le> l"
proof -
  from assms(1, 2) have "n' - 1 + 1 \<le> n - 1" by simp
  then have "(n' - 1 + 1) * (2000 + d) \<le> (n - 1) * (2000 + d)" by (rule mult_le_mono1)
  then show ?thesis using assms(3-5) by (simp add: add_mult_distrib)
qed

lemma on_time_self:
  assumes "on_time d a l p g" and "a \<noteq> 0" and "p \<le> unat now" and "unat now \<le> p + d" and "unat now + 2000 < 2 ^ 64"
  shows "on_time d a l (unat now) (p_pulse clock now a g)"
proof (cases "need a g = 0")
  case True
  then have "s_in_combat (p_sess g a) = 0" using assms(1) need_0 by (auto simp: on_time_def paired_def)
  then have "p_pulse clock now a g = g" by (simp add: p_pulse_def Let_def)
  then show ?thesis using assms(1) True by (simp add: on_time_def)
next
  case False
  let ?due = "s_last_tick (p_sess g a)" and ?w = "socket a g"
  from False have "s_target (p_sess g a) \<noteq> 0" by (auto simp: need_def)
  with assms(1) False have f: "s_in_combat (p_sess g a) \<noteq> 0" "?w \<noteq> 0" "p < unat ?due"
      "unat ?due + (need a g - 1) * (2000 + d) \<le> l" "rat_ok g" "paired (p_sess g a)"
    by (auto simp: on_time_def paired_def)
  have nz: "?due \<noteq> 0" using f(3) by auto
  show ?thesis
  proof (cases "now < ?due")
    case True
    then have "p_pulse clock now a g = wired a ?w g" using f nz assms(2) by (simp add: p_pulse_def Let_def)
    moreover have "socket a (wired a ?w g) \<noteq> 0" using f(2) by (simp add: socket_def)
    ultimately show ?thesis using f True by (simp add: on_time_def word_less_nat_alt)
  next
    case late: False
    let ?h = "upd a (armed now) (wired a ?w g)"
    let ?g = "p_round clock a ?w ?h"
    have g: "p_pulse clock now a g = ?g" using f nz late assms(2) by (simp add: p_pulse_def Let_def)
    have n: "need a ?g \<le> need a g - 1" using need_round [of ?h a clock a ?w] f(5) by simp
    have t: "unat (s_last_tick (p_sess ?g a)) = unat now + 2000"
      using assms(5) by (simp add: round_sess HG_COMBAT_MS_def unat_word_ariths)
    have "unat now + 2000 + (need a ?g - 1) * (2000 + d) \<le> l" if "0 < need a ?g"
      using due_step [OF that n assms(4) f(3) f(4)] .
    moreover have "socket a ?g \<noteq> 0" "paired (p_sess ?g a)" "rat_ok ?g"
      using f by (simp_all add: socket_def round_sess rat_ok_round)
    ultimately show ?thesis unfolding g on_time_def t by auto
  qed
qed

lemma on_time_pulses:
  assumes "a \<noteq> 0" and "unat now + 2000 < 2 ^ 64"
  shows "on_time d a l p g \<Longrightarrow> p \<le> unat now \<Longrightarrow> unat now \<le> p + d \<Longrightarrow>
     on_time d a l (if a \<in> set bs then unat now else p) (fold (p_pulse clock now) bs g)"
proof (induction bs arbitrary: p g)
  case (Cons b bs)
  show ?case
  proof (cases "b = a")
    case True
    have "on_time d a l (unat now) (p_pulse clock now a g)"
      using on_time_self [OF Cons.prems(1) assms(1) Cons.prems(2, 3) assms(2)] .
    from Cons.IH [OF this] True show ?thesis by (simp split: if_splits)
  next
    case False
    from Cons.IH [OF on_time_other [OF Cons.prems(1) False] Cons.prems(2, 3)] False show ?thesis by simp
  qed
qed simp

lemma on_time_rest:
  assumes "on_time d a l p g"
  shows "on_time d a l p (p_rest b g)"
proof (cases "b = 0 \<or> socket b g = 0")
  case False
  have "socket a (upd b rested (wired b (socket b g) g)) \<noteq> 0"
    using assms False by (auto simp: on_time_def socket_def)
  then show ?thesis using assms False by (cases "a = b") (auto simp: p_rest_def Let_def on_time_def need_upd)
qed (use assms in \<open>auto simp: p_rest_def\<close>)

text \<open>No rat returns while nobody's kill is twenty seconds old.\<close>

definition recent :: "nat \<Rightarrow> play \<Rightarrow> bool" where
  "recent t0 g \<longleftrightarrow> p_alive g \<noteq> 0 \<or> t0 \<le> unat (p_died g) \<and> unat (p_died g) < 2 ^ 62"

lemma recent_pulse: "recent t0 g \<Longrightarrow> t0 \<le> unat clock \<Longrightarrow> unat clock < 2 ^ 62 \<Longrightarrow> recent t0 (p_pulse clock now b g)"
  by (simp add: recent_def p_pulse_def p_round_def Let_def)

lemma recent_rest: "recent t0 g \<Longrightarrow> recent t0 (p_rest b g)"
  by (simp add: recent_def p_rest_def Let_def)

lemma recent_respawn:
  assumes "recent t0 g" and "unat now < t0 + 20000"
  shows "p_respawn now g = g"
proof (cases "p_alive g = 0")
  case True
  then have "t0 \<le> unat (p_died g)" "unat (p_died g) < 2 ^ 62" using assms(1) by (simp_all add: recent_def)
  then have "unat (p_died g + 20000) = unat (p_died g) + 20000" by (simp add: unat_word_ariths)
  then have "now < p_died g + 20000" using assms(2) \<open>t0 \<le> _\<close> by (simp add: word_less_nat_alt)
  then show ?thesis by (simp add: p_respawn_def)
qed (simp add: p_respawn_def)

lemma clock_moves [simp]:
  "need a (g\<lparr>p_beat := u, p_tick := v\<rparr>) = need a g" "rat_ok (g\<lparr>p_beat := u, p_tick := v\<rparr>) = rat_ok g"
  "recent t0 (g\<lparr>p_beat := u, p_tick := v\<rparr>) = recent t0 g"
  by (simp_all add: need_def rat_ok_def recent_def)

definition in_fight :: "nat \<Rightarrow> addr \<Rightarrow> nat \<Rightarrow> nat \<Rightarrow> nat \<Rightarrow> play \<Rightarrow> bool" where
  "in_fight d a l t0 p g \<longleftrightarrow> on_time d a l p g \<and> recent t0 g \<and> a \<in> set (p_table g) \<and> a \<noteq> 0"

lemma in_fight_beat:
  assumes f: "in_fight d a l t0 p g" and t: "p \<le> unat now" "unat now \<le> p + d" "t0 \<le> unat now"
    "unat now < t0 + 20000" "unat now + 2000 < 2 ^ 62"
  shows "in_fight d a l t0 (unat now) (p_heartbeat now now g)"
proof -
  define g1 where "g1 = fold (p_pulse now now) (p_table g) g"
  define g2 where "g2 = (if now < p_beat g1 + HG_HEARTBEAT_MS then g1
    else fold p_rest (p_table g1) (g1\<lparr>p_beat := now, p_tick := p_tick g1 + 1\<rparr>))"
  have table: "p_table (fold (p_pulse now now) bs h) = p_table h" for bs h
    by (induction bs arbitrary: h) (simp_all add: pulse_tables)
  have "on_time d a l (if a \<in> set (p_table g) then unat now else p) g1"
    unfolding g1_def using f t by (intro on_time_pulses) (simp_all add: in_fight_def)
  moreover have "recent t0 g1"
    unfolding g1_def by (rule fold_preserves [where P = "recent t0"]) (use f t in \<open>simp_all add: recent_pulse in_fight_def\<close>)
  ultimately have 1: "in_fight d a l t0 (unat now) g1" using f by (simp add: in_fight_def g1_def table)
  have table2: "p_table (p_rest b h) = p_table h" for b h by (simp add: p_rest_def Let_def)
  have keeps: "in_fight d a l t0 (unat now) (fold p_rest bs h)" if "in_fight d a l t0 (unat now) h" for bs h
    using that by (intro fold_preserves [where P = "in_fight d a l t0 (unat now)"])
      (simp_all add: in_fight_def on_time_rest recent_rest table2)
  have "in_fight d a l t0 (unat now) (g1\<lparr>p_beat := now, p_tick := p_tick g1 + 1\<rparr>)"
    using 1 by (simp add: in_fight_def on_time_def)
  with 1 keeps have 2: "in_fight d a l t0 (unat now) g2" by (simp add: g2_def)
  moreover have "p_respawn now g2 = g2" using 2 t by (intro recent_respawn) (simp_all add: in_fight_def)
  ultimately show ?thesis by (simp add: p_heartbeat_def Let_def g1_def [symmetric] g2_def [symmetric])
qed

text \<open>The heartbeats the service loop gives, one per call, and how steady they are: each at most \<open>d\<close>
  milliseconds after the one before.\<close>

definition heartbeats :: "('j, 'w) host \<Rightarrow> call list \<Rightarrow> ('w, 'b) node_scheme \<Rightarrow> ('w, 'b) node_scheme" where
  "heartbeats h cs st = fold (\<lambda>c. hg_heartbeat h c (c_now c)) cs st"

fun steady :: "nat \<Rightarrow> nat \<Rightarrow> call list \<Rightarrow> bool" where
  "steady d p [] = True"
| "steady d p (c # cs) = (p \<le> unat (c_now c) \<and> unat (c_now c) \<le> p + d \<and> steady d (unat (c_now c)) cs)"

fun end_of :: "nat \<Rightarrow> call list \<Rightarrow> nat" where
  "end_of p [] = p"
| "end_of p (c # cs) = end_of (unat (c_now c)) cs"

interpretation beats: simulation view "\<lambda>c. hg_heartbeat h c (c_now c)" "\<lambda>c. p_heartbeat (c_now c) (c_now c)" for h
  by unfold_locales (rule heartbeat_refines_core)

lemma heartbeats_view: "view (heartbeats h cs st) = fold (\<lambda>c. p_heartbeat (c_now c) (c_now c)) cs (view st)"
  unfolding heartbeats_def by (rule beats.run_abs)

lemma steady_mono: "steady d p cs \<Longrightarrow> p \<le> end_of p cs"
  by (induction cs arbitrary: p) fastforce+

lemma in_fight_beats:
  assumes "t0 < 2 ^ 61"
  shows "in_fight d a l t0 p g \<Longrightarrow> steady d p cs \<Longrightarrow> t0 \<le> p \<Longrightarrow> end_of p cs < t0 + 20000 \<Longrightarrow>
     in_fight d a l t0 (end_of p cs) (fold (\<lambda>c. p_heartbeat (c_now c) (c_now c)) cs g)"
proof (induction cs arbitrary: p g)
  case (Cons c cs)
  let ?t = "unat (c_now c)"
  have t: "p \<le> ?t" "?t \<le> p + d" "steady d ?t cs" "end_of ?t cs < t0 + 20000" "t0 \<le> p" using Cons.prems by simp_all
  then have "?t < t0 + 20000" using steady_mono [of d ?t cs] by simp
  then have "in_fight d a l t0 ?t (p_heartbeat (c_now c) (c_now c) g)"
    using Cons.prems(1) t assms by (intro in_fight_beat) simp_all
  from Cons.IH [OF this] t show ?case by simp
qed simp

definition fighting :: "i64 \<Rightarrow> addr \<Rightarrow> session \<Rightarrow> session" where
  "fighting now wsi s = s\<lparr>s_in_combat := 1, s_target := 1, s_position := ''standing'',
     s_last_tick := now + HG_COMBAT_MS, s_wsi := wsi\<rparr>"

lemma view_attack:
  assumes "s_in_combat (sess st a) = 0" and "rat_here a st" and "names_rat t" and "a \<noteq> 0" and "wsi \<noteq> 0"
  shows "view (hg_cmd_attack c a wsi (Some t) st) = upd a (fighting (c_now c) wsi) (view st)"
proof -
  have arm: "view (hg_combat_arm now a wsi st) = upd a (\<lambda>s. s\<lparr>s_last_tick := now + HG_COMBAT_MS, s_wsi := wsi\<rparr>) (view st)"
    for now and st :: "('a, 'b) node_scheme"
    using assms(4, 5) by (simp add: hg_combat_arm_def strip_out_def)
  have start: "view (upd_sess a (\<lambda>s. s\<lparr>s_in_combat := 1, s_target := 1, s_position := ''standing''\<rparr>) st) =
      upd a (\<lambda>s. s\<lparr>s_in_combat := 1, s_target := 1, s_position := ''standing''\<rparr>) (view st)" for st :: "('a, 'b) node_scheme"
    by (rule view_upd_sess) (simp add: strip_out_def)
  have here: "rat_here a (setup_cmd a wsi st)" using assms(2) by (simp add: rat_here_def setup_cmd_def)
  show ?thesis
    using assms(1, 3) here
    by (simp add: hg_cmd_attack_def Let_def or_default_def arm start) (simp add: upd_def fighting_def)
qed

text \<open>C10. A fight is over in about six seconds: whoever attacks the rat in the tunnels is out of the fight once the
  heartbeats, none later than \<open>d\<close> milliseconds after the one before, have gone on for \<open>6000 + 2 * d\<close>
  milliseconds (three rounds two seconds apart, each late by one beat at most), with any number of other fighters,
  and however the hub and the file system answer.\<close>

theorem fight_over_in_time:
  assumes "node_ok st" and "a \<in> set (table st)" and "a \<noteq> 0" and "wsi \<noteq> 0"
    and "s_in_combat (sess st a) = 0" and "rat_here a st" and "names_rat t"
    and "t0 = unat (c_now c)" and "t0 < 2 ^ 61" and "steady d t0 cs"
    and "t0 + 6000 + 2 * d \<le> end_of t0 cs" and "end_of t0 cs < t0 + 20000"
  shows "s_target (sess (heartbeats h cs (hg_cmd_attack c a wsi (Some t) st)) a) = 0 \<and>
         s_in_combat (sess (heartbeats h cs (hg_cmd_attack c a wsi (Some t) st)) a) = 0"
proof -
  let ?g = "upd a (fighting (c_now c) wsi) (view st)" and ?l = "t0 + 6000 + 2 * d"
  have ok: "rat_ok (view st)" and alive: "rat_alive st \<noteq> 0"
    using assms(1, 6) by (simp_all add: node_ok_def play_ok_def rat_here_def)
  have due: "unat (c_now c + HG_COMBAT_MS) = t0 + 2000"
    using assms(8, 9) by (simp add: HG_COMBAT_MS_def unat_word_ariths)
  have n: "need a ?g \<le> 3" using need_at_most [of ?g a] ok by simp
  then have "t0 + 2000 + (need a ?g - 1) * (2000 + d) \<le> ?l"
    using mult_le_mono1 [of "need a ?g - 1" 2 "2000 + d"] by simp
  then have "in_fight d a ?l t0 t0 ?g"
    using assms(2-4) ok alive due
    by (simp add: in_fight_def on_time_def recent_def socket_def paired_def fighting_def)
  then have "in_fight d a ?l t0 (end_of t0 cs) (fold (\<lambda>c. p_heartbeat (c_now c) (c_now c)) cs ?g)"
    using assms(9, 10, 12) by (intro in_fight_beats) simp_all
  also have "fold (\<lambda>c. p_heartbeat (c_now c) (c_now c)) cs ?g = view (heartbeats h cs (hg_cmd_attack c a wsi (Some t) st))"
    using assms(3-7) by (simp add: heartbeats_view view_attack)
  finally have f: "on_time d a ?l (end_of t0 cs) (view (heartbeats h cs (hg_cmd_attack c a wsi (Some t) st)))"
    by (simp add: in_fight_def)
  then have "need a (view (heartbeats h cs (hg_cmd_attack c a wsi (Some t) st))) = 0"
    using assms(11) unfolding on_time_def by linarith
  with f show ?thesis using need_0 by (fastforce simp: on_time_def paired_def)
qed

section \<open>The rat's return\<close>

lemma pulse_dead: "p_alive g = 0 \<Longrightarrow> p_alive (p_pulse clock now a g) = 0 \<and> p_died (p_pulse clock now a g) = p_died g"
  by (simp add: p_pulse_def p_round_def Let_def)

lemma rest_dead: "p_alive (p_rest a g) = p_alive g \<and> p_died (p_rest a g) = p_died g"
  by (simp add: p_rest_def Let_def)

lemma heartbeat_dead:
  assumes "p_alive g = 0" and "p_died g = t" and "t \<noteq> 0"
  shows "let g' = p_heartbeat clock now g in
     if now < t + 20000 then p_alive g' = 0 \<and> p_died g' = t else p_alive g' = 1 \<and> p_died g' = 0 \<and> p_rat_hp g' = 12"
proof -
  let ?P = "\<lambda>g. p_alive g = 0 \<and> p_died g = t"
  define g1 where "g1 = fold (p_pulse clock now) (p_table g) g"
  define g2 where "g2 = (if now < p_beat g1 + HG_HEARTBEAT_MS then g1
    else fold p_rest (p_table g1) (g1\<lparr>p_beat := now, p_tick := p_tick g1 + 1\<rparr>))"
  have 1: "?P g1" unfolding g1_def
    by (rule fold_preserves [where P = ?P]) (use assms in \<open>simp_all add: pulse_dead\<close>)
  have "?P (fold p_rest bs h)" if "?P h" for bs h
    by (rule fold_preserves [where P = ?P]) (use that in \<open>simp_all add: rest_dead\<close>)
  with 1 have "?P g2" by (simp add: g2_def)
  moreover have "p_heartbeat clock now g = p_respawn now g2"
    by (simp add: p_heartbeat_def Let_def g1_def [symmetric] g2_def [symmetric])
  ultimately show ?thesis using assms(3) by (simp add: p_respawn_def Let_def)
qed

text \<open>C33. The rat returns twenty seconds after it was slain and not before: whatever the players do and whatever
  else a heartbeat brings, while \<open>now < t + 20000\<close> no beat revives it nor forgets when it died, and the first beat from
  \<open>t + 20000\<close> on makes it alive with its twelve points.\<close>

theorem rat_returns:
  assumes "rat_alive st = 0" and "n_rat_died st = t" and "t \<noteq> 0" and "\<forall>c \<in> set cs. c_now c < t + 20000"
    and "t + 20000 \<le> c_now c'"
  shows "rat_alive (heartbeats h cs st) = 0 \<and> rat_alive (heartbeats h (cs @ [c']) st) = 1 \<and>
     n_rat_hp (heartbeats h (cs @ [c']) st) = 12"
proof -
  let ?f = "\<lambda>c. p_heartbeat (c_now c) (c_now c)"
  have dead: "p_alive (fold ?f cs g) = 0 \<and> p_died (fold ?f cs g) = t" if "p_alive g = 0" "p_died g = t" for g
    using assms(4) that
  proof (induction cs arbitrary: g)
    case (Cons c cs)
    from heartbeat_dead [OF Cons.prems(2, 3) assms(3), of "c_now c" "c_now c"] Cons.prems(1)
    have "p_alive (?f c g) = 0" "p_died (?f c g) = t" by (simp_all add: Let_def)
    from Cons.IH [OF _ this] Cons.prems(1) show ?case by simp
  qed simp
  have d: "p_alive (view (heartbeats h cs st)) = 0" "p_died (view (heartbeats h cs st)) = t"
    using dead [of "view st"] assms(1, 2) by (simp_all only: heartbeats_view view_sel)
  from heartbeat_dead [OF this assms(3), of "c_now c'" "c_now c'"] assms(5)
  have "p_alive (view (heartbeats h (cs @ [c']) st)) = 1" "p_rat_hp (view (heartbeats h (cs @ [c']) st)) = 12"
    by (simp_all add: Let_def heartbeats_view)
  with d show ?thesis by simp
qed

section \<open>What everyone may do\<close>

inductive combat_step :: "('j, 'w) host \<Rightarrow> ('w, 'b) node_scheme \<Rightarrow> ('w, 'b) node_scheme \<Rightarrow> bool" for h where
  beat: "combat_step h st (hg_heartbeat h c (c_now c) st)"
| enter: "fit (sess st a) \<Longrightarrow> combat_step h st (hg_session_register a wsi st)"
| gone: "combat_step h st (hg_session_unregister a st)"
| attack: "combat_step h st (hg_cmd_attack c a wsi arg st)"
| rest: "combat_step h st (hg_cmd_rest a wsi st)"
| sleep: "combat_step h st (hg_cmd_sleep a wsi st)"
| stand: "combat_step h st (hg_cmd_stand a wsi st)"
| wield: "combat_step h st (hg_cmd_wield a wsi arg st)"
| remove: "combat_step h st (hg_cmd_remove a wsi arg st)"
| look: "combat_step h st (hg_cmd_look_mob a wsi arg st)"
| ask: "hg_cmd_consider a wsi arg st = Inr st' \<Longrightarrow> combat_step h st st'"
| exits: "hg_cmd_exits a wsi st = Inr st' \<Longrightarrow> combat_step h st st'"
| world: "combat_step h st (hg_cmd_world a wsi st)"
| title: "combat_step h st (hg_cmd_title h c a wsi arg st)"
| affects: "combat_step h st (hg_cmd_affects a wsi st)"
| inscribe: "hg_cmd_inscribe h c a wsi arg st = Inr st' \<Longrightarrow> combat_step h st st'"

lemma view_cells [simp]:
  "view (upd_sess a (\<lambda>s. s\<lparr>s_position := p\<rparr>) st) = upd a (\<lambda>s. s\<lparr>s_position := p\<rparr>) (view st)"
  "view (upd_sess a (\<lambda>s. s\<lparr>s_eq_weapon := p\<rparr>) st) = upd a (\<lambda>s. s\<lparr>s_eq_weapon := p\<rparr>) (view st)"
  "view (upd_sess a (\<lambda>s. s\<lparr>s_title := p\<rparr>) st) = upd a (\<lambda>s. s\<lparr>s_title := p\<rparr>) (view st)"
  "view (upd_sess a (\<lambda>s. s\<lparr>s_in_combat := 1, s_target := 1, s_position := p\<rparr>) st) =
     upd a (\<lambda>s. s\<lparr>s_in_combat := 1, s_target := 1, s_position := p\<rparr>) (view st)"
  "view (upd_sess a (\<lambda>s. s\<lparr>s_last_tick := n, s_wsi := (if wsi = 0 then s_wsi s else wsi)\<rparr>) st) =
     upd a (\<lambda>s. s\<lparr>s_last_tick := n, s_wsi := (if wsi = 0 then s_wsi s else wsi)\<rparr>) (view st)"
  by (rule view_upd_sess, simp add: strip_out_def)+

lemma queue_buf_view: "queue_buf cap a wsi r st = Inr st' \<Longrightarrow> view st' = view st"
  by (auto simp: queue_buf_def Let_def split: prod.splits if_splits)

lemma play_ok_upd1: "play_ok g \<Longrightarrow> (fit (p_sess g a) \<Longrightarrow> fit (f (p_sess g a))) \<Longrightarrow> play_ok (upd a f g)"
  by (auto simp: play_ok_def)

lemma fit_strip [simp]: "fit (strip_out s) = fit s"
  by (simp add: fit_def)

lemma play_ok_wired [simp]: "play_ok g \<Longrightarrow> play_ok (wired a w g)"
  by (simp add: play_ok_upd fit_moves)

lemma fit_cells [simp]:
  "fit (s\<lparr>s_eq_weapon := p\<rparr>) = fit s" "fit (s\<lparr>s_title := p\<rparr>) = fit s" "fit s \<Longrightarrow> fit (s\<lparr>s_position := ''standing''\<rparr>)"
  "fit s \<Longrightarrow> fit (s\<lparr>s_in_combat := 1, s_target := 1, s_position := ''standing''\<rparr>)"
  "fit (s\<lparr>s_last_tick := n, s_wsi := w\<rparr>) = fit s" "fit (s\<lparr>s_last_tick := n\<rparr>) = fit s" "fit (s\<lparr>s_wsi := w\<rparr>) = fit s"
  "s_in_combat s = 0 \<Longrightarrow> fit (s\<lparr>s_position := p\<rparr>) = fit s"
  by (auto simp: fit_def)

lemma sess_setup [simp]: "sess (setup_cmd a wsi st) = (sess st)(a := (sess st a)\<lparr>s_wsi := wsi\<rparr>)"
  by (simp add: setup_cmd_def upd_sess_def)

lemma play_ok_enter:
  assumes "play_ok (view st)" and "fit (sess st a)"
  shows "play_ok (view (hg_session_register a wsi st))"
proof -
  have "set ((table st)[i := a]) \<subseteq> insert a (set (table st))" for i by (rule set_update_subset_insert)
  then show ?thesis using assms
    by (auto simp: hg_session_register_def Let_def play_ok_def rat_ok_def view_def upd_sess_def
        simp flip: strip_out_def split: option.splits bool.splits)
qed

lemma play_ok_gone:
  assumes "play_ok (view st)"
  shows "play_ok (view (hg_session_unregister a st))"
proof -
  have "set ((table st)[i := 0]) \<subseteq> insert 0 (set (table st))" for i by (rule set_update_subset_insert)
  then show ?thesis using assms
    by (auto simp: hg_session_unregister_def Let_def play_ok_def rat_ok_def view_def upd_sess_def split: option.splits)
qed

lemma queued_view:
  "ebind (queue_buf cap a wsi r st) (\<lambda>st. Inr (hg_session_queue a wsi d st)) = Inr st' \<Longrightarrow> view st' = view st"
  by (auto dest!: queue_buf_view)

lemma inscribe_view:
  assumes "hg_cmd_inscribe h c a wsi arg st = Inr st'"
  shows "view st' = wired a wsi (view st)"
proof (cases "dropWhile (\<lambda>ch. ch = CHR '' '') (or_default arg []) = []")
  case True
  then have "st' = hg_session_queue a wsi inscribe_need (setup_cmd a wsi st)"
    using assms unfolding hg_cmd_inscribe_def Let_def by (simp only: simp_thms if_True sum.inject)
  then show ?thesis by simp
next
  case False
  note h = assms [unfolded hg_cmd_inscribe_def Let_def if_not_P [OF False]]
  from queued_view [OF h] show ?thesis by simp
qed

lemma play_ok_beat: "play_ok (g\<lparr>p_beat := x\<rparr>) = play_ok g"
  by (simp add: play_ok_def rat_ok_def)

lemma upd_beat: "(upd a f g)\<lparr>p_beat := x\<rparr> = upd a f (g\<lparr>p_beat := x\<rparr>)"
  by (simp add: upd_def)

lemma step_ok: "combat_step h st st' \<Longrightarrow> node_ok st \<Longrightarrow> node_ok st'"
  unfolding node_ok_def
proof (induction rule: combat_step.induct)
  case (beat st c)
  then show ?case by (simp add: heartbeat_refines_core play_ok_heartbeat)
next
  case (attack st c a wsi arg)
  then show ?case
    by (auto simp: hg_cmd_attack_def hg_combat_arm_def Let_def intro!: play_ok_upd)
next
  case (rest st a wsi)
  then show ?case by (auto simp: hg_cmd_rest_def Let_def play_ok_beat intro!: play_ok_upd1)
next
  case (sleep st a wsi)
  then show ?case by (auto simp: hg_cmd_sleep_def Let_def intro!: play_ok_upd1)
next
  case (stand st a wsi)
  then show ?case by (auto simp: hg_cmd_stand_def Let_def intro!: play_ok_upd)
next
  case (wield st a wsi arg)
  then show ?case by (auto simp: hg_cmd_wield_def Let_def intro!: play_ok_upd)
next
  case (remove st a wsi arg)
  then show ?case by (auto simp: hg_cmd_remove_def Let_def intro!: play_ok_upd)
next
  case (look st a wsi arg)
  then show ?case by (auto simp: hg_cmd_look_mob_def Let_def)
next
  case (ask a wsi arg st st')
  then show ?case by (auto simp: hg_cmd_consider_def Let_def split: if_splits option.splits)
next
  case (exits a wsi st st')
  then show ?case by (auto simp: hg_cmd_exits_def Let_def dest!: queue_buf_view)
next
  case (world st a wsi)
  then show ?case by (auto simp: hg_cmd_world_def Let_def)
next
  case (title st c a wsi arg)
  then show ?case by (auto simp: hg_cmd_title_def Let_def intro!: play_ok_upd)
next
  case (affects st a wsi)
  then show ?case by (auto simp: hg_cmd_affects_def)
next
  case (inscribe c a wsi arg st st')
  then show ?case by (simp add: inscribe_view)
qed (simp_all add: play_ok_enter play_ok_gone)

lemma world_boot_ok: "node_ok (hg_world_boot st)"
  by (simp add: node_ok_def play_ok_def rat_ok_def hg_world_boot_def view_def)

text \<open>C9. In a world that booted and in which players entered with their health in order, whatever they then do
  (fight, rest, sleep, wield, look, inscribe, leave) and however many heartbeats pass, every player in the world
  is alive with at most their full health, a fighter has a target and is on their feet (nobody rests or sleeps in a
  fight), and the rat is alive with one to twelve points or dead with none.\<close>

theorem world_keeps_order:
  assumes "(combat_step h)\<^sup>*\<^sup>* (hg_world_boot st0) st"
  shows "(\<forall>b \<in> set (table st) - {0}. fit (sess st b)) \<and>
     (if rat_alive st \<noteq> 0 then 0 < sint (n_rat_hp st) \<and> sint (n_rat_hp st) \<le> 12 else n_rat_hp st = 0)"
proof -
  from assms have "node_ok st"
    by (induction rule: rtranclp_induct) (auto intro: step_ok world_boot_ok)
  then show ?thesis by (auto simp: node_ok_def play_ok_def rat_ok_def)
qed

section \<open>Resting\<close>

lemma sess_rest_fold:
  assumes "distinct (players bs)" and "a \<noteq> 0" and "s_wsi (p_sess g a) \<noteq> 0"
  shows "p_sess (fold p_rest bs g) a = (if a \<in> set bs then rested (p_sess g a) else p_sess g a)"
  using assms
proof (induction bs arbitrary: g)
  case (Cons b bs)
  have other: "p_sess (p_rest b g) a = p_sess g a" if "b \<noteq> a"
    using that by (simp add: p_rest_def Let_def)
  have self: "p_sess (p_rest a g) a = rested (p_sess g a)"
    using Cons.prems(2, 3) wired_own [of g a] by (simp add: p_rest_def Let_def socket_def)
  show ?case
  proof (cases "b = a")
    case True
    with Cons.prems have "a \<notin> set bs" "distinct (players bs)" by (auto simp: set_players)
    with Cons.IH [of "p_rest a g"] Cons.prems(2, 3) self True show ?thesis by simp
  next
    case False
    with Cons.prems have "distinct (players bs)" by (simp split: if_splits)
    with Cons.IH [of "p_rest b g"] Cons.prems(2, 3) other [OF False] False show ?thesis by simp
  qed
qed simp

lemma sess_idle_pulses:
  assumes "s_in_combat (p_sess g a) = 0"
  shows "p_sess (fold (p_pulse clock now) bs g) a = p_sess g a \<and> p_table (fold (p_pulse clock now) bs g) = p_table g \<and>
     p_beat (fold (p_pulse clock now) bs g) = p_beat g"
  using assms
proof (induction bs arbitrary: g)
  case (Cons b bs)
  have "p_sess (p_pulse clock now b g) a = p_sess g a"
    using pulse_other [of b a] Cons.prems by (cases "b = a") (simp_all add: p_pulse_def Let_def)
  with Cons.IH [of "p_pulse clock now b g"] Cons.prems p_pulse_table show ?case by simp
qed simp

lemma beat_rests:
  assumes "s_in_combat (p_sess g a) = 0" and "a \<in> set (p_table g)" and "a \<noteq> 0" and "distinct (players (p_table g))"
    and "s_wsi (p_sess g a) \<noteq> 0" and "p_beat g + HG_HEARTBEAT_MS \<le> now"
  shows "p_sess (p_heartbeat clock now g) a = rested (p_sess g a)" "p_table (p_heartbeat clock now g) = p_table g"
proof -
  define g1 where "g1 = fold (p_pulse clock now) (p_table g) g"
  have 1: "p_sess g1 a = p_sess g a" "p_table g1 = p_table g" "p_beat g1 = p_beat g"
    using sess_idle_pulses [OF assms(1)] by (simp_all add: g1_def)
  have t: "p_table (fold p_rest bs h) = p_table h" for bs h
    by (induction bs arbitrary: h) (simp_all add: p_rest_def Let_def)
  have "p_heartbeat clock now g =
      p_respawn now (fold p_rest (p_table g1) (g1\<lparr>p_beat := now, p_tick := p_tick g1 + 1\<rparr>))"
    using assms(6) 1 by (simp add: p_heartbeat_def Let_def g1_def linorder_not_less)
  then show "p_sess (p_heartbeat clock now g) a = rested (p_sess g a)" "p_table (p_heartbeat clock now g) = p_table g"
    using sess_rest_fold [of "p_table g1" a "g1\<lparr>p_beat := now, p_tick := p_tick g1 + 1\<rparr>"] 1 assms t
    by (simp_all add: p_respawn_def)
qed

definition rest_beat ::
  "('j, 'w) host \<Rightarrow> call \<Rightarrow> addr \<Rightarrow> addr \<Rightarrow> ('w, 'b) node_scheme \<Rightarrow> ('w, 'b) node_scheme" where
  "rest_beat h c a wsi st = hg_heartbeat h c (c_now c) (hg_cmd_rest a wsi st)"

definition may_rest :: "addr \<Rightarrow> ('w, 'b) node_scheme \<Rightarrow> bool" where
  "may_rest a st \<longleftrightarrow> a \<in> set (table st) \<and> a \<noteq> 0 \<and> distinct (players (table st)) \<and> s_in_combat (sess st a) = 0 \<and>
     fit (sess st a)"

lemma rested_hp:
  assumes "fit s" and "s_in_combat s = 0" and "s_position s = ''resting''"
  shows "sint (s_hp (rested s)) = min (sint (s_max_hp s)) (sint (s_hp s) + 2)" "s_max_hp (rested s) = s_max_hp s"
    "s_in_combat (rested s) = 0"
proof -
  have "sint (s_hp s + 2) = sint (s_hp s) + 2"
    using sint_sum_small(1) [of "s_hp s" 2] assms(1) by (simp add: fit_def)
  then show "sint (s_hp (rested s)) = min (sint (s_max_hp s)) (sint (s_hp s) + 2)"
    using assms by (auto simp: rested_def fit_def word_sle_eq min_def)
qed (use assms in \<open>simp_all add: rested_def\<close>)

lemma rest_beat_once:
  assumes "may_rest a st" and "wsi \<noteq> 0" and "2000 \<le> c_now c"
  shows "may_rest a (rest_beat h c a wsi st) \<and> s_max_hp (sess (rest_beat h c a wsi st) a) = s_max_hp (sess st a) \<and>
     sint (s_hp (sess (rest_beat h c a wsi st) a)) = min (sint (s_max_hp (sess st a))) (sint (s_hp (sess st a)) + 2)"
proof -
  let ?s = "(strip_out (sess st a))\<lparr>s_position := ''resting'', s_wsi := wsi\<rparr>"
  let ?st = "rest_beat h c a wsi st"
  define g where "g = view (hg_cmd_rest a wsi st)"
  have f: "fit ?s" "s_in_combat ?s = 0" "s_position ?s = ''resting''"
    using assms(1) by (auto simp: may_rest_def fit_def)
  have "g = wired a wsi ((upd a (\<lambda>s. s\<lparr>s_position := ''resting''\<rparr>) (wired a wsi (view st)))\<lparr>p_beat := 0\<rparr>)"
    using assms(1) by (simp add: g_def hg_cmd_rest_def Let_def may_rest_def)
  then have g: "p_sess g a = ?s" "p_table g = table st" "p_beat g = 0" using assms(1) by (simp_all add: upd_def)
  have "p_sess (view ?st) a = rested ?s" "p_table (view ?st) = table st"
    unfolding rest_beat_def heartbeat_refines_core g_def [symmetric]
    using beat_rests [of g a "c_now c" "c_now c"] assms f g by (simp_all add: may_rest_def HG_HEARTBEAT_MS_def)
  then have "strip_out (sess ?st a) = rested ?s" "table ?st = table st" by simp_all
  moreover from this(1) have "fit (sess ?st a) = fit (rested ?s)" "s_hp (sess ?st a) = s_hp (rested ?s)"
      "s_max_hp (sess ?st a) = s_max_hp (rested ?s)" "s_in_combat (sess ?st a) = s_in_combat (rested ?s)"
    using fit_strip [of "sess ?st a"] strip_sel [of "sess ?st a"] by simp_all
  ultimately show ?thesis using assms(1) rested_hp [OF f] fit_rested [OF f(1)] by (simp add: may_rest_def)
qed

text \<open>Resting is not paced: the command \<^verbatim>\<open>rest\<close> sets the time of the last beat to zero, so that the
  next heartbeat, whenever it comes, is a full beat of the world.  A player who repeats it gains two points with every heartbeat
  (twenty a second at the service loop's fifty milliseconds), here all at one time on the clock, where the beat
  itself comes every two seconds.\<close>

lemma rest_unpaced:
  assumes "may_rest a st" and "wsi \<noteq> 0" and "2000 \<le> c_now c"
  shows "sint (s_hp (sess ((rest_beat h c a wsi ^^ n) st) a)) =
     min (sint (s_max_hp (sess st a))) (sint (s_hp (sess st a)) + 2 * int n)"
proof -
  have "may_rest a ((rest_beat h c a wsi ^^ n) st) \<and> s_max_hp (sess ((rest_beat h c a wsi ^^ n) st) a) = s_max_hp (sess st a) \<and>
     sint (s_hp (sess ((rest_beat h c a wsi ^^ n) st) a)) = min (sint (s_max_hp (sess st a))) (sint (s_hp (sess st a)) + 2 * int n)"
  proof (induction n)
    case 0
    have "sint (s_hp (sess st a)) \<le> sint (s_max_hp (sess st a))" using assms(1) by (simp add: may_rest_def fit_def)
    then show ?case using assms(1) by simp
  next
    case (Suc n)
    then have "may_rest a ((rest_beat h c a wsi ^^ n) st)" by blast
    from rest_beat_once [OF this assms(2, 3), of h] Suc show ?case by simp
  qed
  then show ?thesis by blast
qed

section \<open>Carving words\<close>

lemma sess_with_hub [simp]: "sess (with_hub f st) = sess st"
  by (simp add: with_hub_def)

lemma outs_ok_with_hub [simp]: "outs_ok (with_hub f st) = outs_ok st"
  by (simp add: outs_ok_def)

lemma outs_ok_setup [simp]: "outs_ok (setup_cmd a wsi st) = outs_ok st"
  by (auto simp: outs_ok_def out_ok_def)

lemma queue_buf_fits:
  "length t < n \<Longrightarrow> n \<le> cap \<Longrightarrow> queue_buf cap a wsi (snprintf n t) st = Inr (hg_session_queue a wsi t st)"
  by (auto simp: queue_buf_def snprintf_def Let_def min_def)

lemma queue_buf_past:
  "cap < length t \<Longrightarrow> length t \<le> OUT_CAP - length (s_out (sess st a)) \<Longrightarrow>
     queue_buf cap a wsi (snprintf n t) st = Inl (Out_of_bounds (length t) cap)"
  by (simp add: queue_buf_def snprintf_def min_def)

lemma quoted_length: "length (sprintf [L ''  \"'', S w, L ''\"'', L crlf]) = length w + 6"
  by simp

text \<open>C34. Carving words shows the player what was carved, up to 113 bytes of them: the two lines and the words in
  quotes between them.  From 123 bytes on (a line may hold 255) the command reads past the 128 bytes of its stack
  buffer: it queues as many bytes as \<^verbatim>\<open>snprintf\<close> would have needed.\<close>

theorem inscribe_echo_or_overrun:
  assumes "outs_ok st" and "w \<noteq> []" and "hd w \<noteq> CHR '' ''" and "length (out_of a st) \<le> 15000" and "length w \<le> 255"
  shows "(length w \<le> 113 \<longrightarrow> (\<exists>st'. hg_cmd_inscribe h c a wsi (Some w) st = Inr st' \<and>
      out_of a st' = out_of a st @ inscribe_line1 @ ''  \"'' @ w @ ''\"'' @ crlf @ inscribe_line2)) \<and>
    (123 \<le> length w \<longrightarrow> hg_cmd_inscribe h c a wsi (Some w) st = Inl (Out_of_bounds (length w + 6) 128))"
proof -
  let ?t = "sprintf [L ''  \"'', S w, L ''\"'', L crlf]"
  have words: "dropWhile (\<lambda>ch. ch = CHR '' '') w = w" using assms(2, 3) by (cases w) simp_all
  define f where "f = hg_grid_inscribe (h_env h) (c_now c) (hg_room_id (s_room (sess (setup_cmd a wsi st) a)))
     (Some (s_name (sess (setup_cmd a wsi st) a))) (Some w)"
  have cmd: "hg_cmd_inscribe h c a wsi (Some w) st =
      (let st = hg_session_queue a wsi inscribe_line1 (with_hub f (setup_cmd a wsi st))
       in ebind (queue_buf 128 a wsi (snprintf 120 ?t) st) (\<lambda>st. Inr (hg_session_queue a wsi inscribe_line2 st)))"
    unfolding hg_cmd_inscribe_def Let_def or_default_def option.case words f_def by (simp only: assms(2) if_False)
  define s1 where "s1 = hg_session_queue a wsi inscribe_line1 (with_hub f (setup_cmd a wsi st))"
  have l1: "length inscribe_line1 = 74" and l2: "length inscribe_line2 = 107"
    by (simp_all add: inscribe_line1_def inscribe_line2_def)
  have ok: "outs_ok s1" unfolding s1_def by (rule hg_session_queue_ok) (simp add: assms(1))
  have o1: "out_of a s1 = out_of a st @ inscribe_line1"
    unfolding s1_def using assms(4) l1 by (simp add: hg_session_queue_out assms(1) OUT_CAP_def) (simp add: out_of_def)
  then have r1: "length (s_out (sess s1 a)) \<le> 15075" using assms(4) l1 by (simp add: out_of_def)
  show ?thesis
  proof (intro conjI impI)
    assume short: "length w \<le> 113"
    let ?st = "hg_session_queue a wsi inscribe_line2 (hg_session_queue a wsi ?t s1)"
    have "hg_cmd_inscribe h c a wsi (Some w) st = Inr ?st"
      unfolding cmd s1_def [symmetric] Let_def using short quoted_length [of w]
      by (simp add: queue_buf_fits del: sprintf_Cons)
    moreover have two: "out_of a (hg_session_queue a wsi ?t s1) = out_of a s1 @ ?t"
      using r1 short quoted_length [of w]
      by (simp add: hg_session_queue_out [OF ok] OUT_CAP_def del: sprintf_Cons) (simp add: out_of_def)
    have "out_of a ?st = out_of a s1 @ ?t @ inscribe_line2"
      using r1 short l2 quoted_length [of w]
      by (simp add: hg_session_queue_out [OF hg_session_queue_ok [OF ok]] two OUT_CAP_def del: sprintf_Cons)
         (simp add: out_of_def)
    ultimately show "\<exists>st'. hg_cmd_inscribe h c a wsi (Some w) st = Inr st' \<and>
        out_of a st' = out_of a st @ inscribe_line1 @ ''  \"'' @ w @ ''\"'' @ crlf @ inscribe_line2"
      using o1 by auto
  next
    assume long: "123 \<le> length w"
    have "queue_buf 128 a wsi (snprintf 120 ?t) s1 = Inl (Out_of_bounds (length ?t) 128)"
      using r1 long assms(5) quoted_length [of w]
      by (intro queue_buf_past) (simp_all add: OUT_CAP_def del: sprintf_Cons)
    then show "hg_cmd_inscribe h c a wsi (Some w) st = Inl (Out_of_bounds (length w + 6) 128)"
      unfolding cmd s1_def [symmetric] Let_def quoted_length by simp
  qed
qed

section \<open>A node\<close>

definition lone_host :: "(unit, unit) host" where
  "lone_host = \<lparr>h_env = dead_env,
     h_json = \<lparr>jl_parse = (\<lambda>_. None), jl_print = (\<lambda>_. None), jl_get = (\<lambda>_ _. None), jl_text = (\<lambda>_. None),
       jl_num = (\<lambda>_. 0), jl_true = (\<lambda>_. False), jl_items = (\<lambda>_. [])\<rparr>,
     h_crypt = (\<lambda>_ _. None), h_gensalt = (\<lambda>_ _ _ _. None), h_root = ''data'', h_admins = None, h_token = None\<rparr>"

definition at_clock :: "i64 \<Rightarrow> call" where
  "at_clock t = \<lparr>c_now = t, c_read = \<lparr>r_open = False, r_seek = False, r_alloc = False, r_got = 0\<rparr>,
     c_write = (\<lambda>_. \<lparr>w_adds = (\<lambda>_. False), w_item = (\<lambda>_. False), w_open = False, w_write = (\<lambda>_ _. 0),
       w_rsi = (\<lambda>_ _ _. NUL), w_fsync = False, w_close = False, w_rename = False\<rparr>),
     c_rnd = None\<rparr>"

text \<open>One player in the tunnels with the rat, on a node whose hub and disk are gone.\<close>

definition mira :: session where
  "mira = zero_session\<lparr>s_name := ''Mira'', s_room := 6, s_hp := 20, s_max_hp := 20, s_position := ''standing'', s_wsi := 3\<rparr>"

definition rat_cellar :: "unit node" where
  "rat_cellar = \<lparr>sess = (\<lambda>_. zero_session)(7 := mira), writable = [], undefs_of = tame, table = 7 # replicate 31 0,
     wsi_table = 3 # replicate 31 0, session_count = 1, world_tick = 0, rat_alive = 1, cache_gold = [],
     n_grid = remote_grid (), n_fs = \<lparr>files = (\<lambda>_. None)\<rparr>, n_rat_hp = 12, n_rat_died = 0, n_heartbeat = 0\<rparr>"

lemma players_none [simp]: "players (replicate n 0) = []"
  by (induction n) simp_all

lemma rat_cellar_ok:
  "node_ok rat_cellar" "sess rat_cellar 7 = mira" "rat_here 7 rat_cellar" "fit mira" "outs_ok rat_cellar"
  "table rat_cellar = 7 # replicate 31 0" "may_rest 7 rat_cellar"
  by (simp_all add: rat_cellar_def node_ok_def play_ok_def rat_ok_def view_def fit_def mira_def rat_here_def
      strip_out_def outs_ok_def out_ok_def zero_session_def may_rest_def)

theorem fight_ends_witness:
  "s_target (sess (turns lone_host [(7, 3, at_clock 1), (7, 3, at_clock 2), (7, 3, at_clock 3)] rat_cellar) 7) = 0"
  using fight_ends [OF rat_cellar_ok(1), of 7 "[(7, 3, at_clock 1), (7, 3, at_clock 2), (7, 3, at_clock 3)]" lone_host]
  by (simp add: turns_of_def)

theorem fight_over_in_time_witness:
  "s_target (sess (heartbeats lone_host (map at_clock [3100, 5200, 7300, 9400, 11500])
     (hg_cmd_attack (at_clock 1000) 7 3 (Some ''rat'') rat_cellar)) 7) = 0"
proof -
  have c: "unat (c_now (at_clock 1000)) = 1000" by (simp add: at_clock_def)
  have "steady 2100 1000 (map at_clock [3100, 5200, 7300, 9400, 11500])"
      "end_of 1000 (map at_clock [3100, 5200, 7300, 9400, 11500]) = 11500" "s_in_combat (sess rat_cellar 7) = 0"
    by (simp_all add: at_clock_def rat_cellar_ok mira_def zero_session_def)
  moreover have "names_rat ''rat''" by (simp add: names_rat_def mob_rat_def)
  ultimately show ?thesis
    using fight_over_in_time [of rat_cellar 7 3 "''rat''" 1000 "at_clock 1000" 2100
      "map at_clock [3100, 5200, 7300, 9400, 11500]" lone_host] c rat_cellar_ok by simp
qed

definition empty_cellar :: "unit node" where
  "empty_cellar = rat_cellar\<lparr>rat_alive := 0, n_rat_hp := 0, n_rat_died := 5000\<rparr>"

theorem rat_returns_witness:
  "rat_alive (heartbeats lone_host (map at_clock [6000, 24999]) empty_cellar) = 0 \<and>
   rat_alive (heartbeats lone_host (map at_clock [6000, 24999, 25000]) empty_cellar) = 1"
proof -
  have "rat_alive empty_cellar = 0" "n_rat_died empty_cellar = 5000" "(5000 :: i64) \<noteq> 0"
    by (simp_all add: empty_cellar_def)
  from rat_returns [OF this, of "map at_clock [6000, 24999]" "at_clock 25000" lone_host] show ?thesis
    by (simp add: at_clock_def)
qed

theorem world_keeps_order_witness:
  "fit (sess (hg_session_register 7 3 (hg_world_boot rat_cellar)) 7)"
proof -
  let ?st = "hg_session_register 7 3 (hg_world_boot rat_cellar)"
  have "combat_step lone_host (hg_world_boot rat_cellar) ?st"
    by (rule combat_step.enter) (simp add: hg_world_boot_def rat_cellar_ok)
  then have "(combat_step lone_host)\<^sup>*\<^sup>* (hg_world_boot rat_cellar) ?st" by blast
  from world_keeps_order [OF this] have "\<forall>b \<in> set (table ?st) - {0}. fit (sess ?st b)" by blast
  moreover have "7 \<in> set (table ?st)"
    by (simp add: hg_session_register_def hg_world_boot_def Let_def upd_sess_def MAX_SESSIONS_def numeral_eq_Suc)
  ultimately show ?thesis by simp
qed

theorem inscribe_echo_or_overrun_witness:
  "\<exists>st'. hg_cmd_inscribe lone_host (at_clock 9) 7 3 (Some ''hold the line'') rat_cellar = Inr st'"
proof -
  have "out_of 7 rat_cellar = []" by (simp add: out_of_def rat_cellar_ok mira_def zero_session_def)
  with inscribe_echo_or_overrun [OF rat_cellar_ok(5), of "''hold the line''" 7 lone_host "at_clock 9" 3]
  show ?thesis by auto
qed

end
