(* ===== verification/Login.thy ===== *)
theory Login
  imports Fights
begin

text \<open>
  A connection from its first byte to the world: \<^verbatim>\<open>hg_app_callback\<close> of
  \<^verbatim>\<open>asm/session.asm\<close> with its texts (those of \<^verbatim>\<open>asm/content.asm\<close> among them), and
  \<^verbatim>\<open>hg_ws_write\<close> of \<^verbatim>\<open>ffi/lws_shim.c\<close>, which it calls.  Records are loaded and saved
  by \<open>Store\<close>, identities merged by \<open>GridPolicy\<close>, phrases checked by \<open>Auth\<close>.  The commands of a player in the world
  (\<^verbatim>\<open>hg_world_command\<close>) are the parameter \<open>world\<close>.
\<close>

section \<open>Texts\<close>

definition race_table :: "string list" where
  "race_table = [''human'', ''elf'', ''revenant'', ''ghoul'', ''chromed'', ''dustkin'', ''vatborn'']"

definition welcome_text :: string where
  "welcome_text = ''Your name enters the custody ledger. Type help if the route is unclear.'' @ crlf"
definition resumed :: string where "resumed = ''The custody ledger returns your prior record.'' @ crlf"
definition store_failed :: string where "store_failed = ''The custody ledger could not be read. Try again.'' @ crlf"
definition keeper_token_prompt :: string where
  "keeper_token_prompt = ''The Grid remembers keepers. Speak the keeper'' @ [CHR 0x27] @ ''s token:'' @ crlf"
definition keeper_token_fail :: string where
  "keeper_token_fail = ''The Grid does not recognize you as keeper.'' @ crlf"
definition passphrase_new_prompt :: string where
  "passphrase_new_prompt =
     ''Choose a secret phrase only you will know. The Grid will ask for it when you return.'' @ crlf"
definition passphrase_resume_prompt :: string where
  "passphrase_resume_prompt = ''By what secret phrase do you prove yourself?'' @ crlf"
definition passphrase_fail :: string where
  "passphrase_fail = ''The Grid does not recognize that phrase for this name.'' @ crlf"
definition passphrase_short :: string where
  "passphrase_short = ''That phrase will not do. Choose one at least eight characters long.'' @ crlf"

definition hg_banner :: string where
  "hg_banner = [CHR 0x1B] @ ''[38;5;240m'' @ ''B A S A L T   R E L A Y'' @ [CHR 0x1B] @ ''[0m'' @ crlf
     @ ''A custody node on the dead network.'' @ crlf @ ''By what name are you known, wanderer?'' @ crlf"

definition hg_race_menu :: string where
  "hg_race_menu = ''Choose what the Relay carried here:'' @ crlf @ ''  1) Human'' @ crlf @ ''  2) Elf'' @ crlf
     @ ''  3) Revenant'' @ crlf @ ''  4) Ghoul'' @ crlf @ ''  5) Chromed'' @ crlf @ ''  6) Dustkin'' @ crlf
     @ ''  7) Vatborn'' @ crlf
     @ ''@event char.create {\"races\":[\"Human\",\"Elf\",\"Revenant\",\"Ghoul\",\"Chromed\",\"Dustkin\",\"Vatborn\"],\"prompt\":\"race\"}'' @ crlf"

definition hg_invalid_name :: string where
  "hg_invalid_name = ''Names are 2 to 32 letters, numbers, hyphens, or underscores.'' @ crlf"

definition hg_invalid_race :: string where
  "hg_invalid_race = ''Choose a race by number from 1 to 7.'' @ crlf"

section \<open>Lines\<close>

definition name_char :: "char \<Rightarrow> bool" where
  "name_char c \<longleftrightarrow> (let n = of_char c :: nat in
     48 \<le> n \<and> n \<le> 57 \<or> 65 \<le> n \<and> n \<le> 90 \<or> 97 \<le> n \<and> n \<le> 122 \<or> n = 45 \<or> n = 95)"

definition valid_name :: "string \<Rightarrow> bool" where
  "valid_name t \<longleftrightarrow> 2 \<le> length t \<and> length t \<le> 32 \<and> list_all name_char t"

text \<open>At most 255 bytes of the input, without blanks and line ends behind and blanks in front.\<close>

definition tail_blank :: "char \<Rightarrow> bool" where
  "tail_blank c \<longleftrightarrow> c = CHR '' '' \<or> c = CHR 0x09 \<or> c = CHR 0x0A \<or> c = CHR 0x0D"

definition head_blank :: "char \<Rightarrow> bool" where
  "head_blank c \<longleftrightarrow> c = CHR '' '' \<or> c = CHR 0x09"

definition trim_line :: "string \<Rightarrow> string" where
  "trim_line input = dropWhile head_blank (rev (dropWhile tail_blank (rev (take 255 input))))"

section \<open>States\<close>

definition HG_LOGIN_NAME :: i64 where "HG_LOGIN_NAME = 0"
definition HG_LOGIN_RACE :: i64 where "HG_LOGIN_RACE = 1"
definition HG_LOGIN_PLAY :: i64 where "HG_LOGIN_PLAY = 2"
definition HG_LOGIN_TOKEN :: i64 where "HG_LOGIN_TOKEN = 3"
definition HG_LOGIN_PASSPHRASE :: i64 where "HG_LOGIN_PASSPHRASE = 4"

definition set_state :: "i64 \<Rightarrow> addr \<Rightarrow> 'a store_scheme \<Rightarrow> 'a store_scheme" where
  "set_state q a = upd_sess a (\<lambda>s. s\<lparr>s_state := q\<rparr>)"

definition fresh_session :: "addr \<Rightarrow> session" where
  "fresh_session wsi = zero_session\<lparr>s_wsi := wsi, s_state := HG_LOGIN_NAME, s_room := 0, s_hp := 30, s_max_hp := 30,
     s_level := 1, s_gold := 20, s_faction := ''none'', s_position := ''standing'', s_inv_count := 1,
     s_inventory := ''shiv'' # replicate 15 []\<rparr>"

definition app_connected :: "addr \<Rightarrow> addr \<Rightarrow> 'a store_scheme \<Rightarrow> 'a store_scheme" where
  "app_connected a wsi st = hg_session_queue a wsi hg_banner (upd_sess a (\<lambda>_. fresh_session wsi) st)"

definition begin_passphrase :: "addr \<Rightarrow> addr \<Rightarrow> 'a store_scheme \<Rightarrow> 'a store_scheme" where
  "begin_passphrase a wsi st =
     (let st = set_state HG_LOGIN_PASSPHRASE a st
      in hg_session_queue a wsi (if s_secret_hash (sess st a) = [] then passphrase_new_prompt
           else passphrase_resume_prompt) st)"

text \<open>\<^verbatim>\<open>hg_grid_load_session\<close> and \<^verbatim>\<open>hg_grid_commit_session\<close> on the session of a
  connection.\<close>

definition load_identity :: "('j, 'w) host \<Rightarrow> addr \<Rightarrow> ('w, 'b) node_scheme \<Rightarrow> int \<times> ('w, 'b) node_scheme" where
  "load_identity h a st =
     (let ((rc, sp), g) = hg_grid_load_session (h_env h) (Some (sess st a)) (n_grid st);
          st = st\<lparr>n_grid := g\<rparr>
      in (rc, case sp of None \<Rightarrow> st | Some s \<Rightarrow> upd_sess a (\<lambda>_. s) st))"

definition commit_identity :: "('j, 'w) host \<Rightarrow> addr \<Rightarrow> ('w, 'b) node_scheme \<Rightarrow> ('w, 'b) node_scheme" where
  "commit_identity h a st = with_hub (hg_grid_commit_session (h_env h) (Some (sess st a))) st"

definition load_record :: "('j, 'w) host \<Rightarrow> call \<Rightarrow> addr \<Rightarrow> ('w, 'b) node_scheme \<Rightarrow> int \<times> ('w, 'b) node_scheme" where
  "load_record h c a st =
     (let (rc, s) = hg_store_load (h_json h) (c_read c) (h_root h) (n_fs st) (sess st a)
      in (rc, upd_sess a (\<lambda>_. s) st))"

definition resume :: "addr \<Rightarrow> addr \<Rightarrow> 'a store_scheme \<Rightarrow> 'a store_scheme" where
  "resume a wsi st = begin_passphrase a wsi (upd_sess a (\<lambda>s. s\<lparr>s_pass_mode := 1\<rparr>) st)"

definition after_admin_check ::
  "('j, 'w) host \<Rightarrow> call \<Rightarrow> addr \<Rightarrow> addr \<Rightarrow> ('w, 'b) node_scheme \<Rightarrow> ('w, 'b) node_scheme" where
  "after_admin_check h c a wsi st =
     (let (rc, st) = load_record h c a st
      in if rc = 1 then
           let (rc, st) = load_identity h a st
           in resume a wsi (if rc \<noteq> 0 then st else commit_identity h a st)
         else if rc < 0 then hg_session_queue a wsi store_failed st
         else let (rc, st) = load_identity h a st
           in if rc = 1 then resume a wsi (store_save h c a st)
              else hg_session_queue a wsi hg_race_menu (set_state HG_LOGIN_RACE a st))"

definition login_name ::
  "('j, 'w) host \<Rightarrow> call \<Rightarrow> addr \<Rightarrow> addr \<Rightarrow> string \<Rightarrow> ('w, 'b) node_scheme \<Rightarrow> ('w, 'b) node_scheme" where
  "login_name h c a wsi line st =
     (if \<not> valid_name line then hg_session_queue a wsi hg_invalid_name st
      else let st = upd_sess a (\<lambda>s. s\<lparr>s_name := line\<rparr>) st
        in if hg_is_admin (h_admins h) (Some (s_name (sess st a))) then
             hg_session_queue a wsi keeper_token_prompt (set_state HG_LOGIN_TOKEN a st)
           else after_admin_check h c a wsi st)"

definition refuse :: "addr \<Rightarrow> addr \<Rightarrow> string \<Rightarrow> 'a store_scheme \<Rightarrow> 'a store_scheme" where
  "refuse a wsi text st = upd_sess a (\<lambda>s. s\<lparr>s_close := 1\<rparr>) (hg_session_queue a wsi text st)"

definition login_token ::
  "('j, 'w) host \<Rightarrow> call \<Rightarrow> addr \<Rightarrow> addr \<Rightarrow> string \<Rightarrow> ('w, 'b) node_scheme \<Rightarrow> ('w, 'b) node_scheme" where
  "login_token h c a wsi line st =
     (if hg_auth_verify_admin_token (h_token h) (Some (cstr line)) then
        after_admin_check h c a wsi (upd_sess a (\<lambda>s. s\<lparr>s_keeper_authed := 1\<rparr>) st)
      else refuse a wsi keeper_token_fail st)"

definition race_index :: "string \<Rightarrow> nat option" where
  "race_index line =
     (if length line = 1 \<and> 49 \<le> (of_char (hd line) :: nat) \<and> (of_char (hd line) :: nat) \<le> 55
      then Some (of_char (hd line) - 49)
      else first_index (\<lambda>r. case_eq (cstr line) r) race_table 0)"

definition login_race :: "addr \<Rightarrow> addr \<Rightarrow> string \<Rightarrow> 'a store_scheme \<Rightarrow> 'a store_scheme" where
  "login_race a wsi line st =
     (case race_index line of
        None \<Rightarrow> hg_session_queue a wsi hg_race_menu (hg_session_queue a wsi hg_invalid_race st)
      | Some i \<Rightarrow> begin_passphrase a wsi (upd_sess a (\<lambda>s. s\<lparr>s_race := race_table ! i, s_pass_mode := 0\<rparr>) st))"

definition enter_play ::
  "('j, 'w) host \<Rightarrow> call \<Rightarrow> addr \<Rightarrow> addr \<Rightarrow> ('w, 'b) node_scheme \<Rightarrow> ('w, 'b) node_scheme" where
  "enter_play h c a wsi st =
     (let again = s_pass_mode (sess st a) = 1;
          st = (if again then store_save h c a (set_state HG_LOGIN_PLAY a st)
                else set_state HG_LOGIN_PLAY a (commit_identity h a (store_save h c a st)));
          st = hg_session_queue a wsi (if again then resumed else welcome_text) st
      in hg_session_register a wsi (hg_emit_scene a wsi st))"

definition login_passphrase ::
  "('j, 'w) host \<Rightarrow> call \<Rightarrow> addr \<Rightarrow> addr \<Rightarrow> string \<Rightarrow> ('w, 'b) node_scheme \<Rightarrow> ('w, 'b) node_scheme" where
  "login_passphrase h c a wsi line st =
     (let hash = s_secret_hash (sess st a); phrase = cstr line
      in if hash = [] then
           (if \<not> hg_auth_phrase_ok (Some phrase) then refuse a wsi passphrase_short st
            else case hg_auth_hash_passphrase (h_crypt h) (h_gensalt h) (c_rnd c) (Some phrase) 72 of
              None \<Rightarrow> refuse a wsi passphrase_short st
            | Some new \<Rightarrow> enter_play h c a wsi (upd_sess a (\<lambda>s. s\<lparr>s_secret_hash := new\<rparr>) st))
         else if hg_auth_verify_passphrase (h_crypt h) (Some phrase) (Some hash) then enter_play h c a wsi st
         else refuse a wsi passphrase_fail st)"

section \<open>The callback\<close>

type_synonym ('w, 'b) command = "addr \<Rightarrow> addr \<Rightarrow> string \<Rightarrow> ('w, 'b) node_scheme \<Rightarrow> ('w, 'b) node_scheme"

definition app_receive ::
  "('j, 'w) host \<Rightarrow> ('w, 'b) command \<Rightarrow> call \<Rightarrow> addr \<Rightarrow> addr \<Rightarrow> string \<Rightarrow> ('w, 'b) node_scheme \<Rightarrow> ('w, 'b) node_scheme" where
  "app_receive h world c a wsi input st =
     (let st = upd_sess a (\<lambda>s. s\<lparr>s_wsi := wsi\<rparr>) st; line = trim_line input; q = s_state (sess st a)
      in if q = HG_LOGIN_NAME then login_name h c a wsi line st
         else if q = HG_LOGIN_TOKEN then login_token h c a wsi line st
         else if q = HG_LOGIN_PASSPHRASE then login_passphrase h c a wsi line st
         else if q = HG_LOGIN_RACE then login_race a wsi line st
         else world a wsi (cstr line) st)"

text \<open>The outcome of \<^verbatim>\<open>malloc\<close> and of \<^verbatim>\<open>lws_write\<close>.\<close>

record ws_io =
  ws_alloc :: bool
  ws_sent :: int

definition hg_ws_write :: "ws_io \<Rightarrow> addr \<Rightarrow> string \<Rightarrow> 'a store_scheme \<Rightarrow> int \<times> 'a store_scheme" where
  "hg_ws_write io wsi data st =
     (if wsi = 0 \<or> data = [] then (-1, st)
      else if \<not> ws_alloc io then (-1, st)
      else if ws_sent io < 0 then (-1, st)
      else if ws_sent io < int (length data) then (1, st\<lparr>writable := writable st @ [wsi]\<rparr>)
      else (0, st))"

definition app_writable :: "ws_io \<Rightarrow> addr \<Rightarrow> addr \<Rightarrow> 'a store_scheme \<Rightarrow> int \<times> 'a store_scheme" where
  "app_writable io a wsi st =
     (let st = (if s_out (sess st a) = [] then st
                else let (rc, st) = hg_ws_write io wsi (s_out (sess st a)) st
                  in if rc \<noteq> 0 then st else upd_sess a (\<lambda>s. s\<lparr>s_out := []\<rparr>) st)
      in (if s_close (sess st a) = 0 then 0 else -1, st))"

definition app_closed ::
  "('j, 'w) host \<Rightarrow> call \<Rightarrow> addr \<Rightarrow> ('w, 'b) node_scheme \<Rightarrow> ('w, 'b) node_scheme" where
  "app_closed h c a st =
     (let st = (if s_state (sess st a) = HG_LOGIN_PLAY
                then hg_session_unregister a (store_save h c a (commit_identity h a st)) else st)
      in upd_sess a (\<lambda>s. s\<lparr>s_out := []\<rparr>) st)"

datatype event = Connected | Receive string | Writable ws_io | Closed | Unknown

fun hg_app_callback ::
  "('j, 'w) host \<Rightarrow> ('w, 'b) command \<Rightarrow> call \<Rightarrow> addr \<Rightarrow> event \<Rightarrow> addr \<Rightarrow> ('w, 'b) node_scheme \<Rightarrow> int \<times> ('w, 'b) node_scheme"
  where
  "hg_app_callback h world c wsi Connected a st = (0, app_connected a wsi st)"
| "hg_app_callback h world c wsi (Receive input) a st = (0, app_receive h world c a wsi input st)"
| "hg_app_callback h world c wsi (Writable io) a st = app_writable io a wsi st"
| "hg_app_callback h world c wsi Closed a st = (0, app_closed h c a st)"
| "hg_app_callback h world c wsi Unknown a st = (0, st)"

end
