(* ===== verification/Gate.thy ===== *)
theory Gate
  imports Login
begin

text \<open>
  What the login of \<open>Login\<close> guarantees: who gets into the world and who does not, what a player finds on
  coming back, and two ways around the phrase.
\<close>

section \<open>What the handlers do to the login cells\<close>

definition cred :: "session \<Rightarrow> i64 \<times> string \<times> i64 \<times> string \<times> i64" where
  "cred s = (s_state s, s_name s, s_keeper_authed s, s_secret_hash s, s_pass_mode s)"

lemma cred_core: "cred (core s) = cred s"
  by (simp add: cred_def core_def)

lemma cred_speaks: "speaks st st' \<Longrightarrow> cred (sess st' b) = cred (sess st b)"
  using speaksD(2) cred_core by metis

lemma cred_queue [simp]: "cred (sess (hg_session_queue a wsi d st) b) = cred (sess st b)"
  by (rule cred_speaks) simp

lemma cred_scene [simp]: "cred (sess (hg_emit_scene a wsi st) b) = cred (sess st b)"
  by (rule cred_speaks) simp

lemma cred_register [simp]: "cred (sess (hg_session_register a wsi st) b) = cred (sess st b)"
  by (simp add: hg_session_register_def Let_def cred_def upd_sess_def split: option.split bool.split)

lemma sess_store_save [simp]: "sess (store_save h c a st) = sess st"
  by (simp add: store_save_def)

lemma sess_commit [simp]: "sess (commit_identity h a st) = sess st"
  by (simp add: commit_identity_def)

lemma load_fields_keeps:
  "s_state (load_fields jl j s) = s_state s" "s_name (load_fields jl j s) = s_name s"
  "s_keeper_authed (load_fields jl j s) = s_keeper_authed s" "s_pass_mode (load_fields jl j s) = s_pass_mode s"
  "s_out (load_fields jl j s) = s_out s" "s_wsi (load_fields jl j s) = s_wsi s"
  by (simp_all add: load_fields_def Let_def split: option.split prod.split)

definition same_login :: "session \<Rightarrow> session \<Rightarrow> bool" where
  "same_login s s' \<longleftrightarrow> s_state s' = s_state s \<and> s_name s' = s_name s \<and> s_keeper_authed s' = s_keeper_authed s \<and>
     s_pass_mode s' = s_pass_mode s"

lemma load_record_keeps: "same_login (sess st b) (sess (snd (load_record h c a st)) b)"
  by (auto simp: same_login_def load_record_def hg_store_load_def Let_def load_fields_keeps split: option.split reading.split)

lemma identity_keeps:
  "s_state (identity_apply_to_session i s) = s_state s" "s_name (identity_apply_to_session i s) = s_name s"
  "s_keeper_authed (identity_apply_to_session i s) = s_keeper_authed s"
  "s_pass_mode (identity_apply_to_session i s) = s_pass_mode s"
  "s_secret_hash (identity_apply_to_session i s) = s_secret_hash s"
  by (simp_all add: identity_apply_to_session_def)

lemma load_identity_keeps:
  "same_login (sess st b) (sess (snd (load_identity h a st)) b) \<and>
   s_secret_hash (sess (snd (load_identity h a st)) b) = s_secret_hash (sess st b)"
  by (auto simp: same_login_def load_identity_def hg_grid_load_session_def Let_def identity_keeps split: prod.split option.split)

lemma cred_begin:
  "cred (sess (begin_passphrase a wsi st) b) =
     cred (if b = a then (sess st a)\<lparr>s_state := HG_LOGIN_PASSPHRASE\<rparr> else sess st b)"
  by (simp add: begin_passphrase_def Let_def set_state_def)

lemma cred_eqD:
  assumes "cred s = cred t"
  shows "s_state s = s_state t" "s_name s = s_name t" "s_keeper_authed s = s_keeper_authed t"
    "s_secret_hash s = s_secret_hash t" "s_pass_mode s = s_pass_mode t"
  using assms by (simp_all add: cred_def)

lemmas queue_cells [simp] = cred_eqD [OF cred_queue]
lemmas scene_cells [simp] = cred_eqD [OF cred_scene]
lemmas register_cells [simp] = cred_eqD [OF cred_register]
lemmas begin_cells = cred_eqD [OF cred_begin]

text \<open>A login that keeps the gate: under the name of a keeper it is still at the questions for name and token unless
  the keeper's token was shown, and it does not hold the keeper's mark unless the token was shown.\<close>

definition gate :: "('j, 'w) host \<Rightarrow> bool \<Rightarrow> session \<Rightarrow> bool" where
  "gate h tok s \<longleftrightarrow>
     (hg_is_admin (h_admins h) (Some (s_name s)) \<and> \<not> tok \<longrightarrow> s_state s = HG_LOGIN_NAME \<or> s_state s = HG_LOGIN_TOKEN) \<and>
     (s_keeper_authed s \<noteq> 0 \<longrightarrow> tok)"

definition accepted :: "('j, 'w) host \<Rightarrow> string \<Rightarrow> bool" where
  "accepted h line \<longleftrightarrow> hg_auth_verify_admin_token (h_token h) (Some (cstr line))"

lemma resume_cells:
  "s_name (sess (resume a wsi st) a) = s_name (sess st a)" "s_state (sess (resume a wsi st) a) = HG_LOGIN_PASSPHRASE"
  "s_keeper_authed (sess (resume a wsi st) a) = s_keeper_authed (sess st a)"
  "s_secret_hash (sess (resume a wsi st) a) = s_secret_hash (sess st a)" "s_pass_mode (sess (resume a wsi st) a) = 1"
  by (simp_all add: resume_def begin_cells)

lemma after_check_cells:
  "s_name (sess (after_admin_check h c a wsi st) a) = s_name (sess st a) \<and>
   s_keeper_authed (sess (after_admin_check h c a wsi st) a) = s_keeper_authed (sess st a) \<and>
   s_state (sess (after_admin_check h c a wsi st) a) \<in> {s_state (sess st a), HG_LOGIN_RACE, HG_LOGIN_PASSPHRASE}"
proof -
  obtain rc st1 where r: "load_record h c a st = (rc, st1)" by fastforce
  obtain rd st2 where i: "load_identity h a st1 = (rd, st2)" by fastforce
  have s1: "same_login (sess st a) (sess st1 a)" and s2: "same_login (sess st1 a) (sess st2 a)"
    using load_record_keeps [of st a h c a] load_identity_keeps [of st1 a h a] by (simp_all add: r i)
  then have "same_login (sess st a) (sess st2 a)" by (simp add: same_login_def)
  with s1 show ?thesis
    by (auto simp: after_admin_check_def r i same_login_def resume_cells set_state_def)
qed

lemma gate_name:
  assumes "s_state (sess st a) = HG_LOGIN_NAME" and "gate h tok (sess st a)"
  shows "gate h tok (sess (login_name h c a wsi line st) a) \<and> s_state (sess (login_name h c a wsi line st) a) \<noteq> HG_LOGIN_PLAY"
  using assms after_check_cells [of h c a wsi "upd_sess a (\<lambda>s. s\<lparr>s_name := line\<rparr>) st"]
  by (auto simp: login_name_def Let_def gate_def set_state_def HG_LOGIN_NAME_def HG_LOGIN_PLAY_def
      HG_LOGIN_RACE_def HG_LOGIN_PASSPHRASE_def HG_LOGIN_TOKEN_def)

lemma gate_token:
  assumes "s_state (sess st a) = HG_LOGIN_TOKEN" and "gate h tok (sess st a)"
  shows "gate h (tok \<or> accepted h line) (sess (login_token h c a wsi line st) a) \<and>
    s_state (sess (login_token h c a wsi line st) a) \<noteq> HG_LOGIN_PLAY"
  using assms after_check_cells [of h c a wsi "upd_sess a (\<lambda>s. s\<lparr>s_keeper_authed := 1\<rparr>) st"]
  by (auto simp: login_token_def refuse_def gate_def accepted_def HG_LOGIN_NAME_def HG_LOGIN_PLAY_def
      HG_LOGIN_RACE_def HG_LOGIN_PASSPHRASE_def HG_LOGIN_TOKEN_def)

lemma gate_race:
  assumes "s_state (sess st a) = HG_LOGIN_RACE" and "gate h tok (sess st a)"
  shows "gate h tok (sess (login_race a wsi line st) a) \<and> s_state (sess (login_race a wsi line st) a) \<noteq> HG_LOGIN_PLAY"
  using assms
  by (auto simp: login_race_def gate_def begin_cells HG_LOGIN_NAME_def HG_LOGIN_PLAY_def
      HG_LOGIN_RACE_def HG_LOGIN_PASSPHRASE_def HG_LOGIN_TOKEN_def split: option.split)

lemma enter_cells:
  "s_state (sess (enter_play h c a wsi st) a) = HG_LOGIN_PLAY"
  "s_name (sess (enter_play h c a wsi st) a) = s_name (sess st a)"
  "s_keeper_authed (sess (enter_play h c a wsi st) a) = s_keeper_authed (sess st a)"
  "s_secret_hash (sess (enter_play h c a wsi st) a) = s_secret_hash (sess st a)"
  by (simp_all add: enter_play_def Let_def set_state_def)

text \<open>The phrase that opens the door, for the session as it stands.\<close>

definition opens :: "('j, 'w) host \<Rightarrow> call \<Rightarrow> session \<Rightarrow> string \<Rightarrow> bool" where
  "opens h c s phrase \<longleftrightarrow>
     (if s_secret_hash s = [] then hg_auth_hash_passphrase (h_crypt h) (h_gensalt h) (c_rnd c) (Some phrase) 72 \<noteq> None
      else hg_auth_verify_passphrase (h_crypt h) (Some phrase) (Some (s_secret_hash s)))"

lemma hash_needs_phrase: "\<not> hg_auth_phrase_ok (Some p) \<Longrightarrow> hg_auth_hash_passphrase crypt gensalt rnd (Some p) n = None"
  by (simp add: hg_auth_hash_passphrase_def)

lemma passphrase_cells:
  assumes "s_state (sess st a) = HG_LOGIN_PASSPHRASE"
  shows "s_name (sess (login_passphrase h c a wsi line st) a) = s_name (sess st a) \<and>
    s_keeper_authed (sess (login_passphrase h c a wsi line st) a) = s_keeper_authed (sess st a) \<and>
    (if opens h c (sess st a) (cstr line) then s_state (sess (login_passphrase h c a wsi line st) a) = HG_LOGIN_PLAY
     else s_state (sess (login_passphrase h c a wsi line st) a) = HG_LOGIN_PASSPHRASE \<and>
       s_secret_hash (sess (login_passphrase h c a wsi line st) a) = s_secret_hash (sess st a) \<and>
       s_close (sess (login_passphrase h c a wsi line st) a) = 1)"
  using assms
  by (auto simp: login_passphrase_def opens_def Let_def enter_cells refuse_def hash_needs_phrase split: option.split)

section \<open>The gate\<close>

text \<open>One connection's way through the login: the lines it sent so far, each with the question (the state) it answered,
  and the node it got to, with anything else in between that leaves its login cells alone (the heartbeat, other
  connections).\<close>

inductive attempt :: "('j, 'w) host \<Rightarrow> addr \<Rightarrow> (i64 \<times> string) list \<Rightarrow> ('w, 'b) node_scheme \<Rightarrow> bool" for h a where
  opened: "attempt h a [] (app_connected a wsi st)"
| line: "attempt h a ls st \<Longrightarrow> s_state (sess st a) \<noteq> HG_LOGIN_PLAY \<Longrightarrow>
    attempt h a (ls @ [(s_state (sess st a), trim_line input)]) (app_receive h world c a wsi input st)"
| drained: "attempt h a ls st \<Longrightarrow> attempt h a ls (snd (app_writable io a wsi st))"
| elsewhere: "attempt h a ls st \<Longrightarrow> cred (sess st' a) = cred (sess st a) \<Longrightarrow> attempt h a ls st'"

text \<open>The keeper's token was shown: some line answered the question for it and was accepted.\<close>

definition token_shown :: "('j, 'w) host \<Rightarrow> (i64 \<times> string) list \<Rightarrow> bool" where
  "token_shown h ls \<longleftrightarrow>
     list_ex (\<lambda>(q, l). q = HG_LOGIN_TOKEN \<and> hg_auth_verify_admin_token (h_token h) (Some (cstr l))) ls"

lemma token_shown_snoc [simp]:
  "token_shown h [] = False"
  "token_shown h (ls @ [(q, l)]) = (token_shown h ls \<or> q = HG_LOGIN_TOKEN \<and> accepted h l)"
  by (auto simp: token_shown_def accepted_def)

definition login_state :: "session \<Rightarrow> bool" where
  "login_state s \<longleftrightarrow> s_state s \<in> {HG_LOGIN_NAME, HG_LOGIN_RACE, HG_LOGIN_PLAY, HG_LOGIN_TOKEN, HG_LOGIN_PASSPHRASE}"

lemma gate_cong: "cred s = cred t \<Longrightarrow> gate h tok s = gate h tok t"
  by (simp add: gate_def cred_eqD [of s t])

lemma state_cong: "cred s = cred t \<Longrightarrow> login_state s = login_state t"
  by (simp add: login_state_def cred_eqD [of s t])

lemmas login_states = HG_LOGIN_NAME_def HG_LOGIN_PLAY_def HG_LOGIN_RACE_def HG_LOGIN_PASSPHRASE_def HG_LOGIN_TOKEN_def

lemma writable_cells: "cred (sess (snd (app_writable io a wsi st)) b) = cred (sess st b)"
  by (auto simp: app_writable_def hg_ws_write_def Let_def cred_def)

lemma state_handlers:
  "login_state (sess st a) \<Longrightarrow> login_state (sess (login_name h c a wsi line st) a)"
  "login_state (sess st a) \<Longrightarrow> login_state (sess (login_token h c a wsi line st) a)"
  "login_state (sess st a) \<Longrightarrow> login_state (sess (login_race a wsi line st) a)"
  using after_check_cells [of h c a wsi "upd_sess a (\<lambda>s. s\<lparr>s_name := line\<rparr>) st"]
    after_check_cells [of h c a wsi "upd_sess a (\<lambda>s. s\<lparr>s_keeper_authed := 1\<rparr>) st"]
  by (auto simp: login_name_def login_token_def login_race_def refuse_def Let_def login_state_def set_state_def begin_cells
      split: option.split)

lemma receive_gate:
  assumes "gate h tok (sess st a)" and "login_state (sess st a)" and "s_state (sess st a) \<noteq> HG_LOGIN_PLAY"
  shows "gate h (tok \<or> s_state (sess st a) = HG_LOGIN_TOKEN \<and> accepted h (trim_line input))
        (sess (app_receive h world c a wsi input st) a) \<and> login_state (sess (app_receive h world c a wsi input st) a)"
    and "s_state (sess (app_receive h world c a wsi input st) a) = HG_LOGIN_PLAY \<Longrightarrow>
      s_state (sess st a) = HG_LOGIN_PASSPHRASE \<and> opens h c (sess st a) (cstr (trim_line input))"
proof -
  define st1 where "st1 = upd_sess a (\<lambda>s. s\<lparr>s_wsi := wsi\<rparr>) st"
  define l where "l = trim_line input"
  have c: "s_state (sess st1 a) = s_state (sess st a)" "s_name (sess st1 a) = s_name (sess st a)"
      "s_keeper_authed (sess st1 a) = s_keeper_authed (sess st a)" "s_secret_hash (sess st1 a) = s_secret_hash (sess st a)"
    by (simp_all add: st1_def)
  then have g: "gate h tok (sess st1 a)" "login_state (sess st1 a)" "opens h c (sess st1 a) x = opens h c (sess st a) x" for x
    using assms(1, 2) by (simp_all add: gate_def login_state_def opens_def)
  have r: "app_receive h world c a wsi input st =
      (if s_state (sess st a) = HG_LOGIN_NAME then login_name h c a wsi l st1
       else if s_state (sess st a) = HG_LOGIN_TOKEN then login_token h c a wsi l st1
       else if s_state (sess st a) = HG_LOGIN_PASSPHRASE then login_passphrase h c a wsi l st1
       else if s_state (sess st a) = HG_LOGIN_RACE then login_race a wsi l st1 else world a wsi (cstr l) st1)"
    by (simp add: app_receive_def Let_def st1_def l_def)
  consider "s_state (sess st a) = HG_LOGIN_NAME" | "s_state (sess st a) = HG_LOGIN_TOKEN"
    | "s_state (sess st a) = HG_LOGIN_PASSPHRASE" | "s_state (sess st a) = HG_LOGIN_RACE"
    using assms(2, 3) by (auto simp: login_state_def)
  then have "gate h (tok \<or> s_state (sess st a) = HG_LOGIN_TOKEN \<and> accepted h (trim_line input))
        (sess (app_receive h world c a wsi input st) a) \<and>
      login_state (sess (app_receive h world c a wsi input st) a) \<and>
      (s_state (sess (app_receive h world c a wsi input st) a) = HG_LOGIN_PLAY \<longrightarrow>
       s_state (sess st a) = HG_LOGIN_PASSPHRASE \<and> opens h c (sess st a) (cstr (trim_line input)))"
  proof cases
    case 1
    then show ?thesis using gate_name [of st1 a h tok c wsi l] state_handlers(1) [OF g(2)] c g(1) by (simp add: r login_states)
  next
    case 2
    then show ?thesis using gate_token [of st1 a h tok l c wsi] state_handlers(2) [OF g(2)] c g(1)
      by (simp add: r login_states l_def)
  next
    case 3
    then show ?thesis using passphrase_cells [of st1 a h c wsi l] c g
      by (auto simp: r login_states gate_def login_state_def l_def split: if_splits)
  next
    case 4
    then show ?thesis using gate_race [of st1 a h tok wsi l] g state_handlers(3) [OF g(2)] c
      by (simp add: r login_states)
  qed
  then show "gate h (tok \<or> s_state (sess st a) = HG_LOGIN_TOKEN \<and> accepted h (trim_line input))
        (sess (app_receive h world c a wsi input st) a) \<and> login_state (sess (app_receive h world c a wsi input st) a)"
    and "s_state (sess (app_receive h world c a wsi input st) a) = HG_LOGIN_PLAY \<Longrightarrow>
      s_state (sess st a) = HG_LOGIN_PASSPHRASE \<and> opens h c (sess st a) (cstr (trim_line input))"
    by blast+
qed

lemma attempt_gate: "attempt h a ls st \<Longrightarrow> gate h (token_shown h ls) (sess st a) \<and> login_state (sess st a)"
proof (induction rule: attempt.induct)
  case (opened wsi st)
  have c: "cred (sess (app_connected a wsi st) a) = cred (fresh_session wsi)" by (simp add: app_connected_def)
  show ?case
    unfolding gate_cong [OF c] state_cong [OF c]
    by (simp add: gate_def login_state_def fresh_session_def zero_session_def)
next
  case (line ls st input world c wsi)
  then show ?case using receive_gate(1) [of h "token_shown h ls" st a input world c wsi] by simp
next
  case (drained ls st io wsi)
  then show ?case using gate_cong state_cong writable_cells by metis
next
  case (elsewhere ls st st')
  then show ?case using gate_cong state_cong by metis
qed

text \<open>C1. Nobody enters the world but through the gate.  However a connection got where it is, a line brings it into the
  world only while it was asked for its phrase, and only if that line is a phrase its record accepts (or, for a
  record without one, a phrase that was hashed just then).  And a connection under the name of a keeper is still at
  the questions for name and token, and a connection of any name is without the keeper's mark, unless one of the lines
  it sent answered the question for the token and was the token the node was given.\<close>

theorem login_gate:
  assumes "attempt h a ls st"
  shows "(s_state (sess st a) \<noteq> HG_LOGIN_PLAY \<and> s_state (sess (app_receive h world c a wsi input st) a) = HG_LOGIN_PLAY \<longrightarrow>
      s_state (sess st a) = HG_LOGIN_PASSPHRASE \<and> opens h c (sess st a) (cstr (trim_line input))) \<and>
    (\<not> token_shown h ls \<longrightarrow> s_keeper_authed (sess st a) = 0 \<and>
      (hg_is_admin (h_admins h) (Some (s_name (sess st a))) \<longrightarrow>
        s_state (sess st a) = HG_LOGIN_NAME \<or> s_state (sess st a) = HG_LOGIN_TOKEN))"
proof -
  have g: "gate h (token_shown h ls) (sess st a)" "login_state (sess st a)" using attempt_gate [OF assms] by simp_all
  note receive_gate(2) [OF g, of world c wsi input]
  then show ?thesis using g(1) [unfolded gate_def] by blast
qed

text \<open>C37. A wrong phrase ends nothing by itself: it marks the connection to close, and the connection is closed when its socket
  can next be written.  Until then each further line is checked as well, so that all guesses that arrive together are
  tried, and one right guess after any number of wrong ones opens the world.\<close>

theorem pipelined_guesses:
  assumes "s_state (sess st a) = HG_LOGIN_PASSPHRASE"
    and "\<forall>g \<in> set wrong. \<not> opens h c (sess st a) (cstr (trim_line g))"
    and "opens h c (sess st a) (cstr (trim_line right))"
  shows "s_state (sess (fold (app_receive h world c a wsi) wrong st) a) = HG_LOGIN_PASSPHRASE \<and>
    s_state (sess (fold (app_receive h world c a wsi) (wrong @ [right]) st) a) = HG_LOGIN_PLAY"
proof -
  have recv: "app_receive h world c a wsi g s = login_passphrase h c a wsi (trim_line g) (upd_sess a (\<lambda>s. s\<lparr>s_wsi := wsi\<rparr>) s)"
    if "s_state (sess s a) = HG_LOGIN_PASSPHRASE" for g s
    using that by (simp add: app_receive_def Let_def login_states)
  have same: "opens h c (t\<lparr>s_wsi := wsi\<rparr>) x = opens h c (sess st a) x"
    if "s_secret_hash t = s_secret_hash (sess st a)" for t x
    using that by (simp add: opens_def)
  have "s_state (sess (fold (app_receive h world c a wsi) wrong s) a) = HG_LOGIN_PASSPHRASE \<and>
      s_secret_hash (sess (fold (app_receive h world c a wsi) wrong s) a) = s_secret_hash (sess st a)"
    if "s_state (sess s a) = HG_LOGIN_PASSPHRASE" "s_secret_hash (sess s a) = s_secret_hash (sess st a)" for s
    using assms(2) that
  proof (induction wrong arbitrary: s)
    case (Cons g gs)
    let ?s = "upd_sess a (\<lambda>s. s\<lparr>s_wsi := wsi\<rparr>) s"
    have "\<not> opens h c (sess ?s a) (cstr (trim_line g))" using Cons.prems same by simp
    with passphrase_cells [of ?s a h c wsi "trim_line g"] Cons.prems Cons.IH show ?case by (simp add: recv)
  qed simp
  from this [OF assms(1)] have f: "s_state (sess (fold (app_receive h world c a wsi) wrong st) a) = HG_LOGIN_PASSPHRASE"
      "s_secret_hash (sess (fold (app_receive h world c a wsi) wrong st) a) = s_secret_hash (sess st a)" by simp_all
  let ?s = "fold (app_receive h world c a wsi) wrong st"
  have "opens h c (sess (upd_sess a (\<lambda>s. s\<lparr>s_wsi := wsi\<rparr>) ?s) a) (cstr (trim_line right))"
    using assms(3) same [OF f(2)] by simp
  with passphrase_cells [of "upd_sess a (\<lambda>s. s\<lparr>s_wsi := wsi\<rparr>) ?s" a h c wsi "trim_line right"] f show ?thesis
    by (simp add: recv)
qed

section \<open>Coming back\<close>

text \<open>The session carries everything the record of \<open>s\<close> holds.\<close>

definition restored :: "session \<Rightarrow> session \<Rightarrow> bool" where
  "restored s s' \<longleftrightarrow> restore s s' = s'"

lemma restored_iff:
  "restored s s' \<longleftrightarrow> s_race s' = s_race s \<and> s_faction s' = s_faction s \<and> s_position s' = s_position s \<and>
     s_title s' = s_title s \<and> s_eq_weapon s' = s_eq_weapon s \<and> s_room s' = s_room s \<and> s_hp s' = s_hp s \<and>
     s_max_hp s' = s_max_hp s \<and> s_level s' = s_level s \<and> s_xp s' = s_xp s \<and> s_gold s' = s_gold s \<and>
     s_morality s' = s_morality s \<and> s_addiction s' = s_addiction s \<and> s_ashsworn s' = flag (s_ashsworn s) \<and>
     s_strayed s' = flag (s_strayed s) \<and> s_redeemed s' = flag (s_redeemed s) \<and> s_resisted s' = flag (s_resisted s) \<and>
     s_secret_hash s' = s_secret_hash s \<and> s_inv_count s' = word_of_nat (length (saved_items s)) \<and>
     s_inventory s' = saved_items s @ replicate (16 - length (saved_items s)) []"
  by (cases s') (auto simp: restored_def restore_def)

lemma restored_core: "restored s (core x) = restored s x"
  by (simp add: restored_iff core_def)

lemma restored_cong: "core x = core y \<Longrightarrow> restored s x = restored s y"
  using restored_core by metis

lemma restored_restore: "restored s (restore s r)"
  by (simp add: restored_iff restore_def)

lemma restored_login [simp]:
  "restored s (x\<lparr>s_state := q\<rparr>) = restored s x" "restored s (x\<lparr>s_pass_mode := m\<rparr>) = restored s x"
  "restored s (x\<lparr>s_wsi := w\<rparr>) = restored s x"
  by (simp_all add: restored_iff)

lemma restored_speaks: "speaks st st' \<Longrightarrow> restored s (sess st' b) = restored s (sess st b)"
  using speaksD(2) restored_cong by metis

lemma restored_queue [simp]: "restored s (sess (hg_session_queue a wsi d st) b) = restored s (sess st b)"
  by (rule restored_speaks) simp

lemma restored_scene [simp]: "restored s (sess (hg_emit_scene a wsi st) b) = restored s (sess st b)"
  by (rule restored_speaks) simp

lemma restored_register [simp]: "restored s (sess (hg_session_register a wsi st) b) = restored s (sess st b)"
  by (simp add: hg_session_register_def Let_def upd_sess_def split: option.split bool.split)

lemma restored_enter: "restored s (sess (enter_play h c a wsi st) b) = restored s (sess st b)"
  by (simp add: enter_play_def Let_def set_state_def)

lemma restored_resume: "restored s (sess (resume a wsi st) b) = restored s (sess st b)"
  by (simp add: resume_def begin_passphrase_def Let_def set_state_def)

lemma load_identity_local:
  "\<not> g_remote (n_grid st) \<Longrightarrow> fst (load_identity h a st) = 0 \<and> sess (snd (load_identity h a st)) = sess st \<and>
     n_grid (snd (load_identity h a st)) = n_grid st \<and> n_fs (snd (load_identity h a st)) = n_fs st"
  by (simp add: load_identity_def hg_grid_load_session_def hg_grid_remote_def upd_sess_def)

lemma resume_local:
  assumes "\<not> g_remote (n_grid st)" and "hg_store_load (h_json h) (c_read c) (h_root h) (n_fs st) (sess st a) = (1, r)"
  shows "\<exists>st'. after_admin_check h c a wsi st = resume a wsi st' \<and> sess st' a = r"
proof -
  let ?st = "upd_sess a (\<lambda>_. r) st"
  have l: "load_record h c a st = (1, ?st)" using assms(2) by (simp add: load_record_def)
  have g: "\<not> g_remote (n_grid ?st)" using assms(1) by (simp add: upd_sess_def)
  obtain st2 where i: "load_identity h a ?st = (0, st2)" "sess st2 = sess ?st"
    using load_identity_local [OF g, of h a] by (metis prod.collapse)
  have "after_admin_check h c a wsi st = resume a wsi (commit_identity h a st2)"
    by (simp add: after_admin_check_def l i)
  then show ?thesis using i(2) by (intro exI conjI) (assumption, simp)
qed

lemma more_node:
  assumes "store.more st' = store.more st"
  shows "n_fs st' = n_fs st" "n_grid st' = n_grid (st :: ('w, 'b) node_scheme)"
  using assms by (cases st; cases st'; simp)+

lemma queue_node [simp]:
  "n_fs (hg_session_queue a w d st) = n_fs st" "n_grid (hg_session_queue a w d st) = n_grid st"
  "n_fs (upd_sess a f st) = n_fs st" "n_grid (upd_sess a f st) = n_grid st"
  by (rule more_node; simp)+

lemma unregister_node [simp]:
  "n_fs (hg_session_unregister a st) = n_fs st" "n_grid (hg_session_unregister a st) = n_grid st"
  by (auto simp: hg_session_unregister_def Let_def split: option.split)

lemma commit_local: "\<not> g_remote (n_grid st) \<Longrightarrow> commit_identity h a st = st"
  by (simp add: commit_identity_def with_hub_def hg_grid_commit_session_def)

lemma closed_local:
  assumes "s_state (sess st a) = HG_LOGIN_PLAY" and "\<not> g_remote (n_grid st)"
  shows "n_fs (app_closed h c a st) = snd (hg_store_save (h_json h) (c_write c a) (h_root h) (sess st a) (n_fs st))"
    and "n_grid (app_closed h c a st) = n_grid st"
  using assms by (simp_all add: app_closed_def Let_def commit_local store_save_def)

lemma receive_name:
  assumes "s_state (sess st a) = HG_LOGIN_NAME" and "valid_name (trim_line line)"
    and "\<not> hg_is_admin (h_admins h) (Some (trim_line line))"
  shows "app_receive h world c a w line st =
    after_admin_check h c a w (upd_sess a (\<lambda>s. s\<lparr>s_wsi := w, s_name := trim_line line\<rparr>) st)"
  using assms by (simp add: app_receive_def login_name_def Let_def) (simp add: upd_sess_def)

lemma receive_phrase:
  assumes "s_state (sess st a) = HG_LOGIN_PASSPHRASE" and "s_secret_hash (sess st a) \<noteq> []"
    and "hg_auth_verify_passphrase (h_crypt h) (Some (cstr (trim_line line))) (Some (s_secret_hash (sess st a)))"
  shows "app_receive h world c a w line st = enter_play h c a w (upd_sess a (\<lambda>s. s\<lparr>s_wsi := w\<rparr>) st)"
  using assms by (simp add: app_receive_def login_passphrase_def Let_def login_states)

lemma connected_state: "s_state (sess (app_connected b w st) b) = HG_LOGIN_NAME"
  by (simp add: app_connected_def fresh_session_def)

text \<open>C17. Whoever leaves comes back as they were.  On a node of its own, a player's connection is closed; a new connection (over
  any socket, in the same memory or other) that gives the name, in any letter case, is asked for the phrase, and
  the right phrase brings it into the world with race, allegiance, title, weapon, room, health, all numbers, moral
  marks and items of the player who left.  This is for a save that goes well: in one write, or in several that leave
  \<^verbatim>\<open>rsi\<close> alone.\<close>

theorem leave_and_return:
  assumes "s_state (sess st a) = HG_LOGIN_PLAY" and "record_ok (sess st a)" and "s_secret_hash (sess st a) \<noteq> []"
    and "json_faithful (h_json h)" and "writes_well (c_write c1 a)" and "reads_well (c_read c2)"
    and "jl_print (h_json h) (PObj (save_object (sess st a))) = Some t" and "2 \<le> length t" and "length t \<le> 65536"
    and "character_path (h_root h) 640 (s_name (sess st a)) \<noteq> None" and "\<not> g_remote (n_grid st)"
    and "case_eq (trim_line name) (s_name (sess st a))" and "valid_name (trim_line name)"
    and "\<not> hg_is_admin (h_admins h) (Some (trim_line name))"
    and "hg_auth_verify_passphrase (h_crypt h) (Some (cstr (trim_line phrase))) (Some (s_secret_hash (sess st a)))"
  shows "let st2 = app_receive h world c2 b w name (app_connected b w (app_closed h c1 a st));
      st3 = app_receive h world c3 b w phrase st2
    in s_state (sess st2 b) = HG_LOGIN_PASSPHRASE \<and> s_state (sess st3 b) = HG_LOGIN_PLAY \<and>
      restored (sess st a) (sess st3 b) \<and> s_name (sess st3 b) = trim_line name"
proof -
  let ?s = "sess st a" and ?n = "trim_line name"
  define st1 where "st1 = upd_sess b (\<lambda>s. s\<lparr>s_wsi := w, s_name := ?n\<rparr>) (app_connected b w (app_closed h c1 a st))"
  have fs: "n_fs st1 = snd (hg_store_save (h_json h) (c_write c1 a) (h_root h) ?s (n_fs st))"
      "\<not> g_remote (n_grid st1)" and n: "s_name (sess st1 b) = ?n"
    using assms(1, 11) by (simp_all add: st1_def app_connected_def closed_local)
  have "hg_store_load (h_json h) (c_read c2) (h_root h) (n_fs st1) (sess st1 b) = (1, restore ?s (sess st1 b))"
    using store_roundtrip_core [OF assms(4, 5, 6, 2, 7, 8, 9, 10), of "sess st1 b" "n_fs st"] assms(12) n fs(1)
    by (simp add: Let_def split: prod.splits)
  from resume_local [OF fs(2) this] obtain st'
    where r: "after_admin_check h c2 b w st1 = resume b w st'" "sess st' b = restore ?s (sess st1 b)" by blast
  define st2 where "st2 = app_receive h world c2 b w name (app_connected b w (app_closed h c1 a st))"
  have st2: "st2 = resume b w st'"
    unfolding st2_def receive_name [OF connected_state assms(13, 14)] st1_def [symmetric] by (rule r(1))
  have c2: "s_state (sess st2 b) = HG_LOGIN_PASSPHRASE" "s_secret_hash (sess st2 b) = s_secret_hash ?s"
      "s_name (sess st2 b) = ?n" "restored ?s (sess st2 b)"
    using n by (simp_all add: st2 resume_cells restored_resume restored_restore r(2)) (simp_all add: restore_def)
  have st3: "app_receive h world c3 b w phrase st2 = enter_play h c3 b w (upd_sess b (\<lambda>s. s\<lparr>s_wsi := w\<rparr>) st2)"
    using c2 assms(3, 15) by (intro receive_phrase) simp_all
  show ?thesis
    using c2 by (simp add: st2_def [symmetric] st3 Let_def enter_cells restored_enter)
qed

section \<open>A record that cannot be opened\<close>

lemma save_object_core: "save_object (core s) = save_object s"
  by (simp add: save_object_def saved_items_def core_def)

lemma save_object_speaks: "speaks st st' \<Longrightarrow> save_object (sess st' b) = save_object (sess st b)"
  using speaksD(2) save_object_core by metis

lemma save_object_scene [simp]: "save_object (sess (hg_emit_scene a wsi st) b) = save_object (sess st b)"
  by (rule save_object_speaks) simp

lemma save_object_queue [simp]: "save_object (sess (hg_session_queue a wsi d st) b) = save_object (sess st b)"
  by (rule save_object_speaks) simp

lemma save_object_cells [simp]:
  "save_object (s\<lparr>s_state := q\<rparr>) = save_object s" "save_object (s\<lparr>s_wsi := w\<rparr>) = save_object s"
  by (simp_all add: save_object_def saved_items_def)

lemma save_object_register [simp]: "save_object (sess (hg_session_register a wsi st) b) = save_object (sess st b)"
  by (simp add: hg_session_register_def Let_def upd_sess_def split: option.split bool.split)

lemma node_scene [simp]: "n_fs (hg_emit_scene a wsi st) = n_fs st" "n_grid (hg_emit_scene a wsi st) = n_grid st"
  by (rule more_node, rule speaksD(1), simp)+

lemma node_register [simp]: "n_fs (hg_session_register a wsi st) = n_fs st"
  by (simp add: hg_session_register_def Let_def split: option.split bool.split)

lemma enter_saves:
  fixes st :: "('w, 'b) node_scheme"
  assumes "\<not> g_remote (n_grid st)" and "writes_well (c_write c a)" and "character_path (h_root h) 640 (s_name (sess st a)) = Some p"
    and "jl_print (h_json h) (PObj (save_object (sess st a))) = Some t"
  shows "files (n_fs (enter_play h c a wsi st)) p = Some t"
    and "save_object (sess (enter_play h c a wsi st) a) = save_object (sess st a)"
proof -
  have sv: "n_fs (store_save h c a st') = (n_fs st)\<lparr>files := (files (n_fs st))(p @ ''.tmp'' := None, p := Some t)\<rparr>"
    if "n_fs st' = n_fs st" "sess st' a = sess st a \<or> sess st' a = (sess st a)\<lparr>s_state := HG_LOGIN_PLAY\<rparr>"
    for st' :: "('w, 'b) node_scheme"
    using save_writes [OF assms(2), of "h_root h" "sess st' a" p "h_json h" t "n_fs st"] assms(3, 4) that
    by (auto simp: store_save_def)
  have g: "\<not> g_remote (n_grid (store_save h c a st))" using assms(1) by (simp add: store_save_def)
  have saved: "n_fs (store_save h c a st) = (n_fs st)\<lparr>files := (files (n_fs st))(p @ ''.tmp'' := None, p := Some t)\<rparr>"
      "n_fs (store_save h c a (set_state HG_LOGIN_PLAY a st)) = (n_fs st)\<lparr>files := (files (n_fs st))(p @ ''.tmp'' := None, p := Some t)\<rparr>"
    by (rule sv; simp add: set_state_def)+
  show "files (n_fs (enter_play h c a wsi st)) p = Some t"
    using saved by (simp add: enter_play_def Let_def commit_local [OF g] set_state_def)
  show "save_object (sess (enter_play h c a wsi st) a) = save_object (sess st a)"
    by (simp add: enter_play_def Let_def set_state_def)
qed

lemma receive_race:
  assumes "s_state (sess st a) = HG_LOGIN_RACE" and "race_index (trim_line line) = Some i"
  shows "app_receive h world c a w line st = begin_passphrase a w
    (upd_sess a (\<lambda>s. s\<lparr>s_race := race_table ! i, s_pass_mode := 0\<rparr>) (upd_sess a (\<lambda>s. s\<lparr>s_wsi := w\<rparr>) st))"
  using assms by (simp add: app_receive_def login_race_def Let_def login_states)

lemma receive_new_phrase:
  assumes "s_state (sess st a) = HG_LOGIN_PASSPHRASE" and "s_secret_hash (sess st a) = []"
    and "hg_auth_hash_passphrase (h_crypt h) (h_gensalt h) (c_rnd c) (Some (cstr (trim_line line))) 72 = Some new"
  shows "app_receive h world c a w line st =
    enter_play h c a w (upd_sess a (\<lambda>s. s\<lparr>s_secret_hash := new\<rparr>) (upd_sess a (\<lambda>s. s\<lparr>s_wsi := w\<rparr>) st))"
  using assms hash_needs_phrase [of "cstr (trim_line line)"]
  by (auto simp: app_receive_def login_passphrase_def Let_def login_states)

lemma missing_local:
  assumes "\<not> g_remote (n_grid st)" and "hg_store_load (h_json h) (c_read c) (h_root h) (n_fs st) (sess st a) = (0, sess st a)"
  shows "\<exists>st'. after_admin_check h c a wsi st = hg_session_queue a wsi hg_race_menu (set_state HG_LOGIN_RACE a st') \<and>
     sess st' = sess st \<and> n_grid st' = n_grid st \<and> n_fs st' = n_fs st"
proof -
  let ?st = "upd_sess a (\<lambda>_. sess st a) st"
  have s: "sess ?st = sess st" by auto
  have l: "load_record h c a st = (0, ?st)" using assms(2) by (simp add: load_record_def)
  have g: "\<not> g_remote (n_grid ?st)" using assms(1) by simp
  obtain st2 where i: "load_identity h a ?st = (0, st2)" "sess st2 = sess ?st" "n_grid st2 = n_grid ?st" "n_fs st2 = n_fs ?st"
    using load_identity_local [OF g, of h a] by (metis prod.collapse)
  then show ?thesis
    by (intro exI [of _ st2]) (simp add: after_admin_check_def l s del: sess_upd_sess)
qed

text \<open>C35. A record that cannot be opened is lost, and its name is anybody's: \<^verbatim>\<open>hg_store_load\<close> takes every failure of
  \<^verbatim>\<open>fopen\<close> (too many open files, say) for a name without a record.  The connection is asked for a
  race and for a new phrase, not for the phrase of the record; and whatever the file held, it is then replaced by
  the newcomer's record, with the newcomer's phrase, when the save goes well (in one write, or in several that leave
  \<^verbatim>\<open>rsi\<close> alone).\<close>

theorem open_failure_takes_over:
  assumes "valid_name (trim_line name)" and "\<not> hg_is_admin (h_admins h) (Some (trim_line name))"
    and "\<not> g_remote (n_grid st)" and "character_path (h_root h) 640 (trim_line name) = Some p"
    and "\<not> r_open (c_read c1)" and "race_index (trim_line race) = Some i"
    and "hg_auth_hash_passphrase (h_crypt h) (h_gensalt h) (c_rnd c3) (Some (cstr (trim_line phrase))) 72 = Some new"
    and "writes_well (c_write c3 b)" and "\<forall>v. jl_print (h_json h) v \<noteq> None"
  shows "let st1 = app_receive h world c1 b w name (app_connected b w st);
      st2 = app_receive h world c2 b w race st1; st3 = app_receive h world c3 b w phrase st2
    in s_state (sess st1 b) = HG_LOGIN_RACE \<and> s_state (sess st3 b) = HG_LOGIN_PLAY \<and>
      s_secret_hash (sess st3 b) = new \<and>
      files (n_fs st3) p = jl_print (h_json h) (PObj (save_object (sess st3 b)))"
proof -
  let ?n = "trim_line name"
  define st0 where "st0 = upd_sess b (\<lambda>s. s\<lparr>s_wsi := w, s_name := ?n\<rparr>) (app_connected b w st)"
  have 0: "s_name (sess st0 b) = ?n" "n_fs st0 = n_fs st" "n_grid st0 = n_grid st" "s_secret_hash (sess st0 b) = []"
    by (simp_all add: st0_def app_connected_def fresh_session_def zero_session_def)
  have "hg_store_load (h_json h) (c_read c1) (h_root h) (n_fs st0) (sess st0 b) = (0, sess st0 b)"
    using assms(4, 5) 0 by (simp add: hg_store_load_def read_file_def split: option.split)
  from missing_local [OF _ this] assms(3) 0 obtain sa where
    sa: "after_admin_check h c1 b w st0 = hg_session_queue b w hg_race_menu (set_state HG_LOGIN_RACE b sa)"
      "sess sa = sess st0" "n_grid sa = n_grid st" "n_fs sa = n_fs st" by auto
  define st1 where "st1 = app_receive h world c1 b w name (app_connected b w st)"
  have "st1 = hg_session_queue b w hg_race_menu (set_state HG_LOGIN_RACE b sa)"
    unfolding st1_def receive_name [OF connected_state assms(1, 2)] st0_def [symmetric] by (rule sa(1))
  then have 1: "s_state (sess st1 b) = HG_LOGIN_RACE" "s_name (sess st1 b) = ?n" "s_secret_hash (sess st1 b) = []"
      "n_grid st1 = n_grid st"
    using sa 0 by (simp_all add: set_state_def)
  define st2 where "st2 = app_receive h world c2 b w race st1"
  have 2: "s_state (sess st2 b) = HG_LOGIN_PASSPHRASE" "s_name (sess st2 b) = ?n" "s_secret_hash (sess st2 b) = []"
      "n_grid st2 = n_grid st"
    using 1 by (simp_all add: st2_def receive_race [OF 1(1) assms(6)] begin_cells)
      (simp add: begin_passphrase_def Let_def set_state_def)
  define sb where "sb = upd_sess b (\<lambda>s. s\<lparr>s_secret_hash := new\<rparr>) (upd_sess b (\<lambda>s. s\<lparr>s_wsi := w\<rparr>) st2)"
  have sb: "s_name (sess sb b) = ?n" "s_secret_hash (sess sb b) = new" "\<not> g_remote (n_grid sb)"
    using 2 assms(3) by (simp_all add: sb_def)
  have st3: "app_receive h world c3 b w phrase st2 = enter_play h c3 b w sb"
    unfolding sb_def by (rule receive_new_phrase [OF 2(1, 3) assms(7)])
  obtain t where t: "jl_print (h_json h) (PObj (save_object (sess sb b))) = Some t" using assms(9) by blast
  have "files (n_fs (enter_play h c3 b w sb)) p = Some t"
      "save_object (sess (enter_play h c3 b w sb) b) = save_object (sess sb b)"
    using enter_saves [OF sb(3) assms(8) _ t] assms(4) sb(1) by simp_all
  then show ?thesis
    using 1 sb t by (simp add: st1_def [symmetric] st2_def [symmetric] st3 Let_def enter_cells)
qed

text \<open>Who a character is, in a session and in a row of the hub.\<close>

definition identity_of :: "session \<Rightarrow> (i64 \<times> i64 \<times> i64 \<times> i64) \<times> (string \<times> string \<times> string) \<times> bool" where
  "identity_of s = ((s_level s, s_xp s, s_gold s, s_morality s), (s_faction s, s_title s, s_race s), s_ashsworn s \<noteq> 0)"

definition row_identity :: "character_row \<Rightarrow> (i64 \<times> i64 \<times> i64 \<times> i64) \<times> (string \<times> string \<times> string) \<times> bool" where
  "row_identity r = ((cr_level r, cr_xp r, cr_gold r, cr_morality r), (cr_faction r, cr_title r, cr_race r), cr_ashsworn r)"

lemma identity_core: "identity_of (core s) = identity_of s"
  by (simp add: identity_of_def core_def)

lemma identity_speaks: "speaks st st' \<Longrightarrow> identity_of (sess st' b) = identity_of (sess st b)"
  using speaksD(2) identity_core by metis

lemma identity_queue [simp]: "identity_of (sess (hg_session_queue a wsi d st) b) = identity_of (sess st b)"
  by (rule identity_speaks) simp

lemma identity_scene [simp]: "identity_of (sess (hg_emit_scene a wsi st) b) = identity_of (sess st b)"
  by (rule identity_speaks) simp

lemma identity_register [simp]: "identity_of (sess (hg_session_register a wsi st) b) = identity_of (sess st b)"
  by (simp add: hg_session_register_def Let_def upd_sess_def identity_of_def split: option.split bool.split)

lemma identity_login [simp]:
  "identity_of (s\<lparr>s_state := q\<rparr>) = identity_of s" "identity_of (s\<lparr>s_wsi := w\<rparr>) = identity_of s"
  "identity_of (s\<lparr>s_pass_mode := m\<rparr>) = identity_of s" "identity_of (s\<lparr>s_secret_hash := t\<rparr>) = identity_of s"
  by (simp_all add: identity_of_def)

lemma identity_resume: "identity_of (sess (resume a wsi st) a) = identity_of (sess st a)"
  by (simp add: resume_def begin_passphrase_def Let_def set_state_def)

lemma identity_enter: "identity_of (sess (enter_play h c a wsi st) a) = identity_of (sess st a)"
  by (simp add: enter_play_def Let_def set_state_def)

text \<open>C36. A character the hub knows belongs to whoever names it first on a node without its record: the name is enough to be given
  the hub's level, experience, gold, standing (morality, allegiance, title and ash mark) and race, and any phrase of eight
  bytes or more opens the world with them, as the hub holds no proof and none is asked for.\<close>

theorem hub_identity_unproved:
  assumes "valid_name (trim_line name)" and "\<not> hg_is_admin (h_admins h) (Some (trim_line name))"
    and "g_remote (n_grid st)" and "character_path (h_root h) 640 (trim_line name) = Some p" and "files (n_fs st) p = None"
    and "hg_grid_fetch_character (h_env h) (Some (trim_line name)) (n_grid st) = ((rc, r), g)" and "0 \<le> rc" and "cr_race r \<noteq> []"
    and "hg_auth_hash_passphrase (h_crypt h) (h_gensalt h) (c_rnd c2) (Some (cstr (trim_line phrase))) 72 = Some new"
  shows "let st1 = app_receive h world c1 b w name (app_connected b w st); st2 = app_receive h world c2 b w phrase st1
    in s_state (sess st1 b) = HG_LOGIN_PASSPHRASE \<and> s_state (sess st2 b) = HG_LOGIN_PLAY \<and> s_name (sess st2 b) = trim_line name \<and>
      identity_of (sess st1 b) = row_identity r \<and> identity_of (sess st2 b) = row_identity r"
proof -
  let ?n = "trim_line name"
  define st0 where "st0 = upd_sess b (\<lambda>s. s\<lparr>s_wsi := w, s_name := ?n\<rparr>) (app_connected b w st)"
  have 0: "s_name (sess st0 b) = ?n" "n_fs st0 = n_fs st" "n_grid st0 = n_grid st" "s_secret_hash (sess st0 b) = []"
    by (simp_all add: st0_def app_connected_def fresh_session_def zero_session_def)
  let ?st = "upd_sess b (\<lambda>_. sess st0 b) st0" and ?s = "identity_apply_to_session (identity_merge_hub r (identity_load_local (sess st0 b))) (sess st0 b)"
  have l: "load_record h c1 b st0 = (0, ?st)"
    using assms(4, 5) 0 by (simp add: load_record_def hg_store_load_def read_file_def)
  have "?n \<noteq> []" using assms(1) by (auto simp: valid_name_def)
  then have i: "load_identity h b ?st = (1, upd_sess b (\<lambda>_. ?s) (?st\<lparr>n_grid := g\<rparr>))"
    using assms(3, 6-8) 0 by (simp add: load_identity_def hg_grid_load_session_def hg_grid_remote_def)
  define st1 where "st1 = app_receive h world c1 b w name (app_connected b w st)"
  have st1: "st1 = resume b w (store_save h c1 b (upd_sess b (\<lambda>_. ?s) (?st\<lparr>n_grid := g\<rparr>)))"
    unfolding st1_def receive_name [OF connected_state assms(1, 2)] st0_def [symmetric]
    by (simp add: after_admin_check_def l i)
  have 1: "s_state (sess st1 b) = HG_LOGIN_PASSPHRASE" "s_secret_hash (sess st1 b) = []" "s_name (sess st1 b) = ?n"
    using 0 by (simp_all add: st1 resume_cells identity_keeps)
  have row: "row_cells_ok r" using fetched_row_ok [of "h_env h" "Some ?n" "n_grid st"] assms(6) by simp
  have fresh: "s_faction (sess st0 b) = ''none''" "s_title (sess st0 b) = []"
    by (simp_all add: st0_def app_connected_def fresh_session_def zero_session_def)
  have "identity_of (sess st1 b) = identity_of ?s" by (simp add: st1 identity_resume)
  also have "\<dots> = row_identity r"
    using row fresh by (simp add: identity_of_def row_identity_def identity_apply_to_session_def identity_merge_hub_def
        identity_load_local_def Let_def row_cells_ok_def copy_cap_id)
  finally have ident: "identity_of (sess st1 b) = row_identity r" .
  have "app_receive h world c2 b w phrase st1 =
      enter_play h c2 b w (upd_sess b (\<lambda>s. s\<lparr>s_secret_hash := new\<rparr>) (upd_sess b (\<lambda>s. s\<lparr>s_wsi := w\<rparr>) st1))"
    by (rule receive_new_phrase [OF 1(1, 2) assms(9)])
  then show ?thesis
    using 1 ident by (simp add: st1_def [symmetric] Let_def enter_cells identity_enter)
qed

section \<open>A gate\<close>

definition gate_host :: "(jval, unit) host" where
  "gate_host = \<lparr>h_env = answers (render elf_reply), h_json = plain_json, h_crypt = plain_crypt,
     h_gensalt = (\<lambda>_ _ _ _. Some ''$2b$10$''), h_root = ''data/characters'', h_admins = None, h_token = Some ''ash''\<rparr>"

definition good_call :: call where
  "good_call = \<lparr>c_now = 1000, c_read = \<lparr>r_open = True, r_seek = True, r_alloc = True, r_got = 70000\<rparr>,
     c_write = (\<lambda>_. good_writes),
     c_rnd = Some []\<rparr>"

definition no_files :: call where
  "no_files = good_call\<lparr>c_read := \<lparr>r_open = False, r_seek = True, r_alloc = True, r_got = 0\<rparr>\<rparr>"

definition secret :: string where
  "secret = ''$2b$10$open sesame'' @ replicate 42 (CHR ''x'')"

definition home_node :: "session \<Rightarrow> unit node" where
  "home_node s = rat_cellar\<lparr>n_grid := (remote_grid ())\<lparr>g_remote := False\<rparr>, sess := (\<lambda>_. zero_session)(7 := s)\<rparr>"

lemma trim_words [simp]:
  "trim_line ''mira'' = ''mira''" "trim_line ''open sesame'' = ''open sesame''" "trim_line ''sesame open'' = ''sesame open''"
  "trim_line ''2'' = ''2''" "trim_line ''skyphusion'' = ''skyphusion''"
  by (simp_all add: trim_line_def tail_blank_def head_blank_def)

lemma nul_free_secret: "nul_free secret"
  by (simp add: secret_def)

lemma secret_opens:
  "hg_auth_verify_passphrase plain_crypt (Some ''open sesame'') (Some secret)"
  "\<not> hg_auth_verify_passphrase plain_crypt (Some ''sesame open'') (Some secret)"
  unfolding passphrase_accepted_aux [OF nul_free_secret] plain_crypt_Some by (simp_all add: secret_def)

lemma mira_passes:
  "valid_name ''mira''" "\<not> hg_is_admin (h_admins gate_host) (Some ''mira'')"
  "character_path (h_root gate_host) 640 ''mira'' = Some ''data/characters/mira.json''"
  by code_simp+

lemma mira_hash:
  "hg_auth_hash_passphrase (h_crypt gate_host) (h_gensalt gate_host) (c_rnd good_call) (Some ''open sesame'') 72 = Some secret"
  by (simp add: hg_auth_hash_passphrase_def hg_auth_phrase_ok_def make_bcrypt_salt_def or_default_def crypt_failed_def
      plain_crypt_def gate_host_def good_call_def secret_def)

definition knocking :: session where
  "knocking = veteran\<lparr>s_state := HG_LOGIN_PASSPHRASE, s_secret_hash := secret\<rparr>"

lemma cstr_words [simp]: "cstr ''open sesame'' = ''open sesame''" "cstr ''sesame open'' = ''sesame open''"
  by (simp_all add: cstr_def)

lemma gate_cells: "h_crypt gate_host = plain_crypt" "h_json gate_host = plain_json" "h_env gate_host = answers (render elf_reply)"
  by (simp_all add: gate_host_def)

theorem pipelined_guesses_witness:
  "s_state (sess (fold (app_receive gate_host (\<lambda>_ _ _ st. st) good_call 7 3) [''sesame open'', ''open sesame''] (home_node knocking)) 7)
     = HG_LOGIN_PLAY"
proof -
  have "sess (home_node knocking) 7 = knocking" by (simp add: home_node_def)
  moreover have "s_secret_hash knocking = secret" "secret \<noteq> []" by (simp_all add: knocking_def secret_def)
  ultimately have "opens gate_host good_call (sess (home_node knocking) 7) ''open sesame''"
      "\<not> opens gate_host good_call (sess (home_node knocking) 7) ''sesame open''"
      "s_state (sess (home_node knocking) 7) = HG_LOGIN_PASSPHRASE"
    using secret_opens by (simp_all add: opens_def gate_cells) (simp add: knocking_def)
  then show ?thesis
    using pipelined_guesses [of "home_node knocking" 7 "[''sesame open'']" gate_host good_call "''open sesame''" "\<lambda>_ _ _ st. st" 3]
    by simp
qed

text \<open>A visitor gives the keeper's name and a wrong token.\<close>

theorem login_gate_witness:
  "let st1 = app_receive gate_host (\<lambda>_ _ _ st. st) good_call 7 3 ''skyphusion'' (app_connected 7 3 rat_cellar);
       st2 = app_receive gate_host (\<lambda>_ _ _ st. st) good_call 7 3 ''open sesame'' st1
   in s_name (sess st2 7) = ''skyphusion'' \<and> s_keeper_authed (sess st2 7) = 0 \<and>
      (s_state (sess st2 7) = HG_LOGIN_NAME \<or> s_state (sess st2 7) = HG_LOGIN_TOKEN)"
proof -
  let ?world = "\<lambda>_ _ _ st. st"
  define st1 where "st1 = app_receive gate_host ?world good_call 7 3 ''skyphusion'' (app_connected 7 3 rat_cellar)"
  define st2 where "st2 = app_receive gate_host ?world good_call 7 3 ''open sesame'' st1"
  have admin: "hg_is_admin (h_admins gate_host) (Some ''skyphusion'')" "valid_name ''skyphusion''" by code_simp+
  have no: "\<not> hg_auth_verify_admin_token (h_token gate_host) (Some ''open sesame'')" by code_simp
  have 1: "s_state (sess st1 7) = HG_LOGIN_TOKEN" "s_name (sess st1 7) = ''skyphusion''"
    using admin by (simp_all add: st1_def app_receive_def Let_def login_name_def connected_state set_state_def)
  then have 2: "s_name (sess st2 7) = ''skyphusion''"
    using no by (simp add: st2_def app_receive_def Let_def login_states login_token_def refuse_def)
  have "attempt gate_host 7 [] (app_connected 7 3 rat_cellar)" by (rule attempt.opened)
  from attempt.line [OF this, of "''skyphusion''" ?world good_call 3]
  have "attempt gate_host 7 [(HG_LOGIN_NAME, ''skyphusion'')] st1"
    by (simp add: st1_def connected_state) (simp add: login_states)
  from attempt.line [OF this, of "''open sesame''" ?world good_call 3]
  have "attempt gate_host 7 [(HG_LOGIN_NAME, ''skyphusion''), (HG_LOGIN_TOKEN, ''open sesame'')] st2"
    using 1 by (simp add: st2_def) (simp add: login_states)
  from login_gate [OF this, of ?world good_call 3 "[]"] show ?thesis
    using 2 admin no by (simp add: token_shown_def login_states st1_def [symmetric] st2_def [symmetric] Let_def)
qed

theorem leave_and_return_witness:
  "restored (veteran\<lparr>s_state := HG_LOGIN_PLAY, s_secret_hash := secret\<rparr>)
     (sess (app_receive gate_host (\<lambda>_ _ _ st. st) good_call 8 5 ''open sesame''
       (app_receive gate_host (\<lambda>_ _ _ st. st) good_call 8 5 ''mira''
         (app_connected 8 5 (app_closed gate_host good_call 7
           (home_node (veteran\<lparr>s_state := HG_LOGIN_PLAY, s_secret_hash := secret\<rparr>)))))) 8)"
proof -
  define s where "s = veteran\<lparr>s_state := HG_LOGIN_PLAY, s_secret_hash := secret\<rparr>"
  have st: "sess (home_node s) 7 = s" "\<not> g_remote (n_grid (home_node s))" by (simp_all add: home_node_def)
  have s: "s_state s = HG_LOGIN_PLAY" "s_secret_hash s = secret" "s_name s = ''Mira''" "secret \<noteq> []" "cell_ok 72 secret"
    by (simp_all add: s_def veteran_def secret_def cell_ok_def)
  have "record_ok veteran" by code_simp
  then have ok: "record_ok s" using s(5) by (simp add: s_def record_ok_def cells_ok_def)
  define vs where "vs = save_object s"
  have print: "jl_print (h_json gate_host) (PObj (save_object s)) = Some (render (plain (PObj vs)))"
    by (simp add: gate_cells plain_json_def vs_def)
  have "length (render (plain (PObj vs))) = 349"
    unfolding vs_def save_object_def saved_items_def s_def veteran_def zero_session_def secret_def
    by (simp add: jquote_def commas_def json_esc_def esc_char_def esc_rep_def int_dec_def nat_dec.simps fmt_bool_def)
  then have len: "2 \<le> length (render (plain (PObj vs)))" "length (render (plain (PObj vs))) \<le> 65536" by simp_all
  have path: "character_path (h_root gate_host) 640 (s_name s) \<noteq> None" unfolding s(3) by code_simp
  have name: "case_eq (trim_line ''mira'') (s_name s)" unfolding s(3) trim_words by code_simp
  have io: "writes_well (c_write good_call 7)" "reads_well (c_read good_call)"
    using good_writes_well by (simp_all add: good_call_def reads_well_def)
  have home: "let st2 = app_receive gate_host (\<lambda>_ _ _ st. st) good_call 8 5 ''mira'' (app_connected 8 5 (app_closed gate_host good_call 7 (home_node s)));
      st3 = app_receive gate_host (\<lambda>_ _ _ st. st) good_call 8 5 ''open sesame'' st2
    in s_state (sess st2 8) = HG_LOGIN_PASSPHRASE \<and> s_state (sess st3 8) = HG_LOGIN_PLAY \<and>
      restored (sess (home_node s) 7) (sess st3 8) \<and> s_name (sess st3 8) = trim_line ''mira''"
    by (rule leave_and_return [where t = "render (plain (PObj vs))"], unfold st(1))
       (use s ok print len path name io st(2) mira_passes secret_opens plain_json_faithful in \<open>simp_all add: gate_cells\<close>)
  then show ?thesis by (simp add: Let_def st(1) s_def [symmetric])
qed

text \<open>Mira's record is on the disk and cannot be opened; afterwards it is the newcomer's.\<close>

theorem open_failure_takes_over_witness:
  "s_state (sess (app_receive gate_host (\<lambda>_ _ _ st. st) good_call 8 5 ''open sesame''
     (app_receive gate_host (\<lambda>_ _ _ st. st) good_call 8 5 ''2''
       (app_receive gate_host (\<lambda>_ _ _ st. st) no_files 8 5 ''mira''
         (app_connected 8 5 ((home_node veteran)\<lparr>n_fs := \<lparr>files = (\<lambda>_. Some ''the record of Mira'')\<rparr>\<rparr>))))) 8) = HG_LOGIN_PLAY"
proof -
  let ?st = "(home_node veteran)\<lparr>n_fs := \<lparr>files = (\<lambda>_. Some ''the record of Mira'')\<rparr>\<rparr>"
  have r: "race_index (trim_line ''2'') = Some 1" by (simp add: race_index_def)
  have g: "\<not> g_remote (n_grid ?st)" by (simp add: home_node_def)
  have io: "\<not> r_open (c_read no_files)" "writes_well (c_write good_call 8)" "\<forall>v. jl_print (h_json gate_host) v \<noteq> None"
    using good_writes_well by (simp_all add: no_files_def good_call_def gate_cells plain_json_def)
  have "let st1 = app_receive gate_host (\<lambda>_ _ _ st. st) no_files 8 5 ''mira'' (app_connected 8 5 ?st);
      st2 = app_receive gate_host (\<lambda>_ _ _ st. st) good_call 8 5 ''2'' st1;
      st3 = app_receive gate_host (\<lambda>_ _ _ st. st) good_call 8 5 ''open sesame'' st2
    in s_state (sess st1 8) = HG_LOGIN_RACE \<and> s_state (sess st3 8) = HG_LOGIN_PLAY \<and> s_secret_hash (sess st3 8) = secret \<and>
      files (n_fs st3) ''data/characters/mira.json'' = jl_print (h_json gate_host) (PObj (save_object (sess st3 8)))"
    by (rule open_failure_takes_over [OF _ _ g _ io(1) r _ io(2, 3)]) (simp_all add: mira_passes mira_hash)
  then show ?thesis by (simp add: Let_def)
qed

theorem hub_identity_unproved_witness:
  "let s = sess (app_receive gate_host (\<lambda>_ _ _ st. st) good_call 8 5 ''open sesame''
     (app_receive gate_host (\<lambda>_ _ _ st. st) good_call 8 5 ''mira'' (app_connected 8 5 rat_cellar))) 8
   in s_state s = HG_LOGIN_PLAY \<and> identity_of s = ((4, 0, 20, 0), (''front'', ''Returned'', ''elf''), True)"
proof -
  let ?c = "\<lparr>cr_level = 4, cr_xp = 0, cr_gold = 20, cr_faction = ''front'', cr_morality = 0, cr_title = ''Returned'',
    cr_race = ''elf'', cr_ashsworn = True, cr_present = True\<rparr>"
  have grid: "n_grid rat_cellar = remote_grid ()" "g_remote (remote_grid ())" "files (n_fs rat_cellar) p = None" for p
    by (simp_all add: rat_cellar_def remote_grid_def)
  have "fst (hg_grid_fetch_character (h_env gate_host) (Some ''mira'') (n_grid rat_cellar)) = (0, ?c)"
    unfolding gate_cells grid
    by (simp add: hg_grid_fetch_character_def rpc_call_def remote_grid_def answers_def elf_reply_def json_parse_render
        nul_free_render curl_write_cb_def json_num_def json_str_def safe_copy_def snprintf_def or_default_def plain_json_def
        del: render.simps)
  then obtain g where f: "hg_grid_fetch_character (h_env gate_host) (Some (trim_line ''mira'')) (n_grid rat_cellar) = ((0, ?c), g)"
    unfolding trim_words by (metis prod.collapse)
  have "let st1 = app_receive gate_host (\<lambda>_ _ _ st. st) good_call 8 5 ''mira'' (app_connected 8 5 rat_cellar);
      st2 = app_receive gate_host (\<lambda>_ _ _ st. st) good_call 8 5 ''open sesame'' st1
    in s_state (sess st1 8) = HG_LOGIN_PASSPHRASE \<and> s_state (sess st2 8) = HG_LOGIN_PLAY \<and> s_name (sess st2 8) = trim_line ''mira'' \<and>
      identity_of (sess st1 8) = row_identity ?c \<and> identity_of (sess st2 8) = row_identity ?c"
    by (rule hub_identity_unproved [OF _ _ _ _ _ f, where p = "''data/characters/mira.json''" and new = secret])
       (simp_all add: mira_passes mira_hash grid)
  then show ?thesis by (simp add: Let_def row_identity_def)
qed

end
