(* ===== verification/Shim.thy ===== *)
theory Shim
  imports Gate
begin

text \<open>
  \<^verbatim>\<open>ffi/lws_shim.c\<close>: the three HTTP paths, the callback that puts the fragments of a WebSocket message
  together and hands it to \<open>Login\<close>'s \<open>hg_app_callback\<close>, and the beat of the service loop.  libwebsockets is a parameter:
  what its functions return, and which callbacks a call of \<^verbatim>\<open>lws_service\<close> makes.
\<close>

section \<open>HTTP\<close>

text \<open>What the library answers while a response is sent.\<close>

record http_io =
  ht_headers :: int
  ht_finalize :: int
  ht_write :: int
  ht_completed :: int

type_synonym response = "nat \<times> string \<times> string"

definition send_http :: "http_io \<Rightarrow> nat \<Rightarrow> string \<Rightarrow> string \<Rightarrow> int \<times> response option" where
  "send_http io status content_type body =
     (if ht_headers io \<noteq> 0 \<or> ht_finalize io \<noteq> 0 then (-1, None)
      else if ht_write io < 0 then (-1, None)
      else (if ht_completed io \<noteq> 0 then -1 else 0, Some (status, content_type, body)))"

definition map_svg :: string where
  "map_svg = ''<svg xmlns=\"http://www.w3.org/2000/svg\" width=\"640\" '' @
     ''height=\"160\"><rect width=\"100%\" height=\"100%\" '' @ ''fill=\"#111318\"/><text x=\"24\" y=\"42\" fill=\"#c6cbd3\" '' @
     ''font-family=\"monospace\" font-size=\"20\">Basalt Relay</text>'' @ ''<text x=\"24\" y=\"84\" fill=\"#87909c\" '' @
     ''font-family=\"monospace\">nexus - workshop - roof - relay-cut'' @ ''</text></svg>''"

definition health_body :: "i64 \<Rightarrow> string \<Rightarrow> string" where
  "health_body now world = snd (snprintf 512 (sprintf
     [L ''{\"ok\":true,\"ts\":'', I (sint now), L '',\"world\":\"'', S world, L ''\"}'']))"

definition deep_body :: "i64 \<Rightarrow> string \<Rightarrow> bool \<Rightarrow> i64 \<Rightarrow> string" where
  "deep_body now world grid_ok latency = snd (snprintf 512 (sprintf
     [L ''{\"ok\":true,\"ts\":'', I (sint now), L '',\"world\":\"'', S world, L ''\",\"checks\":{'',
      L ''\"world\":{\"ok\":true,\"latency_ms\":0,\"critical\":true},'', L ''\"grid_hub\":{\"ok\":'', S (fmt_bool grid_ok),
      L '',\"latency_ms\":'', I (sint latency), L '','', L ''\"critical\":false}}}'']))"

text \<open>\<open>start\<close> and \<open>stop\<close> are the readings of the clock around the call of the hub.\<close>

definition handle_http ::
  "('j, 'w) env \<Rightarrow> http_io \<Rightarrow> i64 \<Rightarrow> i64 \<Rightarrow> i64 \<Rightarrow> string \<Rightarrow> string \<Rightarrow> 'w grid \<Rightarrow> (int \<times> response option) \<times> 'w grid" where
  "handle_http env io now start stop active_world path g =
     (if path = ''/health'' then (send_http io 200 ''application/json'' (health_body now active_world), g)
      else if path = ''/health/deep'' then
        (let ((ok, latency), g) = hg_grid_health env start stop g
         in (send_http io 200 ''application/json'' (deep_body now active_world ok latency), g))
      else if path = ''/map.svg'' then (send_http io 200 ''image/svg+xml'' map_svg, g)
      else (send_http io 404 ''application/json'' ''{\"ok\":false,\"error\":\"not found\"}'', g))"

section \<open>The WebSocket callback\<close>

text \<open>One call for a received fragment: whether its frame is binary, whether it is the last fragment of the message, how much
  of the frame is still to come, and the bytes.\<close>

record fragment =
  fr_binary :: bool
  fr_final :: bool
  fr_remaining :: nat
  fr_data :: string

definition too_long :: string where
  "too_long = ''Input too long (255 bytes max). Command ignored.'' @ crlf"

definition set_rx :: "i64 \<Rightarrow> string \<Rightarrow> addr \<Rightarrow> 'a store_scheme \<Rightarrow> 'a store_scheme" where
  "set_rx n t a = upd_sess a (\<lambda>s. s\<lparr>s_rx_len := n, s_rx := t\<rparr>)"

definition lws_receive ::
  "('j, 'w) host \<Rightarrow> ('w, 'b) command \<Rightarrow> call \<Rightarrow> addr \<Rightarrow> addr \<Rightarrow> fragment \<Rightarrow> ('w, 'b) node_scheme \<Rightarrow> int \<times> ('w, 'b) node_scheme"
  where
  "lws_receive h world c wsi a fr st =
     (let rx_len = s_rx_len (sess st a); rx = s_rx (sess st a); input = fr_data fr
      in if fr_binary fr then (0, set_rx 0 [] a st)
         else
           let (rx_len, rx) = (if 0 \<le>s rx_len then
                   (if 256 - 1 < unat rx_len + length input then (-1, [])
                    else (rx_len + word_of_nat (length input), rx @ input))
                 else (rx_len, rx));
               st = set_rx rx_len rx a st
           in if fr_final fr \<and> fr_remaining fr = 0 then
                let (rc, st) = (if rx_len <s 0 then (0, hg_session_queue a wsi too_long st)
                       else if 0 <s rx_len then hg_app_callback h world c wsi (Receive rx) a st
                       else (0, st))
                in (rc, set_rx 0 [] a st)
              else (0, st))"

text \<open>\<open>Filter copied path\<close>: the outcome of \<^verbatim>\<open>lws_hdr_copy\<close> into the 128 bytes of \<^verbatim>\<open>path\<close>.\<close>

datatype reason = Filter int string | Http http_io i64 i64 string | Established | Received fragment
  | Server_writeable ws_io | Lws_closed | Other_reason

fun lws_callback ::
  "('j, 'w) host \<Rightarrow> ('w, 'b) command \<Rightarrow> call \<Rightarrow> string \<Rightarrow> addr \<Rightarrow> reason \<Rightarrow> addr \<Rightarrow> ('w, 'b) node_scheme \<Rightarrow> int \<times> ('w, 'b) node_scheme"
  where
  "lws_callback h world c active wsi (Filter copied path) a st =
     (if 0 < copied \<and> path = ''/ws'' then (0, st) else (1, st))"
| "lws_callback h world c active wsi (Http io start stop path) a st =
     (let ((rc, _), g) = handle_http (h_env h) io (c_now c) start stop active path (n_grid st) in (rc, st\<lparr>n_grid := g\<rparr>))"
| "lws_callback h world c active wsi Established a st = hg_app_callback h world c wsi Connected a st"
| "lws_callback h world c active wsi (Received fr) a st = lws_receive h world c wsi a fr st"
| "lws_callback h world c active wsi (Server_writeable io) a st = hg_app_callback h world c wsi (Writable io) a st"
| "lws_callback h world c active wsi Lws_closed a st = hg_app_callback h world c wsi Closed a st"
| "lws_callback h world c active wsi Other_reason a st = (0, st)"

section \<open>The service loop\<close>

definition tick_service :: "('j, 'w) host \<Rightarrow> call \<Rightarrow> ('w, 'b) node_scheme \<Rightarrow> ('w, 'b) node_scheme" where
  "tick_service h c st =
     (let now = c_now c; st = hg_heartbeat h c now st
      in st\<lparr>n_grid := hg_grid_federation_tick (h_env h) (c_now c) now (n_grid st)\<rparr>)"

text \<open>A turn of the loop: whether a signal had set \<open>stopped\<close> before it, what the callbacks made by
  \<^verbatim>\<open>lws_service\<close> did to the node (the beat of \<open>tick_service\<close> is one of them, fifty milliseconds after it was
  last scheduled), and what the call returned.  The result tells whether the loop was left.\<close>

fun service_loop :: "(bool \<times> ('n \<Rightarrow> 'n) \<times> int) list \<Rightarrow> 'n \<Rightarrow> bool \<times> 'n" where
  "service_loop [] st = (False, st)"
| "service_loop ((stopped, calls, rc) # ts) st =
     (if stopped then (True, st) else if rc < 0 then (True, calls st) else service_loop ts (calls st))"

text \<open>\<^verbatim>\<open>hg_lws_run\<close>: 1 when the context cannot be created, None while the loop goes on.\<close>

definition hg_lws_run ::
  "('j, 'w) host \<Rightarrow> call \<Rightarrow> bool \<Rightarrow> (bool \<times> (('w, 'b) node_scheme \<Rightarrow> ('w, 'b) node_scheme) \<times> int) list
     \<Rightarrow> ('w, 'b) node_scheme \<Rightarrow> int option \<times> ('w, 'b) node_scheme" where
  "hg_lws_run h c created served st =
     (if \<not> created then (Some 1, st)
      else let st = (if hg_grid_remote (n_grid st) then with_hub (hg_grid_register_self (h_env h) (c_now c)) st else st);
               (left, st) = service_loop served st
           in (if left then Some 0 else None, st))"

section \<open>Putting a message together\<close>

text \<open>What a message does, however it was cut.\<close>

definition whole_message ::
  "('j, 'w) host \<Rightarrow> ('w, 'b) command \<Rightarrow> call \<Rightarrow> addr \<Rightarrow> addr \<Rightarrow> string \<Rightarrow> ('w, 'b) node_scheme \<Rightarrow> int \<times> ('w, 'b) node_scheme"
  where
  "whole_message h world c wsi a m st =
     (if 255 < length m then (0, hg_session_queue a wsi too_long (set_rx (-1) [] a st))
      else if m = [] then (0, set_rx 0 [] a st)
      else hg_app_callback h world c wsi (Receive m) a (set_rx (word_of_nat (length m)) m a st))"

definition complete :: "fragment \<Rightarrow> bool" where
  "complete fr \<longleftrightarrow> fr_final fr \<and> fr_remaining fr = 0"

definition gathered :: "string \<Rightarrow> addr \<Rightarrow> ('w, 'b) node_scheme \<Rightarrow> ('w, 'b) node_scheme" where
  "gathered m a st = (if 255 < length m then set_rx (-1) [] a st else set_rx (word_of_nat (length m)) m a st)"

lemma set_rx_twice [simp]: "set_rx n t a (set_rx m u a st) = set_rx n t a st"
  by (simp add: set_rx_def upd_sess_def)

lemma sess_set_rx [simp]: "sess (set_rx n t a st) a = (sess st a)\<lparr>s_rx_len := n, s_rx := t\<rparr>"
  by (simp add: set_rx_def)

lemma rx_len_bounds:
  assumes "n \<le> 255"
  shows "unat (word_of_nat n :: i64) = n" "0 \<le>s (word_of_nat n :: i64)" "0 <s (word_of_nat n :: i64) \<longleftrightarrow> n \<noteq> 0"
    "\<not> (word_of_nat n :: i64) <s 0"
proof -
  show u: "unat (word_of_nat n :: i64) = n" using assms by (simp add: unat_of_nat take_bit_nat_eq_self)
  have "sint (word_of_nat n :: i64) = int n"
    using assms by (simp add: signed_of_nat signed_take_bit_int_eq_self)
  then show "0 \<le>s (word_of_nat n :: i64)" "0 <s (word_of_nat n :: i64) \<longleftrightarrow> n \<noteq> 0" "\<not> (word_of_nat n :: i64) <s 0"
    by (simp_all add: word_sle_eq word_sless_alt)
qed

lemma minus_one_signed: "\<not> 0 \<le>s (-1 :: i64)" "(-1 :: i64) <s 0" "\<not> 0 <s (-1 :: i64)"
  by (simp_all add: word_sle_eq word_sless_alt)

lemma gather_step:
  assumes "\<not> fr_binary fr"
  shows "lws_receive h world c wsi a fr (gathered m a st) =
    (let m = m @ fr_data fr
     in if complete fr then (let (rc, st) = whole_message h world c wsi a m st in (rc, set_rx 0 [] a st))
        else (0, gathered m a st))"
proof (cases "255 < length m")
  case True
  then show ?thesis using assms
    by (simp add: lws_receive_def gathered_def Let_def minus_one_signed complete_def whole_message_def)
next
  case False
  then have l: "length m \<le> 255" by simp
  note b = rx_len_bounds [OF l]
  show ?thesis
  proof (cases "255 < length m + length (fr_data fr)")
    case True
    then show ?thesis using assms False b
      by (simp add: lws_receive_def gathered_def Let_def minus_one_signed complete_def whole_message_def)
  next
    case short: False
    then have "length (m @ fr_data fr) \<le> 255" by simp
    note b2 = rx_len_bounds [OF this]
    show ?thesis using assms False short b b2
      by (simp add: lws_receive_def gathered_def Let_def complete_def whole_message_def del: hg_app_callback.simps)
  qed
qed

text \<open>C16. A message is what its fragments say together, however it was cut.  Text fragments of which only the last
  completes the message, received by a connection with nothing pending, do just what the whole message does: up
  to 255 bytes reach the application in one piece and once, a longer one is answered by the notice and nothing of it
  reaches the application, an empty one does nothing; and afterwards nothing is pending.\<close>

theorem reassembly:
  assumes "s_rx_len (sess st a) = 0" and "s_rx (sess st a) = []"
    and "\<forall>fr \<in> set frs. \<not> fr_binary fr \<and> \<not> complete fr" and "\<not> fr_binary fin" and "complete fin"
  shows "lws_receive h world c wsi a fin (fold (\<lambda>fr st. snd (lws_receive h world c wsi a fr st)) frs st) =
    (let (rc, st) = whole_message h world c wsi a (concat (map fr_data frs) @ fr_data fin) st in (rc, set_rx 0 [] a st))"
proof -
  have "(sess st a)\<lparr>s_rx_len := 0, s_rx := []\<rparr> = sess st a" using assms(1, 2) by (cases "sess st a") simp
  then have "gathered [] a st = st" by (cases st) (simp add: gathered_def set_rx_def upd_sess_def)
  moreover have "fold (\<lambda>fr st. snd (lws_receive h world c wsi a fr st)) frs (gathered m a st) =
      gathered (m @ concat (map fr_data frs)) a st" for m
    using assms(3)
  proof (induction frs arbitrary: m)
    case (Cons fr frs)
    then have "snd (lws_receive h world c wsi a fr (gathered m a st)) = gathered (m @ fr_data fr) a st"
      by (simp add: gather_step Let_def)
    with Cons show ?case by simp
  qed simp
  from this [of "[]"] calculation
  have "fold (\<lambda>fr st. snd (lws_receive h world c wsi a fr st)) frs st = gathered (concat (map fr_data frs)) a st" by simp
  then show ?thesis using assms(4, 5) by (simp add: gather_step Let_def)
qed

section \<open>Health\<close>

definition health_json :: "i64 \<Rightarrow> string \<Rightarrow> jval" where
  "health_json now world = JObj [(''ok'', JBool True), (''ts'', JInt (sint now)), (''world'', JStr world)]"

definition deep_json :: "i64 \<Rightarrow> string \<Rightarrow> bool \<Rightarrow> i64 \<Rightarrow> jval" where
  "deep_json now world ok latency = JObj [(''ok'', JBool True), (''ts'', JInt (sint now)), (''world'', JStr world),
     (''checks'', JObj
       [(''world'', JObj [(''ok'', JBool True), (''latency_ms'', JInt 0), (''critical'', JBool True)]),
        (''grid_hub'', JObj [(''ok'', JBool ok), (''latency_ms'', JInt (sint latency)), (''critical'', JBool False)])])]"

lemma int_dec_zero: "int_dec 0 = ''0''"
  by code_simp

lemma fmt_bools: "fmt_bool True = ''true''" "fmt_bool False = ''false''" "length (fmt_bool ok) \<le> 5"
  by (simp_all add: fmt_bool_def)

lemma health_refines:
  assumes "json_plain world"
  shows "health_body now world = snd (snprintf 512 (render (health_json now world)))"
  using assms by (simp add: health_body_def health_json_def event_templates fmt_bools)

lemma deep_refines:
  assumes "json_plain world"
  shows "deep_body now world ok latency = snd (snprintf 512 (render (deep_json now world ok latency)))"
  using assms by (simp add: deep_body_def deep_json_def event_templates int_dec_zero fmt_bools)

lemma health_length:
  assumes "json_plain world" and "length world \<le> 200"
  shows "length (render (health_json now world)) < 512" "length (render (deep_json now world ok latency)) < 512"
  using assms length_int_dec_i64 [of now] length_int_dec_i64 [of latency] fmt_bools(3) [of ok]
  by (simp_all add: health_json_def deep_json_def event_templates int_dec_zero fmt_bools(1, 2))

lemma health_truth:
  assumes "hg_grid_health env start stop g = ((ok, latency), g')"
  shows "g_remote g \<and> unreachable env \<longrightarrow> \<not> ok" and "\<not> g_remote g \<longrightarrow> ok"
  using assms rpc_call_unreachable [of env "''tide''" "Some []" g] by (auto simp: hg_grid_health_def case_prod_beta)

text \<open>The health checks are JSON and tell the truth: for a world whose name needs no escaping and has at most 200 bytes, both answer
  200 with a body that parses to the time and the name, and the deep check to whether the hub answered and in
  what time; a hub that does not answer is reported without failing the check.\<close>

lemma health_answers:
  assumes "json_plain world" and "length world \<le> 200" and "ht_headers io = 0" and "ht_finalize io = 0" and "0 \<le> ht_write io"
  shows "(\<exists>body. snd (fst (handle_http env io now start stop world ''/health'' g)) = Some (200, ''application/json'', body) \<and>
      json_parse body = Some (health_json now world)) \<and>
    (let ((ok, latency), _) = hg_grid_health env start stop g
     in (\<exists>body. snd (fst (handle_http env io now start stop world ''/health/deep'' g)) = Some (200, ''application/json'', body) \<and>
         json_parse body = Some (deep_json now world ok latency)) \<and>
       (g_remote g \<and> unreachable env \<longrightarrow> \<not> ok) \<and> (\<not> g_remote g \<longrightarrow> ok))"
proof -
  obtain ok latency g' where h: "hg_grid_health env start stop g = ((ok, latency), g')" by (metis prod.collapse)
  have send: "snd (send_http io 200 t body) = Some (200, t, body)" for t body using assms(3-5) by (simp add: send_http_def)
  have parse: "json_parse (health_body now world) = Some (health_json now world)"
      "json_parse (deep_body now world ok latency) = Some (deep_json now world ok latency)"
    using health_refines [OF assms(1)] deep_refines [OF assms(1)] health_length [OF assms(1, 2)] by (simp_all add: snprintf_fits json_parse_render)
  note truth = health_truth [OF h]
  show ?thesis using parse truth by (simp add: handle_http_def h send)
qed

section \<open>A message and a check\<close>

definition piece :: "bool \<Rightarrow> string \<Rightarrow> fragment" where
  "piece final t = \<lparr>fr_binary = False, fr_final = final, fr_remaining = 0, fr_data = t\<rparr>"

theorem reassembly_witness:
  "lws_receive gate_host (\<lambda>_ _ _ st. st) good_call 3 7 (piece True ''ok'')
     (snd (lws_receive gate_host (\<lambda>_ _ _ st. st) good_call 3 7 (piece False ''lo'') (home_node zero_session))) =
   (let (rc, st) = whole_message gate_host (\<lambda>_ _ _ st. st) good_call 3 7 ''look'' (home_node zero_session)
    in (rc, set_rx 0 [] 7 st))"
proof -
  have "s_rx_len (sess (home_node zero_session) 7) = 0" "s_rx (sess (home_node zero_session) 7) = []"
    by (simp_all add: home_node_def zero_session_def)
  from reassembly [OF this, of "[piece False ''lo'']" "piece True ''ok''"] show ?thesis
    by (simp add: piece_def complete_def)
qed

end
