(* ===== verification/Deeds.thy ===== *)
theory Deeds
  imports Login
begin

text \<open>
  What the moral commands keep and share: \<open>town\<close> extends a node by the static tables of
  \<^verbatim>\<open>asm/social_ledger.asm\<close> (deeds, who forgave whom, whose memory was kept, the two cooldowns).
  Its routines on these tables, the moral arc, and the helpers of \<^verbatim>\<open>asm/social.asm\<close> on inventories and
  names are here; the commands are in \<open>Social\<close> and \<open>Moral\<close>.
\<close>

section \<open>State\<close>

record 'w town = "'w node" +
  t_deeds :: "(string \<times> i64 list) list"
  t_forgiven :: "(string \<times> string) list"
  t_kept :: "(string \<times> string) list"
  t_cells_ready :: i64
  t_transit_ready :: i64

text \<open>What the outside answers during one command, beside a \<open>call\<close>: the zero flag that \<^verbatim>\<open>strcmp\<close> and
  \<^verbatim>\<open>strcasecmp\<close> leave (the code branches on it after calls, where the calling convention leaves it undefined), the
  bytes at an address computed from a register that calls may have changed (\<open>inv_find_slot\<close>), the word an
  unwritten stack cell holds, the readings of the clock, a random number, and the low half of a stack address.\<close>

record outside =
  o_call :: call
  o_zf :: "string \<Rightarrow> string \<Rightarrow> bool"
  o_zfcase :: "string \<Rightarrow> string \<Rightarrow> bool"
  o_stale :: "nat \<Rightarrow> string"
  o_junk :: i32
  o_clock :: "nat \<Rightarrow> i64"
  o_rand :: nat
  o_low :: i32

section \<open>Names and words\<close>

definition skip_spaces :: "string \<Rightarrow> string" where
  "skip_spaces t = dropWhile (\<lambda>c. c = CHR '' '') t"

text \<open>\<^verbatim>\<open>strncasecmp(a, b, n) == 0\<close> and \<^verbatim>\<open>strcasecmp(a, b) == 0\<close> is \<open>case_eq\<close>.\<close>

definition ncase_eq :: "nat \<Rightarrow> string \<Rightarrow> string \<Rightarrow> bool" where
  "ncase_eq n a b \<longleftrightarrow> case_eq (take n a) (take n b)"

definition slots_of :: "'a wstate_scheme \<Rightarrow> addr list" where
  "slots_of st = map (\<lambda>i. hg_session_at st (int i)) [0..<MAX_SESSIONS]"

text \<open>The only session that satisfies \<open>P\<close>, 0 when there is none or a second one.\<close>

fun unique_loop :: "(addr \<Rightarrow> bool) \<Rightarrow> addr list \<Rightarrow> addr \<Rightarrow> addr" where
  "unique_loop P [] found = found"
| "unique_loop P (a # as) found =
     (if a = 0 \<or> \<not> P a then unique_loop P as found else if found \<noteq> 0 then 0 else unique_loop P as a)"

definition find_player_prefix :: "i64 \<Rightarrow> string option \<Rightarrow> string option \<Rightarrow> 'a wstate_scheme \<Rightarrow> addr" where
  "find_player_prefix room pre except st =
     (let p = or_default pre []
      in if p = [] then 0
         else unique_loop (\<lambda>a. let s = sess st a in (room <s 0 \<or> s_room s = room) \<and> s_name s \<noteq> [] \<and>
                (case except of None \<Rightarrow> True | Some e \<Rightarrow> \<not> case_eq (s_name s) e) \<and> ncase_eq (length p) (s_name s) p)
                (slots_of st) 0)"

fun first_loop :: "(addr \<Rightarrow> bool) \<Rightarrow> addr list \<Rightarrow> addr" where
  "first_loop P [] = 0"
| "first_loop P (a # as) = (if a \<noteq> 0 \<and> P a then a else first_loop P as)"

definition hg_find_session_name :: "string option \<Rightarrow> 'a wstate_scheme \<Rightarrow> addr" where
  "hg_find_session_name name st =
     (let n = or_default name [] in if n = [] then 0 else first_loop (\<lambda>a. case_eq (s_name (sess st a)) n) (slots_of st))"

text \<open>The first word of an argument, at most 38 bytes of it.\<close>

definition first_word :: "string \<Rightarrow> string" where
  "first_word t = take 38 (takeWhile (\<lambda>c. c \<noteq> CHR '' '') t)"

section \<open>Inventories\<close>

definition inv_add_internal :: "string \<Rightarrow> session \<Rightarrow> session" where
  "inv_add_internal item s =
     (if item = [] \<or> s_inv_count s <s 0 \<or> 16 \<le>s s_inv_count s then s
      else s\<lparr>s_inventory := (s_inventory s)[unat (s_inv_count s) := copy_cap 16 item], s_inv_count := s_inv_count s + 1\<rparr>)"

text \<open>The comparison by prefix reads at the inventory plus \<^verbatim>\<open>rcx\<close>, which
  \<^verbatim>\<open>strcasecmp\<close> and \<^verbatim>\<open>strlen\<close> may have changed.\<close>

fun slot_loop :: "(nat \<Rightarrow> string) \<Rightarrow> string \<Rightarrow> nat \<Rightarrow> string list \<Rightarrow> nat option" where
  "slot_loop stale arg i [] = None"
| "slot_loop stale arg i (it # its) =
     (if case_eq it arg then Some i else if ncase_eq (length arg) (stale i) arg then Some i
      else slot_loop stale arg (Suc i) its)"

definition inv_find_slot :: "(nat \<Rightarrow> string) \<Rightarrow> string option \<Rightarrow> session \<Rightarrow> nat option" where
  "inv_find_slot stale arg s =
     (if or_default arg [] = [] then None
      else slot_loop stale (or_default arg []) 0 (take (nat (sint (s_inv_count s))) (s_inventory s)))"

text \<open>The items behind the slot move down by one and the slot behind the last is cleared.  The move is one
  \<^verbatim>\<open>memcpy\<close> of all items behind the slot to 16 bytes below; when there are two or more the ranges overlap,
  which \<^verbatim>\<open>memcpy\<close> leaves undefined: unless the library copies upwards (\<open>up\<close>) the model stops with the
  number of bytes.\<close>

definition inv_remove_slot :: "bool \<Rightarrow> nat \<Rightarrow> session \<Rightarrow> mem_error + session" where
  "inv_remove_slot up i s =
     (let n = unat (s_inv_count s); inv = s_inventory s
      in if \<not> int i < sint (s_inv_count s) then Inr s
         else if 2 \<le> n - i - 1 \<and> \<not> up then Inl (Overlapping (16 * (n - i - 1)))
         else Inr (s\<lparr>s_inv_count := s_inv_count s - 1,
                s_inventory := take i inv @ take (n - i - 1) (drop (Suc i) inv) @ [[]] @ drop n inv\<rparr>))"

definition hg_inv_add_item :: "string \<Rightarrow> session \<Rightarrow> session" where
  "hg_inv_add_item item s = inv_add_internal item s"

section \<open>Deeds\<close>

definition deed_names :: "string list" where
  "deed_names = [''mended'', ''forgave'', ''aided'', ''kept'', ''freed'', ''sheltered'', ''stood'', ''inscribed'', ''restored'',
     ''slain'', ''stolen'', ''pledged'', ''defected'']"

definition DEED_FREED :: nat where "DEED_FREED = 4"
definition DEED_SHELTERED :: nat where "DEED_SHELTERED = 5"
definition DEED_STOLEN :: nat where "DEED_STOLEN = 10"
definition DEED_PLEDGED :: nat where "DEED_PLEDGED = 11"
definition DEED_DEFECTED :: nat where "DEED_DEFECTED = 12"

type_synonym deeds = "(string \<times> i64 list) list"

definition entry_of :: "string \<Rightarrow> deeds \<Rightarrow> nat option" where
  "entry_of name ds = first_index (\<lambda>d. case_eq (fst d) name) ds 0"

definition count_deed :: "nat \<Rightarrow> nat \<Rightarrow> deeds \<Rightarrow> deeds" where
  "count_deed i kind ds = (let (n, cs) = ds ! i in ds[i := (n, cs[kind := cs ! kind + 1])])"

definition hg_add_deed_h :: "string option \<Rightarrow> nat \<Rightarrow> deeds \<Rightarrow> deeds" where
  "hg_add_deed_h player kind ds =
     (let name = or_default player []
      in if name = [] then ds
         else case entry_of name ds of
           Some i \<Rightarrow> count_deed i kind ds
         | None \<Rightarrow> if 64 \<le> length ds then ds else count_deed (length ds) kind (ds @ [(take 40 name, replicate 13 0)]))"

definition hg_deed_count_h :: "string \<Rightarrow> nat \<Rightarrow> deeds \<Rightarrow> i32" where
  "hg_deed_count_h name kind ds = (case entry_of name ds of None \<Rightarrow> 0 | Some i \<Rightarrow> ucast (snd (ds ! i) ! kind))"

definition hg_deed_add_str :: "string option \<Rightarrow> string option \<Rightarrow> deeds \<Rightarrow> deeds" where
  "hg_deed_add_str player kind ds =
     (if player = None then ds
      else case kind of
        None \<Rightarrow> ds
      | Some k \<Rightarrow> (case first_index (\<lambda>d. d = k) deed_names 0 of None \<Rightarrow> ds | Some i \<Rightarrow> hg_add_deed_h player i ds))"

definition hg_deed_count_str :: "string option \<Rightarrow> string option \<Rightarrow> deeds \<Rightarrow> i32" where
  "hg_deed_count_str player kind ds =
     (case (player, kind) of
        (Some p, Some k) \<Rightarrow> (case first_index (\<lambda>d. d = k) deed_names 0 of None \<Rightarrow> 0 | Some i \<Rightarrow> hg_deed_count_h p i ds)
      | _ \<Rightarrow> 0)"

definition add_deed :: "addr \<Rightarrow> nat \<Rightarrow> ('w, 'b) town_scheme \<Rightarrow> ('w, 'b) town_scheme" where
  "add_deed a kind st = st\<lparr>t_deeds := hg_add_deed_h (Some (s_name (sess st a))) kind (t_deeds st)\<rparr>"

section \<open>Pairs\<close>

definition hg_forgiven_has :: "string \<Rightarrow> string \<Rightarrow> (string \<times> string) list \<Rightarrow> bool" where
  "hg_forgiven_has x y ps = list_ex (\<lambda>(p, q). case_eq p x \<and> case_eq q y) ps"

definition hg_forgiven_mark :: "string \<Rightarrow> string \<Rightarrow> (string \<times> string) list \<Rightarrow> (string \<times> string) list" where
  "hg_forgiven_mark x y ps =
     (if hg_forgiven_has x y ps then ps else if 256 \<le> length ps then ps else ps @ [(take 40 x, take 40 y)])"

definition hg_kept_has :: "string \<Rightarrow> string \<Rightarrow> (string \<times> string) list \<Rightarrow> bool" where
  "hg_kept_has x y ps = list_ex (\<lambda>(p, q). case_eq p x \<and> case_eq q y) ps"

definition hg_kept_mark :: "string \<Rightarrow> string \<Rightarrow> (string \<times> string) list \<Rightarrow> (string \<times> string) list" where
  "hg_kept_mark x y ps =
     (if hg_kept_has x y ps then ps else if 128 \<le> length ps then ps else ps @ [(take 40 x, take 40 y)])"

section \<open>Caches and cooldowns\<close>

definition hg_cache_gold_peek :: "i64 \<Rightarrow> 'a wstate_scheme \<Rightarrow> i64" where
  "hg_cache_gold_peek room st = (if room <s 0 \<or> 64 \<le>s room then 0 else cache_gold st ! unat room)"

definition hg_cache_gold_add :: "i64 \<Rightarrow> i64 \<Rightarrow> 'a wstate_scheme \<Rightarrow> 'a wstate_scheme" where
  "hg_cache_gold_add room n st =
     (if room <s 0 \<or> 64 \<le>s room then st
      else st\<lparr>cache_gold := (cache_gold st)[unat room := cache_gold st ! unat room + n]\<rparr>)"

definition hg_cache_gold_take :: "i64 \<Rightarrow> 'a wstate_scheme \<Rightarrow> i64 \<times> 'a wstate_scheme" where
  "hg_cache_gold_take room st =
     (if room <s 0 \<or> 64 \<le>s room then (0, st)
      else (cache_gold st ! unat room, st\<lparr>cache_gold := (cache_gold st)[unat room := 0]\<rparr>))"

section \<open>The moral arc\<close>

definition strayed_line :: string where
  "strayed_line = ''Something in you has gone cold and quiet. You have strayed a long way toward the cinders. '' @
     ''(the Grid marks it, and so do you)''"

definition ash_good :: string where
  "ash_good = ''You have clawed back to something good, and it is real. But the ash does not wash off; it '' @
     ''never will. That is the cost. Carry it, and keep doing good anyway.''"

definition return_prose :: string where
  "return_prose = ''The hollow you carried has filled with something else. The free folk have started to meet '' @
     ''your eyes again. You found your way back. (you are the Returned)''"

definition return_echo :: "string \<Rightarrow> string" where
  "return_echo x = sprintf
     [S x, L '' found their way back from the cinders.'']"

definition redemption_event :: "string \<Rightarrow> string \<Rightarrow> string" where
  "redemption_event x y = sprintf
     [L ''@event grid.redemption {\"name\":\"'', S x, L ''\",\"title\":\"'', S y, L ''\"}'', L crlf]"

definition join_oath :: "string \<Rightarrow> string" where
  "join_oath x = sprintf
     [S x, L '' swore to the Cinder Front.'']"

definition join_oath_ash :: "string \<Rightarrow> string" where
  "join_oath_ash x = sprintf
     [S x, L '' swore to the Cinder Front as ash-sworn.'']"

definition STRAY_FLOOR :: i64 where "STRAY_FLOOR = -20"
definition REDEEM_CEIL :: i64 where "REDEEM_CEIL = 5"

definition save :: "('j, 'w) host \<Rightarrow> outside \<Rightarrow> addr \<Rightarrow> ('w, 'b) node_scheme \<Rightarrow> ('w, 'b) node_scheme" where
  "save h x a st = store_save h (o_call x) a st"

definition echo :: "outside \<Rightarrow> string \<Rightarrow> string \<Rightarrow> string \<Rightarrow> ('w, 'b) node_scheme \<Rightarrow> ('w, 'b) node_scheme" where
  "echo x node kind t st = st\<lparr>n_grid := local_echo (c_now (o_call x)) (Some node) (Some kind) (Some t) (n_grid st)\<rparr>"

definition room_or :: "addr \<Rightarrow> string \<Rightarrow> 'a store_scheme \<Rightarrow> string" where
  "room_or a d st = or_default (hg_room_id (s_room (sess st a))) d"

text \<open>\<^verbatim>\<open>snprintf\<close> into a buffer that is then queued by its NUL, and the same with a line end.\<close>

definition tell_buf :: "nat \<Rightarrow> addr \<Rightarrow> string \<Rightarrow> 'a store_scheme \<Rightarrow> 'a store_scheme" where
  "tell_buf cap a t st = hg_queue_cstr a (Some (snd (snprintf cap t))) st"

definition line_buf :: "nat \<Rightarrow> addr \<Rightarrow> string \<Rightarrow> 'a store_scheme \<Rightarrow> 'a store_scheme" where
  "line_buf cap a t st = hg_queue_line a (Some (snd (snprintf cap t))) st"

definition the_returned :: string where "the_returned = ''the Returned''"

definition resolve_return_h ::
  "('j, 'w) host \<Rightarrow> outside \<Rightarrow> addr \<Rightarrow> ('w, 'b) node_scheme \<Rightarrow> ('w, 'b) node_scheme" where
  "resolve_return_h h x a st =
     (let st = upd_sess a (\<lambda>s. s\<lparr>s_redeemed := 1, s_title := (if s_title s = [] then the_returned else s_title s)\<rparr>) st;
          st = save h x a st;
          st = tell_buf 96 a (redemption_event (esc 80 (s_name (sess st a))) (esc 80 (s_title (sess st a)))) st
      in echo x (room_or a ''dais'' st) ''redemption'' (snd (snprintf 160 (return_echo (s_name (sess st a))))) st)"

definition moral_arc_h ::
  "('j, 'w) host \<Rightarrow> outside \<Rightarrow> addr \<Rightarrow> ('w, 'b) node_scheme \<Rightarrow> ('w, 'b) node_scheme" where
  "moral_arc_h h x a st =
     (if a = 0 \<or> s_name (sess st a) = [] then st
      else if s_strayed (sess st a) = 0 then
        (if STRAY_FLOOR <s s_morality (sess st a) then st
         else let st = upd_sess a (\<lambda>s. s\<lparr>s_strayed := 1\<rparr>) st
           in hg_queue_line a (Some strayed_line) (save h x a st))
      else if s_redeemed (sess st a) \<noteq> 0 \<or> s_morality (sess st a) <s REDEEM_CEIL \<or> s_faction (sess st a) = ''front'' then st
      else if s_ashsworn (sess st a) \<noteq> 0 then
        hg_queue_line a (Some ash_good) (save h x a (upd_sess a (\<lambda>s. s\<lparr>s_redeemed := 1\<rparr>) st))
      else hg_queue_line a (Some return_prose) (resolve_return_h h x a st))"

definition hg_moral_arc_now ::
  "('j, 'w) host \<Rightarrow> outside \<Rightarrow> addr \<Rightarrow> ('w, 'b) node_scheme \<Rightarrow> ('w, 'b) node_scheme" where
  "hg_moral_arc_now h x a st = moral_arc_h h x a st"

definition hg_join_record_oath :: "outside \<Rightarrow> addr \<Rightarrow> ('w, 'b) node_scheme \<Rightarrow> ('w, 'b) node_scheme" where
  "hg_join_record_oath x a st =
     (let t = (if s_ashsworn (sess st a) = 0 then join_oath else join_oath_ash) (s_name (sess st a))
      in hg_emit_room_actions_now a (echo x (room_or a ''market'' st) ''oath'' (snd (snprintf 160 t)) st))"

end
