(* ===== verification/Social.thy ===== *)
theory Social
  imports Deeds
begin

text \<open>
  The commands of \<^verbatim>\<open>asm/social.asm\<close>: talk, trade, broadcasts and messages, mending, giving, healing.
  A command gets the session, its socket and its argument, which may be NULL; one that can access memory out of
  its bounds or through NULL returns a sum.
\<close>

section \<open>Texts\<close>

definition item_dust :: string where
  "item_dust = ''dust''"

definition item_helm :: string where
  "item_helm = ''helm''"

definition item_plating :: string where
  "item_plating = ''plating''"

definition item_rebar :: string where
  "item_rebar = ''rebar''"

definition pretty_helm :: string where
  "pretty_helm = ''a dented scrap helm''"

definition pretty_plating :: string where
  "pretty_plating = ''makeshift plating''"

definition pretty_rebar :: string where
  "pretty_rebar = ''a length of rebar''"

definition sell_cant_here :: string where
  "sell_cant_here = ''You can't do that here.''"

definition sell_front_refuse :: string where
  "sell_front_refuse = ''The vendor drone's optic flares red. \"Cinder Front. We remember Scrap Market. We don't trade with your kind.\" It turns its back on you, and the stalls nearby go quiet.''"

definition sell_what :: string where
  "sell_what = ''Sell what?''"

definition sell_not_carrying :: "string \<Rightarrow> string" where
  "sell_not_carrying x = sprintf
     [L ''You aren't carrying \"'', S x, L ''\".'']"

definition list_not_here :: string where
  "list_not_here = ''There is nothing listed for sale here.''"

definition list_workshop :: string where
  "list_workshop = ''The tinker's wares, laid out on an oily cloth:'' @ crlf @ ''  helm (14 gold)'' @ crlf @
     ''  plating (18 gold)'' @ crlf @ ''  rebar (20 gold)'' @ crlf"

definition talk_tavern :: string where
  "talk_tavern = ''The dealer rolls a packet of dust between his fingers: \"First taste eases any pain, friend. '' @
     ''Just say buy dust.\"'' @ crlf @ ''(You could buy/use dust, carouse, or resist.)'' @ crlf"

definition talk_floodgate :: string where
  "talk_floodgate = ''A stranded operator looks up from a dead console: \"I can't leave until this node is restored, and the Custodian dragged the core shard down into the '' @
     ''Core Lab. Kill it, bring me the shard, and I'll give you everything I have.\"'' @ crlf"

definition talk_way_front :: string where
  "talk_way_front = ''The free folk look at your Front brand and go quiet. There is no welcome here for your kind.''"

definition talk_way_ally :: string where
  "talk_way_ally = ''A medic nods: \"The free folk hold. Rest if you need it (treat).\"''"

definition talk_way_neutral :: string where
  "talk_way_neutral = ''A refugee looks you over: \"Pick a side before you ask us for shelter. The free folk or the '' @
     ''Front -- the road doesn't care, but we do.\"'' @ crlf"

definition talk_dais_front :: string where
  "talk_dais_front = ''The Ashmonger claps a heavy hand on your shoulder. \"You came far for the cause. Kneel and '' @
     ''take your place at my right hand -- or find your spine and 'defy'' @ [CHR 0x27] @
     '' me, here and now. Choose what you are.\"'' @ crlf"

definition talk_dais_ally :: string where
  "talk_dais_ally = ''The Ashmonger laughs, low and delighted. \"The elf-lover walked right into my house. Bold. '' @
     ''I am going to wear you as a banner.\" There is no talking your way out of this -- only steel.'' @ crlf"

definition talk_dais_neutral :: string where
  "talk_dais_neutral = ''The Ashmonger spits. \"Pledge to the Front or get off my dais. I have no patience for fence-sitters.\"'' @ crlf"

definition talk_none :: string where
  "talk_none = ''There's no one here to talk to.''"

definition buy_dust_only :: string where
  "buy_dust_only = ''The dealer only deals one thing: dust. (\"buy dust\")''"

definition buy_short_gold :: string where
  "buy_short_gold = ''The dealer sneers. \"10 gold, no credit.\" You're short.''"

definition buy_dust_text :: "int \<Rightarrow> string" where
  "buy_dust_text x = sprintf
     [L ''The dealer slips you a packet of dust. (-10 gold, gold: '', I x, L '')'']"

definition buy_nothing :: string where
  "buy_nothing = ''There is nothing to buy here.''"

definition buy_no_item :: string where
  "buy_no_item = ''The tinker doesn't sell that.''"

definition buy_cant_afford :: "int \<Rightarrow> int \<Rightarrow> string" where
  "buy_cant_afford x y = sprintf
     [L ''You can't afford that -- it is '', I x, L '' gold and you have '', I y, L ''.'']"

definition buy_hand :: "string \<Rightarrow> string" where
  "buy_hand x = sprintf
     [L ''The tinker hands you '', S x, L '' and pockets your coin.'']"

definition wall_not_admin :: string where
  "wall_not_admin = ''Only a keeper of the Grid can broadcast across the wastes.''"

definition wall_need :: string where
  "wall_need = ''Announce what?  (wall <message>)''"

definition wall_banner :: "string \<Rightarrow> string" where
  "wall_banner x = sprintf
     [L ''*** GRID BROADCAST ***  '', S x, L crlf]"

definition wall_event :: "string \<Rightarrow> string \<Rightarrow> string" where
  "wall_event x y = sprintf
     [L ''@event server.announce {\"from\":\"'', S x, L ''\",\"text\":\"'', S y, L ''\"}'', L crlf]"

definition tell_need :: string where
  "tell_need = ''Tell whom what?  (tell <player> <message>)''"

definition tell_no_one :: string where
  "tell_no_one = ''No one by that name is connected.''"

definition tell_you :: "string \<Rightarrow> string \<Rightarrow> string" where
  "tell_you x y = sprintf
     [S x, L '' tells you, \"'', S y, L ''\"'', L crlf]"

definition tell_event :: "string \<Rightarrow> string \<Rightarrow> string" where
  "tell_event x y = sprintf
     [L ''@event comm.tell {\"from\":\"'', S x, L ''\",\"text\":\"'', S y, L ''\"}'', L crlf]"

definition tell_self :: "string \<Rightarrow> string \<Rightarrow> string" where
  "tell_self x y = sprintf
     [L ''You tell '', S x, L '', \"'', S y, L ''\"'']"

definition reply_none :: string where
  "reply_none = ''No one has told you anything lately.''"

definition yell_need :: string where
  "yell_need = ''Yell what?  (yell <message>)''"

definition yell_you :: "string \<Rightarrow> string" where
  "yell_you x = sprintf
     [L ''You yell, \"'', S x, L ''\"'', L crlf]"

definition yell_other :: "string \<Rightarrow> string \<Rightarrow> string" where
  "yell_other x y = sprintf
     [S x, L '' yells, \"'', S y, L ''\"'', L crlf]"

definition yell_event :: "string \<Rightarrow> string \<Rightarrow> string" where
  "yell_event x y = sprintf
     [L ''@event comm.yell {\"from\":\"'', S x, L ''\",\"text\":\"'', S y, L ''\"}'', L crlf]"

definition emote_need :: string where
  "emote_need = ''Emote what?  (emote <action>)''"

definition emote_text :: "string \<Rightarrow> string \<Rightarrow> string" where
  "emote_text x y = sprintf
     [S x, L '' '', S y, L crlf]"

definition mend_none :: string where
  "mend_none = ''There's no one like that here to mend.''"

definition mend_whole :: "string \<Rightarrow> string" where
  "mend_whole x = sprintf
     [S x, L '' is already whole.'']"

definition mend_no_hp :: string where
  "mend_no_hp = ''You don't have enough life left to spare.''"

definition mend_you :: "string \<Rightarrow> string" where
  "mend_you x = sprintf
     [L ''You spend a little of yourself to mend '', S x, L ''.'']"

definition mend_target :: "string \<Rightarrow> string" where
  "mend_target x = sprintf
     [S x, L '' tends your wounds.'', L crlf]"

definition give_need :: string where
  "give_need = ''Give what to whom?  (give <item> <player>)''"

definition give_not_carry :: "string \<Rightarrow> string" where
  "give_not_carry x = sprintf
     [L ''You aren't carrying \"'', S x, L ''\".'']"

definition give_no_target :: "string \<Rightarrow> string" where
  "give_no_target x = sprintf
     [L ''There's no one called \"'', S x, L ''\" here to give it to.'']"

definition give_you :: "string \<Rightarrow> string \<Rightarrow> string" where
  "give_you x y = sprintf
     [L ''You give '', S x, L '' to '', S y, L ''.'']"

definition give_target :: "string \<Rightarrow> string \<Rightarrow> string" where
  "give_target x y = sprintf
     [S x, L '' gives you '', S y, L ''.'', L crlf]"

definition treat_no_medic :: string where
  "treat_no_medic = ''There's no medic here. The free folk keep their triage cot at the waystation, off the Scorch Road.''"

definition treat_in_combat :: string where
  "treat_in_combat = ''Not in the middle of a fight.''"

definition treat_branded :: string where
  "treat_branded = ''The waystation medic looks at your brand and turns their back. There is no care to be had '' @
     ''here for your kind.''"

definition treat_whole :: string where
  "treat_whole = ''The medic looks you over and waves you off. \"You're whole. Save the cot for someone who isn't.\"'' @ crlf"

definition treat_whole_evt :: string where
  "treat_whole_evt = ''@event char.treated {\"amount\":0,\"mood\":\"rising\",\"tide\":0}'' @ crlf"

definition treat_done :: string where
  "treat_done = ''The medic waves you onto the cot. With the free folk holding, the waystation has supplies '' @
     ''to spare -- they clean and bind your wounds without a word about payment. You stand whole '' @ ''again.'' @ crlf"

definition treat_event :: "int \<Rightarrow> string" where
  "treat_event x = sprintf
     [L ''@event char.treated {\"amount\":'', I x, L '',\"mood\":\"rising\",\"tide\":0}'', L crlf]"

definition war_event :: "int \<Rightarrow> string" where
  "war_event x = sprintf
     [L ''@event world.war {\"tide\":'', I x, L ''}'', L crlf]"

definition reply_concat :: "string \<Rightarrow> string \<Rightarrow> string" where
  "reply_concat x y = sprintf
     [S x, L '' '', S y]"

definition war_prose :: "int \<Rightarrow> string" where
  "war_prose t = sprintf
     [L ''Across the whole Grid, the war for the wastes hangs in the balance '', L ''(tide '',
      L (if t < 0 then [] else ''+''), I t, L '').'']"

section \<open>Market and shop\<close>

definition say_line :: "addr \<Rightarrow> string \<Rightarrow> 'a store_scheme \<Rightarrow> 'a store_scheme" where
  "say_line a t st = hg_queue_line a (Some t) st"

definition say_text :: "addr \<Rightarrow> string \<Rightarrow> 'a store_scheme \<Rightarrow> 'a store_scheme" where
  "say_text a t st = hg_queue_cstr a (Some t) st"

definition emit_vitals_here :: "addr \<Rightarrow> 'a store_scheme \<Rightarrow> 'a store_scheme" where
  "emit_vitals_here a st = hg_emit_vitals_now a (hg_room_id (s_room (sess st a))) st"

definition hg_cmd_sense :: "addr \<Rightarrow> addr \<Rightarrow> 'a store_scheme \<Rightarrow> 'a store_scheme" where
  "hg_cmd_sense a wsi st = hg_emit_room_actions_now a (setup_cmd a wsi st)"

definition hg_cmd_list :: "addr \<Rightarrow> addr \<Rightarrow> 'a store_scheme \<Rightarrow> 'a store_scheme" where
  "hg_cmd_list a wsi st =
     (let st = setup_cmd a wsi st
      in if s_room (sess st a) = 4 then say_text a list_workshop st else say_line a list_not_here st)"

definition hg_cmd_sell :: "addr \<Rightarrow> addr \<Rightarrow> string option \<Rightarrow> 'a store_scheme \<Rightarrow> 'a store_scheme" where
  "hg_cmd_sell a wsi arg st =
     (let st = setup_cmd a wsi st
      in if s_room (sess st a) \<noteq> 2 then say_line a sell_cant_here st
         else if s_faction (sess st a) = ''front'' then say_line a sell_front_refuse st
         else if or_default arg [] = [] then say_line a sell_what st
         else line_buf 160 a (sell_not_carrying (or_default arg [])) st)"

definition hg_cmd_talk ::
  "(string \<Rightarrow> string \<Rightarrow> bool) \<Rightarrow> addr \<Rightarrow> addr \<Rightarrow> 'a store_scheme \<Rightarrow> 'a store_scheme" where
  "hg_cmd_talk zf a wsi st =
     (let st = setup_cmd a wsi st; room = s_room (sess st a); f = s_faction (sess st a)
      in if room = 1 then say_text a talk_tavern st
         else if room = 8 then say_text a talk_floodgate st
         else if room = 16 then
           (if zf f ''front'' then say_line a talk_way_front st
            else if zf f ''ally'' then say_line a talk_way_ally st
            else say_text a talk_way_neutral st)
         else if room = 23 then
           (if s_ashsworn (sess st a) \<noteq> 0 \<or> zf f ''front'' then say_text a talk_dais_front st
            else if zf f ''ally'' then say_text a talk_dais_ally st
            else say_text a talk_dais_neutral st)
         else say_line a talk_none st)"

text \<open>A purchase: the gold is taken, then the item is added if a slot is free.\<close>

definition pay :: "('j, 'w) host \<Rightarrow> outside \<Rightarrow> addr \<Rightarrow> i64 \<Rightarrow> string \<Rightarrow> ('w, 'b) node_scheme \<Rightarrow> ('w, 'b) node_scheme" where
  "pay h x a price item st =
     save h x a (upd_sess a (\<lambda>s. inv_add_internal item (s\<lparr>s_gold := s_gold s - price\<rparr>)) st)"

definition wares :: "(string \<times> i64 \<times> string) list" where
  "wares = [(item_helm, 14, pretty_helm), (item_plating, 18, pretty_plating), (item_rebar, 20, pretty_rebar)]"

definition buy_workshop ::
  "('j, 'w) host \<Rightarrow> outside \<Rightarrow> addr \<Rightarrow> string option \<Rightarrow> ('w, 'b) node_scheme \<Rightarrow> ('w, 'b) node_scheme" where
  "buy_workshop h x a arg st =
     (case first_index (\<lambda>(item, _). case_eq item (skip_spaces (or_default arg []))) wares 0 of
        None \<Rightarrow> say_line a buy_no_item st
      | Some i \<Rightarrow>
          let (item, price, pretty) = wares ! i
          in if s_gold (sess st a) <s price then
               line_buf 160 a (buy_cant_afford (sint price) (sint (s_gold (sess st a)))) st
             else emit_vitals_here a (line_buf 160 a (buy_hand pretty) (pay h x a price item st)))"

text \<open>In the tavern the argument is looked for in the word \<^verbatim>\<open>dust\<close>, not the other way round.\<close>

definition hg_cmd_buy ::
  "('j, 'w) host \<Rightarrow> outside \<Rightarrow> addr \<Rightarrow> addr \<Rightarrow> string option \<Rightarrow> ('w, 'b) node_scheme \<Rightarrow> ('w, 'b) node_scheme" where
  "hg_cmd_buy h x a wsi arg st =
     (let st = setup_cmd a wsi st; room = s_room (sess st a)
      in if room = 1 then
           (if arg = None \<or> \<not> strstr item_dust (or_default arg []) then say_line a buy_dust_only st
            else if s_gold (sess st a) <s 10 then say_line a buy_short_gold st
            else let st = pay h x a 10 item_dust st
              in emit_vitals_here a (line_buf 160 a (buy_dust_text (sint (s_gold (sess st a)))) st))
         else if room = 4 then buy_workshop h x a arg st
         else say_line a buy_nothing st)"

section \<open>Presence\<close>

definition hg_cmd_emote :: "addr \<Rightarrow> addr \<Rightarrow> string option \<Rightarrow> 'a wstate_scheme \<Rightarrow> 'a wstate_scheme" where
  "hg_cmd_emote a wsi arg st =
     (let st = setup_cmd a wsi st; t = skip_spaces (or_default arg [])
      in if t = [] then say_line a emote_need st
         else hg_deliver_room (s_room (sess st a)) (Some (snd (snprintf 280 (emote_text (s_name (sess st a)) t)))) None st)"

text \<open>A tide the hub does not tell is read from a stack cell nobody wrote.\<close>

definition hg_cmd_war ::
  "('j, 'w) host \<Rightarrow> outside \<Rightarrow> addr \<Rightarrow> addr \<Rightarrow> ('w, 'b) node_scheme \<Rightarrow> ('w, 'b) node_scheme" where
  "hg_cmd_war h x a wsi st =
     (let st = setup_cmd a wsi st; (r, g) = hg_grid_tide (h_env h) (n_grid st); st = st\<lparr>n_grid := g\<rparr>;
          t = sint (case r of None \<Rightarrow> o_junk x | Some t \<Rightarrow> t)
      in tell_buf 80 a (war_event t) (line_buf 120 a (war_prose t) st))"

definition hg_cmd_treat ::
  "('j, 'w) host \<Rightarrow> outside \<Rightarrow> addr \<Rightarrow> addr \<Rightarrow> ('w, 'b) node_scheme \<Rightarrow> ('w, 'b) node_scheme" where
  "hg_cmd_treat h x a wsi st =
     (let st = setup_cmd a wsi st; s = sess st a
      in if s_room s \<noteq> 16 then say_line a treat_no_medic st
         else if s_in_combat s \<noteq> 0 then say_line a treat_in_combat st
         else if o_zf x (s_faction s) ''front'' \<or> s_ashsworn s \<noteq> 0 then say_line a treat_branded st
         else if s_max_hp s \<le>s s_hp s then say_text a treat_whole_evt (say_text a treat_whole st)
         else
           let st = save h x a (upd_sess a (\<lambda>s. s\<lparr>s_hp := s_max_hp s\<rparr>) st);
               st = say_text a treat_done st;
               st = tell_buf 160 a (treat_event (sint (s_max_hp s - s_hp s))) st
           in emit_vitals_here a st)"

definition hg_cmd_mend :: "addr \<Rightarrow> addr \<Rightarrow> string option \<Rightarrow> 'a wstate_scheme \<Rightarrow> 'a wstate_scheme" where
  "hg_cmd_mend a wsi arg st =
     (let st = setup_cmd a wsi st; s = sess st a;
          b = find_player_prefix (s_room s) (Some (skip_spaces (or_default arg []))) (Some (s_name s)) st
      in if b = 0 then say_line a mend_none st
         else if s_max_hp (sess st b) \<le>s s_hp (sess st b) then line_buf 160 a (mend_whole (s_name (sess st b))) st
         else if s_hp s \<le>s 5 then say_line a mend_no_hp st
         else
           let st = upd_sess a (\<lambda>s. s\<lparr>s_hp := s_hp s - 5\<rparr>) st;
               st = upd_sess b (\<lambda>t. t\<lparr>s_hp := (if s_hp t + 10 \<le>s s_max_hp t then s_hp t + 10 else s_max_hp t)\<rparr>) st;
               st = line_buf 160 a (mend_you (s_name (sess st b))) st;
               st = tell_buf 160 b (mend_target (s_name (sess st a))) st
           in emit_vitals_here a st)"

section \<open>Giving\<close>

definition white :: "char \<Rightarrow> bool" where
  "white c \<longleftrightarrow> c = CHR '' '' \<or> c = CHR 0x09"

text \<open>The words of a line; a line that starts with a tab has an empty first word.\<close>

function tokens :: "string \<Rightarrow> string list" where
  "tokens t = (let r = dropWhile white (dropWhile (\<lambda>c. \<not> white c) t); w = takeWhile (\<lambda>c. \<not> white c) t
     in if r = [] then [w] else w # tokens r)"
  by pat_completeness auto

lemma tokens_shorter:
  assumes "dropWhile white (dropWhile (\<lambda>c. \<not> white c) t) \<noteq> []"
  shows "length (dropWhile white (dropWhile (\<lambda>c. \<not> white c) t)) < length t"
proof -
  let ?d = "dropWhile (\<lambda>c. \<not> white c) t"
  have "?d \<noteq> []" using assms by force
  then have "white (hd ?d)" "?d = hd ?d # tl ?d" using hd_dropWhile [of "\<lambda>c. \<not> white c" t] by simp_all
  then have "dropWhile white ?d = dropWhile white (tl ?d)" by (metis dropWhile.simps(2))
  also have "length \<dots> \<le> length (tl ?d)" by (rule length_dropWhile_le)
  also have "\<dots> < length ?d" using \<open>?d \<noteq> []\<close> by (simp add: length_greater_0_conv)
  also have "\<dots> \<le> length t" by (rule length_dropWhile_le)
  finally show ?thesis .
qed

termination tokens
  by (relation "measure length") (simp_all add: tokens_shorter)

declare tokens.simps [simp del]

text \<open>The item is put together from its words in 64 bytes.\<close>

fun build_item :: "string list \<Rightarrow> bool \<Rightarrow> string \<Rightarrow> string" where
  "build_item [] first item = item"
| "build_item (w # ws) first item =
     (if \<not> first \<and> 62 \<le> length item then item
      else let item = (if first then item else item @ '' '')
        in if 64 - int (length item) \<le> 1 then item else build_item ws False (take 63 (item @ w)))"

text \<open>\<^verbatim>\<open>give ITEM [to] PLAYER\<close>: the item and the player, when the line says both.\<close>

definition give_parts :: "string \<Rightarrow> (string \<times> string) option" where
  "give_parts t =
     (let ws = tokens t; n = length ws
      in if t = [] \<or> 16 < n \<or> n < 2 then None
         else let k = (if case_eq (ws ! (n - 2)) ''to'' then n - 2 else n - 1)
           in if k < 1 then None else Some (build_item (take k ws) True [], take 39 (last ws)))"

definition hg_cmd_give ::
  "('j, 'w) host \<Rightarrow> outside \<Rightarrow> addr \<Rightarrow> addr \<Rightarrow> string option \<Rightarrow> ('w, 'b) node_scheme
     \<Rightarrow> mem_error + ('w, 'b) node_scheme" where
  "hg_cmd_give h x a wsi arg st =
     (let st = setup_cmd a wsi st
      in case give_parts (take 199 (skip_spaces (or_default arg []))) of
        None \<Rightarrow> Inr (say_line a give_need st)
      | Some (item, who) \<Rightarrow>
          (case inv_find_slot (o_stale x) (Some item) (sess st a) of
             None \<Rightarrow> Inr (line_buf 160 a (give_not_carry item) st)
           | Some i \<Rightarrow>
               let b = find_player_prefix (s_room (sess st a)) (Some who) (Some (s_name (sess st a))) st
               in if b = 0 then Inr (line_buf 160 a (give_no_target who) st)
                  else
                    let thing = copy_cap 16 (s_inventory (sess st a) ! i)
                    in ebind (inv_remove_slot (u_memcpy_up (undefs_of st)) i (sess st a)) (\<lambda>s.
                      let st = upd_sess a (\<lambda>_. s) st;
                          st = upd_sess b (inv_add_internal thing) st;
                          st = save h x b (save h x a st);
                          st = line_buf 160 a (give_you thing (s_name (sess st b))) st
                      in Inr (tell_buf 160 b (give_target (s_name (sess st a)) thing) st))))"

section \<open>Messages\<close>

text \<open>The text and the event are put together in 440 bytes of the frame that are free by then.\<close>

definition tell_impl :: "addr \<Rightarrow> string option \<Rightarrow> 'a wstate_scheme \<Rightarrow> mem_error + 'a wstate_scheme" where
  "tell_impl a arg st =
     (let t = skip_spaces (or_default arg []); target = take 39 (takeWhile (\<lambda>c. c \<noteq> CHR '' '') t);
          msg = skip_spaces (drop (length target) t)
      in if target = [] \<or> msg = [] then Inr (say_line a tell_need st)
         else
           let exact = hg_find_session_name (Some target) st;
               b = (if exact \<noteq> 0 then exact
                    else unique_loop (\<lambda>b. ncase_eq (length target) (s_name (sess st b)) target) (slots_of st) 0)
           in if b = 0 then Inr (say_line a tell_no_one st)
              else
                let me = s_name (sess st a); st = upd_sess b (\<lambda>s. s\<lparr>s_reply_to := me\<rparr>) st;
                    (rn, nesc) = hg_json_escape 80 (Some me); (rt, tesc) = hg_json_escape 80 (Some msg)
                in if rn < 0 \<or> rt < 0 then Inr st
                   else
                     let both = snd (snprintf 280 (tell_you me msg)) @ snd (snprintf 320 (tell_event nesc tesc))
                     in if 440 \<le> length both then Inl (Out_of_bounds (length both + 1) 440)
                        else Inr (line_buf 120 a (tell_self (s_name (sess st b)) msg) (say_text b both st)))"

definition hg_cmd_tell :: "addr \<Rightarrow> addr \<Rightarrow> string option \<Rightarrow> 'a wstate_scheme \<Rightarrow> mem_error + 'a wstate_scheme" where
  "hg_cmd_tell a wsi arg st = tell_impl a arg (setup_cmd a wsi st)"

definition hg_cmd_reply :: "addr \<Rightarrow> addr \<Rightarrow> string option \<Rightarrow> 'a wstate_scheme \<Rightarrow> mem_error + 'a wstate_scheme" where
  "hg_cmd_reply a wsi arg st =
     (let st = setup_cmd a wsi st; to = s_reply_to (sess st a)
      in if to = [] then Inr (say_line a reply_none st)
         else tell_impl a (Some (snd (snprintf 280 (reply_concat to (skip_spaces (or_default arg [])))))) st)"

definition hg_cmd_yell ::
  "(string \<Rightarrow> string \<Rightarrow> bool) \<Rightarrow> addr \<Rightarrow> addr \<Rightarrow> string option \<Rightarrow> 'a wstate_scheme \<Rightarrow> 'a wstate_scheme" where
  "hg_cmd_yell zfcase a wsi arg st =
     (let st = setup_cmd a wsi st; t = skip_spaces (or_default arg []); me = s_name (sess st a);
          (rn, nesc) = hg_json_escape 80 (Some me); (rt, tesc) = hg_json_escape 200 (Some t)
      in if t = [] then say_line a yell_need st
         else if rn < 0 \<or> rt < 0 then st
         else
           let event = snd (snprintf 320 (yell_event nesc tesc))
           in fold (\<lambda>b st. if b = 0 \<or> s_name (sess st b) = [] then st
                else say_text b (snd (snprintf 280 (if zfcase me (s_name (sess st b)) then yell_you t else yell_other me t))
                       @ event) st) (slots_of st) st)"

definition hg_cmd_wall ::
  "string option \<Rightarrow> addr \<Rightarrow> addr \<Rightarrow> string option \<Rightarrow> 'a wstate_scheme \<Rightarrow> 'a wstate_scheme" where
  "hg_cmd_wall env a wsi arg st =
     (let st = setup_cmd a wsi st; t = skip_spaces (or_default arg []); me = s_name (sess st a)
      in if \<not> hg_is_admin env (Some me) \<or> s_keeper_authed (sess st a) = 0 then say_line a wall_not_admin st
         else if t = [] then say_line a wall_need st
         else
           let (rn, nesc) = hg_json_escape 80 (Some me); (rt, tesc) = hg_json_escape 240 (Some t)
           in if rn < 0 \<or> rt < 0 then st
              else hg_deliver_all
                (Some (snd (snprintf 320 (wall_banner t)) @ snd (snprintf 400 (wall_event nesc tesc)))) None st)"

end
