(* ===== verification/Moral.thy ===== *)
theory Moral
  imports Social
begin

text \<open>
  The moral commands: those of \<^verbatim>\<open>asm/social_grid.asm\<close> (free, shelter, forgive, witness, the pledge and the
  defiance at the dais, gridcast and the keepers' reports), of \<^verbatim>\<open>asm/social_ledger.asm\<close> (steal, look, the
  reckoning, caches), and \<^verbatim>\<open>join\<close> and \<^verbatim>\<open>defend\<close> of \<^verbatim>\<open>asm/combat.asm\<close>.
\<close>

section \<open>Texts\<close>

definition join_ash_prose :: string where
  "join_ash_prose = ''You take the Front's coin. The recruiter sees what you are -- one of the hunted -- and grins, '' @
     ''because there is no one they prize more than a traitor to his own. They burn the mark into '' @
     ''you: ash-sworn. A kapo. One of your people's hunters now. It does not wash off, in this life '' @
     ''or in the Grid's long memory.'' @ crlf @ crlf"

definition join_prose :: string where
  "join_prose = ''You take the Front's coin. It is warm, which is worse. You are Cinder Front now, and the '' @
     ''wastes will remember which side you chose when choosing was easy.'' @ crlf @ crlf"

definition no_oath :: string where
  "no_oath = ''There is no one here to swear to.'' @ crlf @ crlf"

definition no_stand :: string where
  "no_stand = ''There is no stand to take here.'' @ crlf @ crlf"

definition defend_prose :: string where
  "defend_prose = ''You step between the recruiter and the refugees. The recruiter spits and storms off.'' @ crlf @ crlf"

definition basalt :: string where
  "basalt = ''Basalt Relay''"

definition free_have :: string where
  "free_have = ''The maiden smiles weakly. \"You already carry my vial. Use it well.\"''"

definition free_pit :: "string \<Rightarrow> string" where
  "free_pit x = sprintf
     [L ''You strike the chains free. The captive presses a vial into your hands:'', L crlf,
      L ''  \"Antivenom, for the poison that haunts these wastes. My name is '', S x,
      L ''. I won't forget yours.\"'']"

definition free_empty :: string where
  "free_empty = ''The cages stand open and empty; someone already cut them loose. The Front will round up more '' @
     ''soon enough -- it always does -- but not yet.''"

definition free_cells :: string where
  "free_cells = ''You wrench the cages open. Rook and Sable stumble out into the dark, some pausing only to '' @
     ''grip your hand on the way past. Whatever else you are, whatever else you've done -- you did '' @ ''this.'' @ crlf"

definition free_none :: string where
  "free_none = ''There is no one here to free.''"

definition rescued_one :: "string \<Rightarrow> string \<Rightarrow> string" where
  "rescued_one x y = sprintf
     [L ''@event grid.rescued {\"savedBy\":\"'', S x, L ''\",\"freed\":[\"'', S y, L ''\"]}'', L crlf]"

definition rescued_two :: "string \<Rightarrow> string \<Rightarrow> string \<Rightarrow> string" where
  "rescued_two x y z = sprintf
     [L ''@event grid.rescued {\"savedBy\":\"'', S x, L ''\",\"freed\":[\"'', S y, L ''\",\"'', S z, L ''\"]}'',
      L crlf]"

definition gridcast_need :: string where
  "gridcast_need = ''Gridcast what? (gridcast <message> -- the dead network carries it to every world)''"

definition gridcast_fail :: string where
  "gridcast_fail = ''The Grid swallows your words; the network is unreachable.''"

definition shelter_wrong :: string where
  "shelter_wrong = ''There's no one here to shelter. The distress call comes from the old transit hub, south off '' @
     ''the Scorch Road.''"

definition shelter_empty :: string where
  "shelter_empty = ''The platform is empty now. Whoever called, you got them moving -- toward the free camp, you '' @
     ''have to believe. The Front will strand others here soon enough; it always does, and the call '' @
     ''will go out again.''"

definition shelter_prose :: string where
  "shelter_prose = ''You answer the call. You get Tess and Jon up and moving -- bottles filled at the tap, the '' @
     ''youngest carried -- and stand watch on the cracked platform while they slip out the far side, '' @
     ''toward the free camp and whatever the free folk can spare. The hand-radio goes quiet at last. '' @
     ''Someone came.'' @ crlf"

definition stats_deny :: string where
  "stats_deny = ''Only a keeper of the Grid can read its deep memory.''"

definition prune_deny :: string where
  "prune_deny = ''Only a keeper of the Grid can tend its deep memory.''"

definition dais_none :: string where
  "dais_none = ''There is no one here to swear to.''"

definition dais_settled :: string where
  "dais_settled = ''The Ashmonger only laughs. There's nothing here to decide that your blood hasn't already '' @ ''settled.''"

definition dais_ash :: string where
  "dais_ash = ''You kneel before the Ashmonger -- an elf, at the feet of the man who cages elves.'' @ crlf @
     ''He laughs, delighted, and burns the ash-and-flame into your shoulder with his own hand.'' @ crlf @
     ''\"The best dogs are the ones who hate themselves. You'll do the work my men won't.\"'' @ crlf @
     ''You are ash-sworn now. There is no one left to belong to.'' @ crlf"

definition dais_plain :: string where
  "dais_plain = ''You kneel and swear yourself to the Front. The Ashmonger's hand closes on your shoulder like '' @
     ''a trap. \"Good. The wastes will be ours.\"''"

definition pledge_echo :: "string \<Rightarrow> string" where
  "pledge_echo x = sprintf
     [S x, L '' swore themselves to the Cinder Front at the Ashmonger's dais.'']"

definition pledge_shout :: "string \<Rightarrow> string" where
  "pledge_shout x = sprintf
     [S x, L '' swore themselves to the Cinder Front at the Ashmonger's dais.'', L crlf]"

definition defy_none :: string where
  "defy_none = ''There's no oath here to break.''"

definition defy_ash :: string where
  "defy_ash = ''You spit at the Ashmonger's boots. \"I'm done being your dog.\" The stronghold turns on you '' @ ''at once.'' @
     crlf @ ''You stand with the free folk now -- but the brand on your shoulder stays. For once you wear '' @
     ''it turning the right way.'' @ crlf @
     ''Whether the people you helped cage can ever look at you again is not a thing the wastes will '' @
     ''settle tonight, or maybe ever. You turned. It has to be enough to start.'' @ crlf"

definition defy_plain :: string where
  "defy_plain = ''You spit at the Ashmonger's boots. \"I'm done being your dog.\" Every soldier in the stronghold '' @
     ''turns on you at once -- but you stand with the free folk now, and the wastes will remember '' @
     ''THIS above all.'' @ crlf"

definition defy_echo :: "string \<Rightarrow> string" where
  "defy_echo x = sprintf
     [S x, L '' turned on the Cinder Front at the Ashmonger's own dais.'']"

definition defy_shout :: "string \<Rightarrow> string" where
  "defy_shout x = sprintf
     [S x, L '' has turned against the Cinder Front!'', L crlf]"

definition forgive_need :: string where
  "forgive_need = ''Forgive whom?  (forgive <player> -- choose to let someone marked back in)''"

definition forgive_self :: string where
  "forgive_self = ''You cannot forgive yourself here; that is a longer road, and a lonelier one.''"

definition forgive_absent :: "string \<Rightarrow> string" where
  "forgive_absent x = sprintf
     [L ''There's no one called \"'', S x, L ''\" here to forgive.'']"

definition forgive_twice :: "string \<Rightarrow> string" where
  "forgive_twice x = sprintf
     [L ''You have already forgiven '', S x, L ''. It was true the first time; it does not need saying twice.'']"

definition forgive_unmarked :: "string \<Rightarrow> string" where
  "forgive_unmarked x = sprintf
     [S x, L '' carries nothing that needs your forgiveness. Keep the words for someone who does.'']"

definition grace :: "string \<Rightarrow> string \<Rightarrow> string" where
  "grace x y = sprintf
     [S x, L '' forgave '', S y, L '' here.'']"

definition forgive_room :: "string \<Rightarrow> string \<Rightarrow> string" where
  "forgive_room x y = sprintf
     [S x, L '' forgives '', S y, L ''.'', L crlf]"

definition forgive_you :: "string \<Rightarrow> string" where
  "forgive_you x = sprintf
     [L ''You choose to forgive '', S x, L ''. Out here that is not nothing; it may be everything.'']"

definition vigil_echo :: "string \<Rightarrow> string \<Rightarrow> string" where
  "vigil_echo x y = sprintf
     [S x, L '' kept the memory of '', S y, L '', whom the wastes tried to forget.'']"

definition witness_self :: string where
  "witness_self = ''You cannot hold a vigil for yourself. Someone else will have to remember you.''"

definition witness_absent :: "string \<Rightarrow> string" where
  "witness_absent x = sprintf
     [L ''The Grid holds no recent memory of anyone called \"'', S x, L ''\".  (try 'witness'', L [CHR 0x27],
      L '' to read the roll)'']"

definition witness_twice :: "string \<Rightarrow> string" where
  "witness_twice x = sprintf
     [L ''You have already kept '', S x, L '''s memory. It does not fade, and does not need keeping twice.'']"

definition witness_prose :: "string \<Rightarrow> string" where
  "witness_prose x = sprintf
     [L ''You speak '', S x, L '' into the hum and hold it there a moment. The Grid keeps the name; so do you.'']"

definition remembrance_event :: "string \<Rightarrow> string \<Rightarrow> string \<Rightarrow> string" where
  "remembrance_event x y z = sprintf
     [L ''@event grid.remembrance {\"fallen\":\"'', S x, L ''\",\"world\":\"'', S y, L ''\",\"room\":\"'', S z,
      L ''\"}'', L crlf]"

definition steal_bad :: string where
  "steal_bad = ''You can't do that here.''"

definition steal_prose :: string where
  "steal_prose = ''You snag a fistful of coin while the vendor drone's back is turned. Your hands shake anyway.''"

definition steal_shout :: "string \<Rightarrow> string" where
  "steal_shout x = sprintf
     [S x, L '' is caught with a hand in the till!'', L crlf]"

definition look_brand_title :: "string \<Rightarrow> string \<Rightarrow> string \<Rightarrow> string" where
  "look_brand_title x y z = sprintf
     [S x, L '', '', S y, L '' ('', S z, L '') stands before you, looking steady.'']"

definition look_brand :: "string \<Rightarrow> string \<Rightarrow> string" where
  "look_brand x y = sprintf
     [S x, L '' ('', S y, L '') stands before you, looking steady.'']"

definition look_plain :: "string \<Rightarrow> string" where
  "look_plain x = sprintf
     [S x, L '' stands before you, looking steady.'']"

definition look_event :: "string \<Rightarrow> string \<Rightarrow> string \<Rightarrow> string \<Rightarrow> string \<Rightarrow> string" where
  "look_event x y z u v = sprintf
     [L ''@event player.read {\"name\":\"'', S x, L ''\",\"title\":\"'', S y, L ''\",\"faction\":\"'', S z,
      L ''\",\"ashsworn\":'', S u, L '',\"regard\":\"'', S v, L ''\"}'', L crlf]"

definition reckoning_head :: string where
  "reckoning_head = ''The Grid has kept count. This is the sum of you so far:''"

definition standing_ash :: "string \<Rightarrow> int \<Rightarrow> string" where
  "standing_ash x y = sprintf
     [L ''  standing: '', S x, L ''   (morality '', I y, L '')   ASH-SWORN'']"

definition standing_text :: "string \<Rightarrow> int \<Rightarrow> string" where
  "standing_text x y = sprintf
     [L ''  standing: '', S x, L ''   (morality '', I y, L '')'']"

definition reckoning_returned :: string where
  "reckoning_returned = ''  the Returned -- you strayed toward the cinders and found your way back.''"

definition reckoning_ash :: string where
  "reckoning_ash = ''  ash-marked, and good anyway -- the brand stays; you keep choosing well regardless.''"

definition reckoning_strayed :: string where
  "reckoning_strayed = ''  strayed -- you have gone a long way toward the cinders. (the way back is not closed)''"

definition reckoning_none :: string where
  "reckoning_none = ''  Nothing yet weighs on either side. The wastes are still waiting to see who you are.''"

definition reckoning_event :: "int \<Rightarrow> string \<Rightarrow> string \<Rightarrow> string \<Rightarrow> string \<Rightarrow> string \<Rightarrow> string" where
  "reckoning_event x y z u v w = sprintf
     [L ''@event char.reckoning {\"morality\":'', I x, L '',\"standing\":\"'', S y, L ''\",\"ashsworn\":'', S z,
      L '',\"strayed\":'', S u, L '',\"redeemed\":'', S v, L '',\"deeds\":'', S w, L ''}'', L crlf]"

definition cache_need :: string where
  "cache_need = ''Cache how much?  (cache <gold> -- leave it here for whoever comes next)''"

definition cache_short :: "int \<Rightarrow> int \<Rightarrow> string" where
  "cache_short x y = sprintf
     [L ''You don't have '', I x, L '' gold to give. (you have '', I y, L '')'']"

definition cache_echo :: "string \<Rightarrow> string" where
  "cache_echo x = sprintf
     [S x, L '' left aid here for whoever comes next.'']"

definition cache_prose :: "int \<Rightarrow> string" where
  "cache_prose x = sprintf
     [L ''You tuck '', I x,
      L '' gold into a hollow where the next traveler will find it. They'll never know your name. You '',
      L ''do it anyway.'']"

definition gather_none :: string where
  "gather_none = ''There's nothing cached here. If you have something to spare, you could change that. (cache '' @ ''<gold>)''"

definition gather_prose :: "int \<Rightarrow> int \<Rightarrow> string" where
  "gather_prose x y = sprintf
     [L ''You find '', I x,
      L '' gold someone cached here. Wherever they are, they meant it for a stranger; tonight that's '',
      L ''you. (gold: '', I y, L '')'']"

definition deed_labels :: "string list" where
  "deed_labels = [''  mended the hurt of others: '', ''  souls you chose to forgive: '',
     ''  aid left for strangers you'll never meet: '', ''  names of the fallen you kept: '',
     ''  souls you cut out of the cages: '', ''  distress calls you answered: '', ''  times you stood with the free folk: '',
     ''  words you left for whoever comes next: '', ''  dead nodes you brought back: '', ''  lives you took: '',
     ''  thefts: '', ''  times you swore to the Cinder Front: '', ''  times you turned on the Front: '']"

section \<open>Rescues\<close>

definition weigh :: "i64 \<Rightarrow> addr \<Rightarrow> 'a store_scheme \<Rightarrow> 'a store_scheme" where
  "weigh n a st = upd_sess a (\<lambda>s. s\<lparr>s_morality := s_morality s + n\<rparr>) st"

definition freed_first :: "string \<Rightarrow> addr \<Rightarrow> 'a store_scheme \<Rightarrow> 'a store_scheme" where
  "freed_first who a st = upd_sess a (\<lambda>s. s\<lparr>s_last_freed := (if s_last_freed s = [] then who else s_last_freed s)\<rparr>) st"

definition record_rescued ::
  "('j, 'w) host \<Rightarrow> outside \<Rightarrow> string \<Rightarrow> addr \<Rightarrow> ('w, 'b) node_scheme \<Rightarrow> ('w, 'b) node_scheme" where
  "record_rescued h x who a st =
     (let now = c_now (o_call x)
      in with_hub (hg_grid_record_rescued (h_env h) now (Some basalt) (Some who) (Some (s_name (sess st a))) now) st)"

definition shift_tide :: "('j, 'w) host \<Rightarrow> i32 \<Rightarrow> ('w, 'b) node_scheme \<Rightarrow> ('w, 'b) node_scheme" where
  "shift_tide h n st = with_hub (hg_grid_shift_tide (h_env h) n) st"

definition free_pit_now ::
  "('j, 'w) host \<Rightarrow> outside \<Rightarrow> addr \<Rightarrow> ('w, 'b) town_scheme \<Rightarrow> ('w, 'b) town_scheme" where
  "free_pit_now h x a st =
     (let st = weigh 12 a (upd_sess a (inv_add_internal ''antidote'') st);
          st = add_deed a DEED_FREED (freed_first ''Mira'' a st);
          st = record_rescued h x ''Mira'' a st;
          st = line_buf 320 a (free_pit ''Mira'') st;
          st = tell_buf 80 a (rescued_one (esc 80 (s_name (sess st a))) (esc 80 ''Mira'')) st;
          st = hg_emit_affects_now a (shift_tide h 0 st)
      in save h x a st)"

definition free_cells_now ::
  "('j, 'w) host \<Rightarrow> outside \<Rightarrow> addr \<Rightarrow> ('w, 'b) town_scheme \<Rightarrow> ('w, 'b) town_scheme" where
  "free_cells_now h x a st =
     (let st = st\<lparr>t_cells_ready := c_now (o_call x) + 3600000\<rparr>;
          st = add_deed a DEED_FREED (freed_first ''Rook'' a st);
          st = record_rescued h x ''Sable'' a (record_rescued h x ''Rook'' a st);
          st = say_text a free_cells (weigh 15 a st);
          st = tell_buf 160 a (rescued_two (esc 80 (s_name (sess st a))) ''Rook'' ''Sable'') st
      in save h x a (hg_emit_affects_now a st))"

definition hg_cmd_free ::
  "('j, 'w) host \<Rightarrow> outside \<Rightarrow> addr \<Rightarrow> addr \<Rightarrow> ('w, 'b) town_scheme \<Rightarrow> ('w, 'b) town_scheme" where
  "hg_cmd_free h x a wsi st =
     (let st = setup_cmd a wsi st; room = s_room (sess st a)
      in if room = 3 then
           (if inv_find_slot (o_stale x) (Some ''antidote'') (sess st a) \<noteq> None then say_line a free_have st
            else free_pit_now h x a st)
         else if room = 21 then
           (if c_now (o_call x) <s t_cells_ready st then say_line a free_empty st else free_cells_now h x a st)
         else say_line a free_none st)"

definition hg_cmd_shelter ::
  "('j, 'w) host \<Rightarrow> outside \<Rightarrow> addr \<Rightarrow> addr \<Rightarrow> ('w, 'b) town_scheme \<Rightarrow> ('w, 'b) town_scheme" where
  "hg_cmd_shelter h x a wsi st =
     (let st = setup_cmd a wsi st
      in if s_room (sess st a) \<noteq> 17 then say_line a shelter_wrong st
         else if c_now (o_call x) <s t_transit_ready st then say_line a shelter_empty st
         else
           let st = st\<lparr>t_transit_ready := c_now (o_call x) + 3600000\<rparr>;
               st = add_deed a DEED_SHELTERED (freed_first ''Tess'' a st);
               st = record_rescued h x ''Jon'' a (record_rescued h x ''Tess'' a st);
               st = say_text a shelter_prose (weigh 15 a st);
               st = tell_buf 160 a (rescued_two (esc 80 (s_name (sess st a))) ''Tess'' ''Jon'') st
           in save h x a (hg_emit_affects_now a st))"

section \<open>The Grid\<close>

text \<open>\<^verbatim>\<open>gridcast\<close> skips the blanks of its argument without a test for NULL.\<close>

definition hg_cmd_gridcast ::
  "('j, 'w) host \<Rightarrow> addr \<Rightarrow> addr \<Rightarrow> string option \<Rightarrow> ('w, 'b) node_scheme \<Rightarrow> mem_error + ('w, 'b) node_scheme" where
  "hg_cmd_gridcast h a wsi arg st =
     (let st = setup_cmd a wsi st
      in case arg of
        None \<Rightarrow> Inl (Bad_address 0)
      | Some arg \<Rightarrow>
          let t = skip_spaces arg
          in if t = [] then Inr (say_line a gridcast_need st)
             else
               let (rc, g) = hg_grid_gridcast (h_env h) (Some (s_name (sess st a))) (Some t) (n_grid st);
                   st = st\<lparr>n_grid := g\<rparr>
               in Inr (if rc \<noteq> 0 then say_line a gridcast_fail st else hg_emit_comm_gridcast_now a (Some t) g st))"

text \<open>A report of the formatting layer as a command of the node.\<close>

definition report ::
  "('w grid \<Rightarrow> ('w, 'b) node_scheme \<Rightarrow> (mem_error + ('w, 'b) node_scheme) \<times> 'w grid) \<Rightarrow> ('w, 'b) node_scheme
     \<Rightarrow> mem_error + ('w, 'b) node_scheme" where
  "report f st = (let (r, g) = f (n_grid st) st in ebind r (\<lambda>st. Inr (st\<lparr>n_grid := g\<rparr>)))"

definition hg_cmd_saved ::
  "('j, 'w) host \<Rightarrow> addr \<Rightarrow> addr \<Rightarrow> ('w, 'b) node_scheme \<Rightarrow> mem_error + ('w, 'b) node_scheme" where
  "hg_cmd_saved h a wsi st = report (hg_emit_saved_roll_now (h_env h) a) (setup_cmd a wsi st)"

definition keeper :: "('j, 'w) host \<Rightarrow> session \<Rightarrow> bool" where
  "keeper h s \<longleftrightarrow> hg_is_admin (h_admins h) (Some (s_name s)) \<and> s_keeper_authed s \<noteq> 0"

definition hg_cmd_gridstats ::
  "('j, 'w) host \<Rightarrow> addr \<Rightarrow> addr \<Rightarrow> ('w, 'b) node_scheme \<Rightarrow> mem_error + ('w, 'b) node_scheme" where
  "hg_cmd_gridstats h a wsi st =
     (let st = setup_cmd a wsi st
      in if keeper h (sess st a) then report (hg_emit_gridstats_cmd_now (h_env h) a) st else Inr (say_line a stats_deny st))"

definition hg_cmd_gridprune ::
  "('j, 'w) host \<Rightarrow> addr \<Rightarrow> addr \<Rightarrow> ('w, 'b) node_scheme \<Rightarrow> mem_error + ('w, 'b) node_scheme" where
  "hg_cmd_gridprune h a wsi st =
     (let st = setup_cmd a wsi st
      in if keeper h (sess st a) then report (hg_emit_gridprune_cmd_now (h_env h) a) st else Inr (say_line a prune_deny st))"

definition hg_cmd_who ::
  "('j, 'w) host \<Rightarrow> addr \<Rightarrow> addr \<Rightarrow> ('w, 'b) node_scheme \<Rightarrow> ('w, 'b) node_scheme" where
  "hg_cmd_who h a wsi st =
     (let st = setup_cmd a wsi st; (st', g) = hg_emit_grid_who_now (h_env h) a (n_grid st) st in st'\<lparr>n_grid := g\<rparr>)"

section \<open>Forgiveness\<close>

definition needs_mercy :: "session \<Rightarrow> bool" where
  "needs_mercy s \<longleftrightarrow> s_ashsworn s \<noteq> 0 \<or> s_strayed s \<noteq> 0 \<or> s_faction s = ''front'' \<or> s_morality s \<le>s -50"

text \<open>What forgiveness does to the one forgiven.\<close>

definition absolve ::
  "('j, 'w) host \<Rightarrow> outside \<Rightarrow> addr \<Rightarrow> addr \<Rightarrow> ('w, 'b) node_scheme \<Rightarrow> ('w, 'b) node_scheme" where
  "absolve h x a b st =
     (let s = sess st b
      in if s_ashsworn s \<noteq> 0 then hg_emit_forgiven_target_now b a 1 0 st
         else if s_strayed s = 0 \<or> s_redeemed s \<noteq> 0 \<or> s_faction s = ''front'' then hg_emit_forgiven_target_now b a 0 0 st
         else
           let st = upd_sess b (\<lambda>s. s\<lparr>s_redeemed := 1, s_title := (if s_title s = [] then the_returned else s_title s)\<rparr>) st
           in hg_emit_forgiven_redeemed_now b a (save h x b st))"

definition forgive_now ::
  "('j, 'w) host \<Rightarrow> outside \<Rightarrow> addr \<Rightarrow> addr \<Rightarrow> ('w, 'b) town_scheme \<Rightarrow> ('w, 'b) town_scheme" where
  "forgive_now h x a b st =
     (let me = s_name (sess st a); them = s_name (sess st b);
          st = st\<lparr>t_forgiven := hg_forgiven_mark me them (t_forgiven st)\<rparr>;
          st = st\<lparr>t_deeds := hg_deed_add_str (Some me) (Some ''forgave'') (t_deeds st)\<rparr>;
          st = weigh 2 a (weigh 5 b st);
          st = echo x (room_or a ''market'' st) ''grace'' (snd (snprintf 160 (grace me them))) st;
          st = absolve h x a b st;
          st = hg_deliver_room (s_room (sess st a)) (Some (snd (snprintf 160 (forgive_room me them)))) (Some me) st;
          st = line_buf 160 a (forgive_you them) st
      in hg_emit_affects_now a st)"

definition hg_cmd_forgive ::
  "('j, 'w) host \<Rightarrow> outside \<Rightarrow> addr \<Rightarrow> addr \<Rightarrow> string option \<Rightarrow> ('w, 'b) town_scheme \<Rightarrow> ('w, 'b) town_scheme" where
  "hg_cmd_forgive h x a wsi arg st =
     (let st = setup_cmd a wsi st; w = first_word (skip_spaces (or_default arg [])); me = s_name (sess st a)
      in if w = [] then say_line a forgive_need st
         else if case_eq w me then say_line a forgive_self st
         else let b = find_player_prefix (s_room (sess st a)) (Some w) None st; them = s_name (sess st b)
           in if b = 0 then line_buf 120 a (forgive_absent w) st
              else if hg_forgiven_has me them (t_forgiven st) then line_buf 160 a (forgive_twice them) st
              else if \<not> needs_mercy (sess st b) then line_buf 160 a (forgive_unmarked them) st
              else forgive_now h x a b st)"

section \<open>Memory of the fallen\<close>

definition witness_now ::
  "('j, 'w) host \<Rightarrow> outside \<Rightarrow> addr \<Rightarrow> fallen_row \<Rightarrow> ('w, 'b) town_scheme \<Rightarrow> ('w, 'b) town_scheme" where
  "witness_now h x a r st =
     (let me = s_name (sess st a);
          st = weigh 2 a (st\<lparr>t_kept := hg_kept_mark me (fl_name r) (t_kept st)\<rparr>);
          st = save h x a (st\<lparr>t_deeds := hg_deed_add_str (Some me) (Some ''kept'') (t_deeds st)\<rparr>);
          st = echo x (room_or a ''waystation'' st) ''vigil'' (snd (snprintf 160 (vigil_echo me (fl_name r)))) st;
          st = line_buf 160 a (witness_prose (fl_name r)) st;
          st = tell_buf 280 a (remembrance_event (esc 40 (fl_name r)) (esc 48 (fl_world r)) (esc 40 (fl_room r))) st
      in hg_emit_affects_now a st)"

definition hg_cmd_witness ::
  "('j, 'w) host \<Rightarrow> outside \<Rightarrow> addr \<Rightarrow> addr \<Rightarrow> string option \<Rightarrow> ('w, 'b) town_scheme
     \<Rightarrow> mem_error + ('w, 'b) town_scheme" where
  "hg_cmd_witness h x a wsi arg st =
     (let st = setup_cmd a wsi st; w = first_word (skip_spaces (or_default arg [])); me = s_name (sess st a);
          ((_, rows), g) = hg_grid_recent_fallen (h_env h) 12 12 (n_grid st);
          st = st\<lparr>n_grid := g\<rparr>
      in if w = [] then report (hg_emit_fallen_roll_now (h_env h) a) st
         else if case_eq w me then Inr (say_line a witness_self st)
         else case find (\<lambda>r. case_eq (fl_name r) w) rows of
           None \<Rightarrow> Inr (line_buf 160 a (witness_absent w) st)
         | Some r \<Rightarrow>
             if hg_kept_has me (fl_name r) (t_kept st) then Inr (line_buf 160 a (witness_twice (fl_name r)) st)
             else Inr (witness_now h x a r st))"

section \<open>Oaths\<close>

definition hunted_race :: "session \<Rightarrow> bool" where
  "hunted_race s \<longleftrightarrow> case_eq (s_race s) ''elf'' \<or> case_eq (s_race s) ''dustkin''"

text \<open>The shout and the echo of an oath at the dais.\<close>

definition oath_told ::
  "('j, 'w) host \<Rightarrow> outside \<Rightarrow> addr \<Rightarrow> string \<Rightarrow> string \<Rightarrow> ('w, 'b) node_scheme \<Rightarrow> ('w, 'b) node_scheme" where
  "oath_told h x a echoed shout st =
     (let st = echo x ''dais'' ''oath'' (snd (snprintf 160 echoed)) st
      in hg_deliver_room 23 (Some (snd (snprintf 160 shout))) (Some (s_name (sess st a))) (save h x a st))"

definition dais_emit :: "addr \<Rightarrow> 'a store_scheme \<Rightarrow> 'a store_scheme" where
  "dais_emit a st = hg_emit_room_actions_now a (hg_emit_vitals_now a (Some ''dais'') (hg_emit_affects_now a st))"

definition hg_dais_pledge ::
  "('j, 'w) host \<Rightarrow> outside \<Rightarrow> addr \<Rightarrow> ('w, 'b) town_scheme \<Rightarrow> ('w, 'b) town_scheme" where
  "hg_dais_pledge h x a st =
     (if s_room (sess st a) \<noteq> 23 then say_line a dais_none st
      else if \<not> o_zf x (s_faction (sess st a)) ''none'' then say_line a dais_settled st
      else
        let st = upd_sess a (\<lambda>s. s\<lparr>s_faction := ''front''\<rparr>) st;
            st = (if hunted_race (sess st a)
                  then say_text a dais_ash (weigh (-40) a (upd_sess a (\<lambda>s. s\<lparr>s_ashsworn := 1\<rparr>) st))
                  else say_line a dais_plain (weigh (-25) a st));
            st = shift_tide h (-10) (add_deed a DEED_PLEDGED st);
            st = oath_told h x a (pledge_echo (s_name (sess st a))) (pledge_shout (s_name (sess st a))) st
        in dais_emit a (hg_moral_arc_now h x a st))"

definition hg_cmd_defy ::
  "('j, 'w) host \<Rightarrow> outside \<Rightarrow> addr \<Rightarrow> addr \<Rightarrow> ('w, 'b) town_scheme \<Rightarrow> ('w, 'b) town_scheme" where
  "hg_cmd_defy h x a wsi st =
     (let st = setup_cmd a wsi st
      in if s_room (sess st a) \<noteq> 23 \<or> \<not> o_zf x (s_faction (sess st a)) ''front'' then say_line a defy_none st
         else
           let st = weigh 30 a (upd_sess a (\<lambda>s. s\<lparr>s_faction := ''ally''\<rparr>) st);
               st = say_text a (if s_ashsworn (sess st a) \<noteq> 0 then defy_ash else defy_plain) st;
               st = shift_tide h 10 (add_deed a DEED_DEFECTED st);
               st = oath_told h x a (defy_echo (s_name (sess st a))) (defy_shout (s_name (sess st a))) st;
               s = sess st a
           in dais_emit a (if s_strayed s \<noteq> 0 \<and> s_redeemed s = 0 \<and> s_ashsworn s = 0 \<and> REDEEM_CEIL \<le>s s_morality s
                then resolve_return_h h x a st else hg_moral_arc_now h x a st))"

definition hg_cmd_join ::
  "('j, 'w) host \<Rightarrow> outside \<Rightarrow> addr \<Rightarrow> addr \<Rightarrow> ('w, 'b) town_scheme \<Rightarrow> ('w, 'b) town_scheme" where
  "hg_cmd_join h x a wsi st =
     (let st = setup_cmd a wsi st
      in if s_room (sess st a) = 23 then hg_dais_pledge h x a st
         else if s_room (sess st a) \<noteq> 2 \<or> s_mkt_resolved (sess st a) \<noteq> 0 then hg_session_queue a wsi no_oath st
         else
           let st = upd_sess a (\<lambda>s. s\<lparr>s_mkt_resolved := 1, s_faction := ''front''\<rparr>) st;
               st = (if hunted_race (sess st a)
                     then hg_session_queue a wsi join_ash_prose (weigh (-40) a (upd_sess a (\<lambda>s. s\<lparr>s_ashsworn := 1\<rparr>) st))
                     else hg_session_queue a wsi join_prose (weigh (-15) a st));
               st = hg_join_record_oath x a (hg_emit_vitals_dyn a wsi (hg_emit_affects_dyn a wsi st))
           in save h x a (hg_moral_arc_now h x a (shift_tide h (-10) st)))"

definition hg_cmd_defend ::
  "('j, 'w) host \<Rightarrow> outside \<Rightarrow> addr \<Rightarrow> addr \<Rightarrow> ('w, 'b) node_scheme \<Rightarrow> ('w, 'b) node_scheme" where
  "hg_cmd_defend h x a wsi st =
     (let st = setup_cmd a wsi st
      in if s_room (sess st a) \<noteq> 2 \<or> s_mkt_resolved (sess st a) \<noteq> 0 then hg_session_queue a wsi no_stand st
         else
           let st = weigh 25 a (upd_sess a (\<lambda>s. s\<lparr>s_mkt_resolved := 2, s_faction := ''ally''\<rparr>) st);
               st = upd_sess a (hg_inv_add_item ''charm'') st;
               st = hg_session_queue a wsi defend_prose st;
               st = hg_emit_vitals_dyn a wsi (hg_emit_affects_dyn a wsi st)
           in save h x a (shift_tide h 10 st))"

section \<open>Theft, sight, and the reckoning\<close>

definition hg_cmd_steal ::
  "('j, 'w) host \<Rightarrow> outside \<Rightarrow> addr \<Rightarrow> addr \<Rightarrow> ('w, 'b) town_scheme \<Rightarrow> ('w, 'b) town_scheme" where
  "hg_cmd_steal h x a wsi st =
     (let st = setup_cmd a wsi st
      in if s_room (sess st a) \<noteq> 2 then say_line a steal_bad st
         else
           let st = upd_sess a (\<lambda>s. s\<lparr>s_gold := s_gold s + 12\<rparr>) (weigh (-8) a st);
               st = save h x a (add_deed a DEED_STOLEN st);
               me = s_name (sess st a); room = s_room (sess st a);
               st = hg_deliver_room room (Some (snd (snprintf 120 (steal_shout me)))) (Some me) st;
               st = say_line a steal_prose st;
               st = hg_emit_affects_now a (hg_emit_vitals_now a (hg_room_id room) st)
           in moral_arc_h h x a st)"

definition look_line :: "session \<Rightarrow> string" where
  "look_line s =
     (let brand = hg_brand_standing (Some s)
      in if brand = [] then look_plain (s_name s)
         else if s_title s = [] then look_brand (s_name s) brand
         else look_brand_title (s_name s) (s_title s) brand)"

text \<open>The player that is looked at is told of in a line and an event; false when there is none.\<close>

definition hg_cmd_look_player :: "addr \<Rightarrow> addr \<Rightarrow> string option \<Rightarrow> 'a wstate_scheme \<Rightarrow> bool \<times> 'a wstate_scheme" where
  "hg_cmd_look_player a wsi arg st =
     (let st = setup_cmd a wsi st; t = skip_spaces (or_default arg []);
          b = find_player_prefix (s_room (sess st a)) (Some t) (Some (s_name (sess st a))) st; s = sess st b
      in if b = 0 then (False, st)
         else (True, tell_buf 168 a (look_event (esc 80 (s_name s)) (esc 80 (s_title s)) (esc 40 (s_faction s))
                 (fmt_bool (s_ashsworn s \<noteq> 0)) (esc 40 (hg_regard_of s))) (line_buf 240 a (look_line s) st)))"

text \<open>The deeds as a JSON object in 640 bytes, and a line for each kind that was done.\<close>

fun deeds_loop :: "(nat \<Rightarrow> i32) \<Rightarrow> nat list \<Rightarrow> string \<Rightarrow> string" where
  "deeds_loop tally [] buf = buf"
| "deeds_loop tally (k # ks) buf =
     deeds_loop tally ks (take 620 (buf @ snd (snprintf (640 - length buf) (sprintf
       [L (if k = 0 then [] else '',''), L ''\"'', S (deed_names ! k), L ''\":'', I (sint (tally k))]))))"

definition deeds_text :: "(nat \<Rightarrow> i32) \<Rightarrow> string" where
  "deeds_text tally = deeds_loop tally [0..<13] ''{'' @ ''}''"

definition deed_lines :: "(nat \<Rightarrow> i32) \<Rightarrow> string list" where
  "deed_lines tally = map (\<lambda>k. snd (snprintf 128 (deed_labels ! k @ int_dec (sint (tally k)))))
     (filter (\<lambda>k. 0 <s tally k) [0..<13])"

definition hg_emit_char_reckoning_now :: "addr \<Rightarrow> ('w, 'b) town_scheme \<Rightarrow> ('w, 'b) town_scheme" where
  "hg_emit_char_reckoning_now a st =
     (let s = sess st a; tally = (\<lambda>k. hg_deed_count_h (s_name s) k (t_deeds st));
          st = say_line a reckoning_head st;
          label = (if s_faction s = ''front'' then ''Cinder Front'' else if s_faction s = ''ally'' then ''Free Folk ally''
                   else ''unaligned'');
          st = line_buf 160 a ((if s_ashsworn s = 0 then standing_text else standing_ash) label (sint (s_morality s))) st;
          st = (if s_redeemed s \<noteq> 0 then say_line a (if s_ashsworn s \<noteq> 0 then reckoning_ash else reckoning_returned) st
                else if s_strayed s \<noteq> 0 then say_line a reckoning_strayed st else st);
          st = fold (say_line a) (deed_lines tally) st;
          st = (if deed_lines tally = [] then say_line a reckoning_none st else st)
      in tell_buf 800 a (reckoning_event (sint (s_morality s)) (esc 48 (if s_faction s = [] then ''none'' else s_faction s))
           (fmt_bool (s_ashsworn s \<noteq> 0)) (fmt_bool (s_strayed s \<noteq> 0)) (fmt_bool (s_redeemed s \<noteq> 0)) (deeds_text tally)) st)"

definition hg_cmd_reckoning :: "addr \<Rightarrow> addr \<Rightarrow> ('w, 'b) town_scheme \<Rightarrow> ('w, 'b) town_scheme" where
  "hg_cmd_reckoning a wsi st = hg_emit_char_reckoning_now a (setup_cmd a wsi st)"

section \<open>Caches\<close>

text \<open>\<^verbatim>\<open>atoll\<close>: blanks, a sign, digits; a number out of range becomes the nearest one in range.\<close>

definition atoll :: "string \<Rightarrow> i64" where
  "atoll t =
     (let t = dropWhile isspace t; neg = (t \<noteq> [] \<and> hd t = CHR ''-'');
          t = (if t \<noteq> [] \<and> (hd t = CHR ''-'' \<or> hd t = CHR ''+'') then tl t else t);
          n = int (dec_val (takeWhile is_digit t))
      in word_of_int (max (- (2 ^ 63)) (min (2 ^ 63 - 1) (if neg then - n else n))))"

definition hg_cmd_cache ::
  "('j, 'w) host \<Rightarrow> outside \<Rightarrow> addr \<Rightarrow> addr \<Rightarrow> string option \<Rightarrow> ('w, 'b) node_scheme \<Rightarrow> ('w, 'b) node_scheme" where
  "hg_cmd_cache h x a wsi arg st =
     (let st = setup_cmd a wsi st; n = atoll (skip_spaces (or_default arg [])); room = s_room (sess st a)
      in if arg = None \<or> n \<le>s 0 then say_line a cache_need st
         else if s_gold (sess st a) <s n then line_buf 120 a (cache_short (sint n) (sint (s_gold (sess st a)))) st
         else if room <s 0 \<or> 64 \<le>s room then st
         else
           let st = upd_sess a (\<lambda>s. s\<lparr>s_gold := s_gold s - n\<rparr>) st;
               st = save h x a (weigh 2 a (hg_cache_gold_add room n st));
               st = echo x (or_default (hg_room_id room) ''nexus'') ''aid'' (snd (snprintf 160 (cache_echo (s_name (sess st a))))) st;
               st = line_buf 120 a (cache_prose (sint n)) st
           in hg_emit_affects_now a (hg_emit_vitals_now a (hg_room_id room) st))"

definition hg_cmd_gather ::
  "('j, 'w) host \<Rightarrow> outside \<Rightarrow> addr \<Rightarrow> addr \<Rightarrow> ('w, 'b) node_scheme \<Rightarrow> ('w, 'b) node_scheme" where
  "hg_cmd_gather h x a wsi st =
     (let st = setup_cmd a wsi st; room = s_room (sess st a); n = hg_cache_gold_peek room st
      in if n \<le>s 0 then say_line a gather_none st
         else
           let st = upd_sess a (\<lambda>s. s\<lparr>s_gold := s_gold s + n\<rparr>) (snd (hg_cache_gold_take room st));
               st = save h x a st;
               st = line_buf 200 a (gather_prose (sint n) (sint (s_gold (sess st a)))) st
           in hg_emit_vitals_now a (hg_room_id room) st)"

end
