(* ===== verification/World.thy ===== *)
theory World
  imports Moral
begin

text \<open>
  \<^verbatim>\<open>hg_world_command\<close> of \<^verbatim>\<open>asm/world.asm\<close>: the line of a player in the world is a look, a move, or the
  first command of a table that it matches, and the command is run.  With it the parameter of \<open>Login\<close> is given.
\<close>

section \<open>The table\<close>

text \<open>A row is a word and its command; a row with a number matches every line that starts with the word, and hands the
  command the line from that byte on.  The others match a line that is the word and hand over NULL.\<close>

datatype verb = V_wield | V_remove | V_attack | V_consider | V_exits | V_sleep | V_stand | V_rest | V_talk | V_buy | V_wall |
    V_tell | V_reply | V_yell | V_emote | V_mend | V_give | V_gridcast | V_list | V_war | V_shelter | V_saved |
    V_cache | V_gather | V_treat | V_sell | V_steal | V_sense | V_forgive | V_join | V_defend | V_defy | V_witness
    | V_reckoning | V_gridstats | V_gridprune | V_ping | V_world | V_listen | V_whoami | V_worlds | V_travel |
    V_title | V_who | V_free | V_recall | V_affects | V_inscribe | V_down | V_up | V_help | V_inventory |
    V_equipment | V_ability | V_quit

definition command_table :: "(string \<times> nat option \<times> verb) list" where
  "command_table =
    [(''wield'', None, V_wield), (''wield '', Some 6, V_wield), (''remove'', None, V_remove),
          (''remove '', Some 7, V_remove), (''unwield'', None, V_remove), (''unwield '', Some 7, V_remove),
          (''attack'', None, V_attack), (''attack '', Some 7, V_attack), (''kill'', None, V_attack),
          (''kill '', Some 5, V_attack), (''k'', None, V_attack), (''k '', Some 2, V_attack),
          (''consider'', None, V_consider), (''consider '', Some 9, V_consider), (''con'', None, V_consider),
          (''con '', Some 4, V_consider), (''exits'', None, V_exits), (''exit'', None, V_exits),
          (''sleep'', None, V_sleep), (''stand'', None, V_stand), (''wake'', None, V_stand), (''rest'', None, V_rest),
          (''talk'', None, V_talk), (''ask'', None, V_talk), (''buy'', None, V_buy), (''buy '', Some 4, V_buy),
          (''wall'', None, V_wall), (''wall '', Some 5, V_wall), (''tell'', None, V_tell), (''tell '', Some 5, V_tell),
          (''reply'', None, V_reply), (''reply '', Some 6, V_reply), (''yell'', None, V_yell), (''yell '', Some 5, V_yell),
          (''emote'', None, V_emote), (''emote '', Some 6, V_emote), (''mend'', None, V_mend), (''mend '', Some 5, V_mend),
          (''give'', None, V_give), (''give '', Some 5, V_give), (''gridcast'', None, V_gridcast),
          (''gridcast '', Some 9, V_gridcast), (''gc'', None, V_gridcast), (''gc '', Some 3, V_gridcast),
          (''list'', None, V_list), (''war'', None, V_war), (''shelter'', None, V_shelter), (''saved'', None, V_saved),
          (''cache'', None, V_cache), (''cache '', Some 6, V_cache), (''gather'', None, V_gather),
          (''treat'', None, V_treat), (''sell'', None, V_sell), (''sell '', Some 5, V_sell), (''steal'', None, V_steal),
          (''sense'', None, V_sense), (''actions'', None, V_sense), (''forgive'', None, V_forgive),
          (''forgive '', Some 8, V_forgive), (''absolve'', None, V_forgive), (''absolve '', Some 8, V_forgive),
          (''pardon'', None, V_forgive), (''pardon '', Some 7, V_forgive), (''join'', None, V_join),
          (''defend'', None, V_defend), (''oppose'', None, V_defend), (''defy'', None, V_defy), (''defect'', None, V_defy),
          (''witness'', None, V_witness), (''witness '', Some 8, V_witness), (''remember'', None, V_witness),
          (''remember '', Some 9, V_witness), (''mourn'', None, V_witness), (''mourn '', Some 6, V_witness),
          (''reckoning'', None, V_reckoning), (''conscience'', None, V_reckoning), (''record'', None, V_reckoning),
          (''gridstats'', None, V_gridstats), (''gridprune'', None, V_gridprune), (''ping'', None, V_ping),
          (''ping '', Some 5, V_ping), (''world'', None, V_world), (''weather'', None, V_world), (''time'', None, V_world),
          (''listen'', None, V_listen), (''tune'', None, V_listen), (''whoami'', None, V_whoami),
          (''identity'', None, V_whoami), (''worlds'', None, V_worlds), (''travel'', None, V_travel),
          (''travel '', Some 7, V_travel), (''gate'', None, V_travel), (''title'', None, V_title),
          (''title '', Some 6, V_title), (''who'', None, V_who), (''free'', None, V_free), (''rescue'', None, V_free),
          (''release'', None, V_free), (''unlock'', None, V_free), (''liberate'', None, V_free),
          (''unchain'', None, V_free), (''unshackle'', None, V_free), (''untie'', None, V_free),
          (''recall'', None, V_recall), (''home'', None, V_recall), (''affects'', None, V_affects),
          (''inscribe'', None, V_inscribe), (''inscribe '', Some 9, V_inscribe), (''down'', None, V_down),
          (''d'', None, V_down), (''up'', None, V_up), (''u'', None, V_up), (''help'', None, V_help),
          (''?'', None, V_help), (''inventory'', None, V_inventory), (''inv'', None, V_inventory),
          (''i'', None, V_inventory), (''equipment'', None, V_equipment), (''eq'', None, V_equipment),
          (''ability'', None, V_ability), (''trait'', None, V_ability), (''quit'', None, V_quit)]"

definition matches :: "string \<Rightarrow> string \<times> nat option \<times> verb \<Rightarrow> bool" where
  "matches line row = (case row of (w, off, _) \<Rightarrow> if off = None then case_eq line w else ncase_eq (length w) line w)"

fun dispatch :: "(string \<times> nat option \<times> verb) list \<Rightarrow> string \<Rightarrow> (verb \<times> string option) option" where
  "dispatch [] line = None"
| "dispatch (row # rows) line =
     (if matches line row then Some (snd (snd row), map_option (\<lambda>n. drop n line) (fst (snd row))) else dispatch rows line)"

section \<open>The commands\<close>

definition cant_move :: string where
  "cant_move = ''The declared ways do not lead there.'' @ crlf"

definition hg_help :: string where
  "hg_help = ''Commands: look, exits, north/south/east/west/up/down, go <dir>, inventory, equipment, wield, '' @
     ''remove, attack, consider, rest, stand, sleep, join, defend, ping [all], listen, whoami, worlds, '' @
     ''travel <world>, gate, world, ability, help, quit'' @ crlf"

definition hg_goodbye :: string where
  "hg_goodbye = ''The Relay records the handoff. Connection closed.'' @ crlf"

definition hg_unknown_command :: string where
  "hg_unknown_command = ''The Relay has no instruction by that name. Type help.'' @ crlf"

definition scene :: "addr \<Rightarrow> addr \<Rightarrow> 'a wstate_scheme \<Rightarrow> 'a wstate_scheme" where
  "scene a wsi st = hg_emit_scene a wsi st"

definition go_to :: "addr \<Rightarrow> addr \<Rightarrow> i64 \<Rightarrow> 'a wstate_scheme \<Rightarrow> 'a wstate_scheme" where
  "go_to a wsi room st = scene a wsi (upd_sess a (\<lambda>s. s\<lparr>s_room := room\<rparr>) st)"

definition way_from ::
  "i64 \<Rightarrow> i64 \<Rightarrow> addr \<Rightarrow> addr \<Rightarrow> 'a wstate_scheme \<Rightarrow> 'a wstate_scheme" where
  "way_from here there a wsi st =
     (if s_room (sess st a) \<noteq> here then hg_session_queue a wsi cant_move st else go_to a wsi there st)"

fun run_verb ::
  "verb \<Rightarrow> ('j, 'w) host \<Rightarrow> outside \<Rightarrow> addr \<Rightarrow> addr \<Rightarrow> string option \<Rightarrow> ('w, 'b) town_scheme
     \<Rightarrow> mem_error + ('w, 'b) town_scheme" where
  "run_verb V_wield h x a wsi arg st = Inr (hg_cmd_wield a wsi arg st)"
| "run_verb V_remove h x a wsi arg st = Inr (hg_cmd_remove a wsi arg st)"
| "run_verb V_attack h x a wsi arg st = Inr (hg_cmd_attack (o_call x) a wsi arg st)"
| "run_verb V_consider h x a wsi arg st = hg_cmd_consider a wsi arg st"
| "run_verb V_exits h x a wsi arg st = hg_cmd_exits a wsi st"
| "run_verb V_sleep h x a wsi arg st = Inr (hg_cmd_sleep a wsi st)"
| "run_verb V_stand h x a wsi arg st = Inr (hg_cmd_stand a wsi st)"
| "run_verb V_rest h x a wsi arg st = Inr (hg_cmd_rest a wsi st)"
| "run_verb V_talk h x a wsi arg st = Inr (hg_cmd_talk (o_zf x) a wsi st)"
| "run_verb V_buy h x a wsi arg st = Inr (hg_cmd_buy h x a wsi arg st)"
| "run_verb V_wall h x a wsi arg st = Inr (hg_cmd_wall (h_admins h) a wsi arg st)"
| "run_verb V_tell h x a wsi arg st = hg_cmd_tell a wsi arg st"
| "run_verb V_reply h x a wsi arg st = hg_cmd_reply a wsi arg st"
| "run_verb V_yell h x a wsi arg st = Inr (hg_cmd_yell (o_zfcase x) a wsi arg st)"
| "run_verb V_emote h x a wsi arg st = Inr (hg_cmd_emote a wsi arg st)"
| "run_verb V_mend h x a wsi arg st = Inr (hg_cmd_mend a wsi arg st)"
| "run_verb V_give h x a wsi arg st = hg_cmd_give h x a wsi arg st"
| "run_verb V_gridcast h x a wsi arg st = hg_cmd_gridcast h a wsi arg st"
| "run_verb V_list h x a wsi arg st = Inr (hg_cmd_list a wsi st)"
| "run_verb V_war h x a wsi arg st = Inr (hg_cmd_war h x a wsi st)"
| "run_verb V_shelter h x a wsi arg st = Inr (hg_cmd_shelter h x a wsi st)"
| "run_verb V_saved h x a wsi arg st = hg_cmd_saved h a wsi st"
| "run_verb V_cache h x a wsi arg st = Inr (hg_cmd_cache h x a wsi arg st)"
| "run_verb V_gather h x a wsi arg st = Inr (hg_cmd_gather h x a wsi st)"
| "run_verb V_treat h x a wsi arg st = Inr (hg_cmd_treat h x a wsi st)"
| "run_verb V_sell h x a wsi arg st = Inr (hg_cmd_sell a wsi arg st)"
| "run_verb V_steal h x a wsi arg st = Inr (hg_cmd_steal h x a wsi st)"
| "run_verb V_sense h x a wsi arg st = Inr (hg_cmd_sense a wsi st)"
| "run_verb V_forgive h x a wsi arg st = Inr (hg_cmd_forgive h x a wsi arg st)"
| "run_verb V_join h x a wsi arg st = Inr (hg_cmd_join h x a wsi st)"
| "run_verb V_defend h x a wsi arg st = Inr (hg_cmd_defend h x a wsi st)"
| "run_verb V_defy h x a wsi arg st = Inr (hg_cmd_defy h x a wsi st)"
| "run_verb V_witness h x a wsi arg st = hg_cmd_witness h x a wsi arg st"
| "run_verb V_reckoning h x a wsi arg st = Inr (hg_cmd_reckoning a wsi st)"
| "run_verb V_gridstats h x a wsi arg st = hg_cmd_gridstats h a wsi st"
| "run_verb V_gridprune h x a wsi arg st = hg_cmd_gridprune h a wsi st"
| "run_verb V_ping h x a wsi arg st = report (hg_cmd_ping (h_env h) (o_low x) a wsi arg) st"
| "run_verb V_world h x a wsi arg st = Inr (hg_cmd_world a wsi st)"
| "run_verb V_listen h x a wsi arg st = report (hg_cmd_listen (h_env h) (o_rand x) a wsi) st"
| "run_verb V_whoami h x a wsi arg st =
     Inr (let (st', g) = hg_cmd_whoami (h_env h) a wsi (n_grid st) st in st'\<lparr>n_grid := g\<rparr>)"
| "run_verb V_worlds h x a wsi arg st = report (hg_cmd_worlds (h_env h) (o_clock x) (c_now (o_call x)) (o_zf x) a wsi) st"
| "run_verb V_travel h x a wsi arg st =
     report (hg_cmd_travel (h_env h) (o_clock x) (c_now (o_call x)) (o_zf x) a wsi arg) st"
| "run_verb V_title h x a wsi arg st = Inr (hg_cmd_title h (o_call x) a wsi arg st)"
| "run_verb V_who h x a wsi arg st = Inr (hg_cmd_who h a wsi st)"
| "run_verb V_free h x a wsi arg st = Inr (hg_cmd_free h x a wsi st)"
| "run_verb V_recall h x a wsi arg st =
     Inr (scene a wsi (upd_sess a (\<lambda>s. s\<lparr>s_room := 0, s_position := ''standing''\<rparr>) st))"
| "run_verb V_affects h x a wsi arg st = Inr (hg_cmd_affects a wsi st)"
| "run_verb V_inscribe h x a wsi arg st = hg_cmd_inscribe h (o_call x) a wsi arg st"
| "run_verb V_down h x a wsi arg st = Inr (way_from 0 6 a wsi st)"
| "run_verb V_up h x a wsi arg st = Inr (way_from 6 0 a wsi st)"
| "run_verb V_help h x a wsi arg st = Inr (hg_session_queue a wsi hg_help st)"
| "run_verb V_inventory h x a wsi arg st = Inr (hg_emit_inventory a wsi st)"
| "run_verb V_equipment h x a wsi arg st = Inr (hg_emit_equipment a wsi st)"
| "run_verb V_ability h x a wsi arg st = Inr (hg_emit_ability (c_now (o_call x)) a wsi st)"
| "run_verb V_quit h x a wsi arg st =
     Inr (hg_session_queue a wsi hg_goodbye (upd_sess a (\<lambda>s. s\<lparr>s_close := 1\<rparr>) st))"

definition direction_of :: "string \<Rightarrow> string" where
  "direction_of line = (if ncase_eq 3 line ''go '' then drop 3 line else line)"

definition hg_world_command ::
  "('j, 'w) host \<Rightarrow> outside \<Rightarrow> addr \<Rightarrow> addr \<Rightarrow> string \<Rightarrow> ('w, 'b) town_scheme \<Rightarrow> mem_error + ('w, 'b) town_scheme"
  where
  "hg_world_command h x a wsi line st =
     (if case_eq line ''look'' \<or> case_eq line ''l'' then Inr (scene a wsi st)
      else if ncase_eq 5 line ''look '' then
        (let (found, st) = hg_cmd_look_player a wsi (Some (drop 5 line)) st
         in Inr (if found then st else hg_cmd_look_mob a wsi (Some (drop 5 line)) st))
      else
        let m = hg_room_move (s_room (sess st a)) (direction_of line)
        in if m = -2 then Inr (hg_session_queue a wsi cant_move st)
           else if m \<noteq> -1 then Inr (go_to a wsi (word_of_int m) st)
           else case dispatch command_table line of
             None \<Rightarrow> Inr (hg_session_queue a wsi hg_unknown_command st)
           | Some (v, arg) \<Rightarrow> run_verb v h x a wsi arg st)"

text \<open>A line of a player in the world, as the callback hands it on.\<close>

definition play_line ::
  "('j, 'w) host \<Rightarrow> outside \<Rightarrow> addr \<Rightarrow> addr \<Rightarrow> string \<Rightarrow> ('w, 'b) town_scheme \<Rightarrow> mem_error + ('w, 'b) town_scheme" where
  "play_line h x a wsi input st =
     hg_world_command h x a wsi (cstr (trim_line input)) (upd_sess a (\<lambda>s. s\<lparr>s_wsi := wsi\<rparr>) st)"

end
