(* ===== verification/Laws.thy ===== *)
theory Laws
  imports World
begin

text \<open>
  What every command of the table leaves alone.  A law is a relation between a session before and after, and one
  between the caches, that all the small updates of the commands respect; the locale proves once that then every
  command respects it, for every player.  \<open>Town\<close> interprets it on the moral marks and on the gold.
\<close>

section \<open>More that only speaks\<close>

lemma speaks_fold:
  assumes "\<And>y st. speaks st0 st \<Longrightarrow> speaks st0 (f y st)" and "speaks st0 st"
  shows "speaks st0 (fold f ys st)"
  using assms(2) by (induction ys arbitrary: st) (simp_all add: assms(1))

lemma speaks_deliver [simp]:
  "speaks st0 st \<Longrightarrow> speaks st0 (hg_deliver_room room m e st)" "speaks st0 st \<Longrightarrow> speaks st0 (hg_deliver_all m e st)"
  unfolding hg_deliver_room_def hg_deliver_all_def Let_def by (rule speaks_fold; simp)+

lemma speaks_lines [simp]:
  "speaks st0 st \<Longrightarrow> speaks st0 (say_line a t st)" "speaks st0 st \<Longrightarrow> speaks st0 (say_text a t st)"
  "speaks st0 st \<Longrightarrow> speaks st0 (line_buf cap a t st)" "speaks st0 st \<Longrightarrow> speaks st0 (tell_buf cap a t st)"
  by (simp_all add: say_line_def say_text_def line_buf_def tell_buf_def)

lemma speaks_now [simp]:
  "speaks st0 st \<Longrightarrow> speaks st0 (hg_emit_vitals_now a r st)" "speaks st0 st \<Longrightarrow> speaks st0 (hg_emit_affects_now a st)"
  "speaks st0 st \<Longrightarrow> speaks st0 (hg_emit_room_actions_now a st)" "speaks st0 st \<Longrightarrow> speaks st0 (hg_whoami_reply a w i st)"
  by (simp_all add: hg_emit_vitals_now_def hg_emit_affects_now_def hg_emit_room_actions_now_def hg_whoami_reply_def case_prod_beta)

lemma speaks_composed [simp]:
  "speaks st0 st \<Longrightarrow> speaks st0 (emit_vitals_here a st)" "speaks st0 st \<Longrightarrow> speaks st0 (dais_emit a st)"
  "speaks st0 st \<Longrightarrow> speaks st0 (hg_emit_forgiven_target_now a b m n st)"
  "speaks st0 st \<Longrightarrow> speaks st0 (hg_emit_forgiven_redeemed_now a b st)"
  by (simp_all add: emit_vitals_here_def dais_emit_def hg_emit_forgiven_target_now_def hg_emit_forgiven_redeemed_now_def Let_def)

lemma speaks_world [simp]:
  "speaks st0 st \<Longrightarrow> speaks st0 (emit_world_state a w st)" "speaks st0 st \<Longrightarrow> speaks st0 (scene a w st)"
  "speaks st0 st \<Longrightarrow> speaks st0 (hg_emit_comm_gridcast_now a t g st)"
  "speaks st0 st \<Longrightarrow> speaks st0 (fst (hg_emit_grid_who_now env a g st))"
  by (simp_all add: emit_world_state_def queue_cstring_def scene_def hg_emit_comm_gridcast_now_def hg_emit_grid_who_now_def
      Let_def case_prod_beta)

lemma roll_loop_speaks:
  assumes "\<And>r st. speaks st0 st \<Longrightarrow> speaks st0 (say r st)"
  shows "speaks st0 st \<Longrightarrow> roll_loop cap say item i rs acc st = Inr (acc', st') \<Longrightarrow> speaks st0 st'"
proof (induction rs arbitrary: i acc st)
  case (Cons r rs)
  from Cons.prems(2) Cons.IH [OF assms [OF Cons.prems(1)]] show ?case by auto
qed simp

lemma roll_speaks:
  assumes "\<And>r st. speaks st0 st \<Longrightarrow> speaks st0 (say r st)" and "speaks st0 st" and "roll cap say item rs st = Inr (json, st')"
  shows "speaks st0 st'"
  using assms(3) roll_loop_speaks [OF assms(1, 2)] by (auto simp: roll_def split: prod.splits)

text \<open>A command that may fault, and only speaks when it does not.\<close>

definition only_speaks :: "'a store_scheme \<Rightarrow> mem_error + 'a store_scheme \<Rightarrow> bool" where
  "only_speaks st0 r \<longleftrightarrow> (\<forall>st'. r = Inr st' \<longrightarrow> speaks st0 st')"

lemma only_speaks_Inr [simp]: "only_speaks st0 (Inr st) \<longleftrightarrow> speaks st0 st"
  and only_speaks_Inl [simp]: "only_speaks st0 (Inl e)"
  by (simp_all add: only_speaks_def)

lemma only_speaks_queue_buf [simp]: "speaks st0 st \<Longrightarrow> only_speaks st0 (queue_buf cap a wsi r st)"
  by (cases r) (simp add: only_speaks_def queue_buf_def Let_def)

lemma only_speaks_ebind:
  assumes "\<And>y. r = Inr y \<Longrightarrow> only_speaks st0 (f y)" shows "only_speaks st0 (ebind r f)"
  using assms by (cases r) simp_all

lemma only_speaks_roll:
  assumes "\<And>r st. speaks st0 st \<Longrightarrow> speaks st0 (say r st)" and "speaks st0 st"
    and "\<And>json st'. speaks st0 st' \<Longrightarrow> only_speaks st0 (f (json, st'))"
  shows "only_speaks st0 (ebind (roll cap say item rs st) f)"
proof (rule only_speaks_ebind)
  fix y assume "roll cap say item rs st = Inr y"
  moreover obtain json st' where "y = (json, st')" by (cases y)
  ultimately show "only_speaks st0 (f y)" using assms(3) [OF roll_speaks [OF assms(1, 2)]] by simp
qed

lemma only_speaks_rolls [simp]:
  "speaks st0 st \<Longrightarrow> only_speaks st0 (fst (hg_emit_saved_roll_now env a g st))"
  "speaks st0 st \<Longrightarrow> only_speaks st0 (emit_fallen_roll a rows st)"
  "speaks st0 st \<Longrightarrow> only_speaks st0 (fst (hg_emit_fallen_roll_now env a g st))"
  "speaks st0 st \<Longrightarrow> only_speaks st0 (fst (hg_emit_gridstats_cmd_now env a g st))"
  "speaks st0 st \<Longrightarrow> only_speaks st0 (fst (hg_emit_gridprune_cmd_now env a g st))"
proof -
  assume s: "speaks st0 st"
  have lines: "speaks st0 (fold (\<lambda>r. hg_queue_line a (f r)) rs st')" if "speaks st0 st'" for f :: "'x \<Rightarrow> string option" and rs st'
    using that by (intro speaks_fold) simp_all
  show "only_speaks st0 (fst (hg_emit_saved_roll_now env a g st))"
    using s by (auto simp: hg_emit_saved_roll_now_def case_prod_beta intro!: only_speaks_roll)
  show f: "only_speaks st0 (emit_fallen_roll a rows st)" for rows
    unfolding emit_fallen_roll_def Let_def using s by (intro only_speaks_roll) (auto intro!: speaks_fold)
  show "only_speaks st0 (fst (hg_emit_fallen_roll_now env a g st))"
    using f by (simp add: hg_emit_fallen_roll_now_def case_prod_beta)
  show "only_speaks st0 (fst (hg_emit_gridstats_cmd_now env a g st))"
    using s by (auto simp: hg_emit_gridstats_cmd_now_def case_prod_beta Let_def intro!: only_speaks_roll speaks_fold)
  show "only_speaks st0 (fst (hg_emit_gridprune_cmd_now env a g st))"
    using s by (auto simp: hg_emit_gridprune_cmd_now_def case_prod_beta Let_def split: option.split intro!: only_speaks_roll)
qed

section \<open>Laws\<close>

definition kept :: "(session \<Rightarrow> session \<Rightarrow> bool) \<Rightarrow> (i64 list \<Rightarrow> i64 list \<Rightarrow> bool) \<Rightarrow> 'a wstate_scheme \<Rightarrow> 'a wstate_scheme \<Rightarrow> bool"
  where "kept R C st st' \<longleftrightarrow> (\<forall>b. R (sess st b) (sess st' b)) \<and> C (cache_gold st) (cache_gold st')"

definition keeps_law ::
  "(session \<Rightarrow> session \<Rightarrow> bool) \<Rightarrow> (i64 list \<Rightarrow> i64 list \<Rightarrow> bool) \<Rightarrow> 'a wstate_scheme \<Rightarrow> mem_error + 'a wstate_scheme \<Rightarrow> bool"
  where "keeps_law R C st0 r \<longleftrightarrow> (\<forall>st'. r = Inr st' \<longrightarrow> kept R C st0 st')"

lemma keeps_law_simps [simp]:
  "keeps_law R C st0 (Inr st) \<longleftrightarrow> kept R C st0 st" "keeps_law R C st0 (Inl e)"
  by (simp_all add: keeps_law_def)

text \<open>Updates beside the sessions and the caches.\<close>

lemma sess_beside [simp]:
  "sess (save h x a st) = sess st" "cache_gold (save h x a st) = cache_gold st"
  "sess (store_save h c a st) = sess st" "cache_gold (store_save h c a st) = cache_gold st"
  "sess (echo x n k t st) = sess st" "cache_gold (echo x n k t st) = cache_gold st"
  "sess (with_hub f st) = sess st" "cache_gold (with_hub f st) = cache_gold st"
  "sess (shift_tide h d st) = sess st" "cache_gold (shift_tide h d st) = cache_gold st"
  "sess (record_rescued h x w a st) = sess st" "cache_gold (record_rescued h x w a st) = cache_gold st"
  by (simp_all add: save_def store_save_def echo_def with_hub_def shift_tide_def record_rescued_def Let_def)

lemma sess_add_deed [simp]: "sess (add_deed a k st) = sess st" "cache_gold (add_deed a k st) = cache_gold st"
  by (simp_all add: add_deed_def)

lemma cache_upd_sess [simp]: "cache_gold (upd_sess a f st) = cache_gold st"
  by (simp add: upd_sess_def)

lemma speaks_cells:
  assumes "speaks st st'" shows "core (sess st' b) = core (sess st b)" "cache_gold st' = cache_gold (st :: 'a wstate_scheme)"
  using assms by (simp_all add: speaks_def) (cases st; cases st'; simp)

text \<open>The cells of a session that laws speak of; every other update of a session leaves them.\<close>

definition vital :: "session \<Rightarrow> (i64 \<times> i64 \<times> i64 \<times> i64) \<times> string list \<times> i64" where
  "vital s = ((s_ashsworn s, s_strayed s, s_redeemed s, s_gold s), s_inventory s, s_inv_count s)"

lemma vital_core: "core s = core s' \<Longrightarrow> vital s = vital s'"
  by (cases s, cases s') (simp add: core_def vital_def)

lemma vital_update [simp]:
  "vital (s\<lparr>s_wsi := w\<rparr>) = vital s" "vital (s\<lparr>s_room := r\<rparr>) = vital s" "vital (s\<lparr>s_hp := n\<rparr>) = vital s"
  "vital (s\<lparr>s_position := t\<rparr>) = vital s" "vital (s\<lparr>s_eq_weapon := t\<rparr>) = vital s" "vital (s\<lparr>s_title := t\<rparr>) = vital s"
  "vital (s\<lparr>s_faction := t\<rparr>) = vital s" "vital (s\<lparr>s_reply_to := t\<rparr>) = vital s" "vital (s\<lparr>s_last_freed := t\<rparr>) = vital s"
  "vital (s\<lparr>s_close := n\<rparr>) = vital s" "vital (s\<lparr>s_morality := n\<rparr>) = vital s" "vital (s\<lparr>s_in_combat := n\<rparr>) = vital s"
  "vital (s\<lparr>s_target := n\<rparr>) = vital s" "vital (s\<lparr>s_xp := n\<rparr>) = vital s" "vital (s\<lparr>s_poisoned := n\<rparr>) = vital s"
  "vital (s\<lparr>s_last_tick := n\<rparr>) = vital s" "vital (s\<lparr>s_mkt_resolved := n\<rparr>) = vital s" "vital (s\<lparr>s_trait_ready := n\<rparr>) = vital s"
  by (simp_all add: vital_def)

named_theorems law_intros

locale law =
  fixes R :: "session \<Rightarrow> session \<Rightarrow> bool" and C :: "i64 list \<Rightarrow> i64 list \<Rightarrow> bool"
  assumes R_vital: "vital s = vital s' \<Longrightarrow> R s s'"
    and R_trans: "R s s' \<Longrightarrow> R s' s'' \<Longrightarrow> R s s''"
    and C_refl: "C c c"
    and R_ash: "R s (s\<lparr>s_ashsworn := 1\<rparr>)" and R_stray: "R s (s\<lparr>s_strayed := 1\<rparr>)"
    and R_redeem: "s_strayed s \<noteq> 0 \<Longrightarrow> R s (s\<lparr>s_redeemed := 1\<rparr>)"
    and R_add: "R s (inv_add_internal item s)" and R_remove: "inv_remove_slot up i s = Inr s' \<Longrightarrow> R s s'"
begin

lemma kept_refl [simp]: "kept R C st st"
  by (simp add: kept_def C_refl R_vital)

lemma kept_cells:
  assumes "kept R C st0 st" and "\<And>b. R (sess st b) (sess st' b)" and "cache_gold st' = cache_gold st"
  shows "kept R C st0 st'"
  using assms(1, 3) R_trans [OF _ assms(2)] by (simp add: kept_def)

lemma kept_speaks:
  assumes "kept R C st0 st" and "speaks st st'" shows "kept R C st0 st'"
proof (rule kept_cells [OF assms(1)])
  show "R (sess st b) (sess st' b)" for b by (rule R_vital, rule vital_core, rule speaks_cells(1) [OF assms(2), symmetric])
  show "cache_gold st' = cache_gold st" by (rule speaks_cells(2) [OF assms(2)])
qed

lemma kept_beside: "kept R C st0 st \<Longrightarrow> sess st' = sess st \<Longrightarrow> cache_gold st' = cache_gold st \<Longrightarrow> kept R C st0 st'"
  by (rule kept_cells) (simp_all add: R_vital)

lemma kept_update:
  assumes "kept R C st0 st" and "R (sess st a) (f (sess st a))" shows "kept R C st0 (upd_sess a f st)"
  by (rule kept_cells [OF assms(1)]) (use assms(2) in \<open>auto simp: R_vital\<close>)

lemma kept_upd [simp]:
  assumes "kept R C st0 st" and "vital (f (sess st a)) = vital (sess st a)" shows "kept R C st0 (upd_sess a f st)"
  by (rule kept_update [OF assms(1)]) (simp add: R_vital assms(2))

lemma kept_items [simp]:
  assumes "kept R C st0 st"
  shows "kept R C st0 (upd_sess a (inv_add_internal item) st)"
    "kept R C st0 (upd_sess a (hg_inv_add_item item) st)"
  using assms by (auto simp: hg_inv_add_item_def R_add intro!: kept_update)

lemma kept_says [simp]:
  assumes "kept R C st0 st"
  shows "kept R C st0 (say_line a t st)" "kept R C st0 (say_text a t st)" "kept R C st0 (line_buf cap a t st)"
    "kept R C st0 (tell_buf cap a t st)" "kept R C st0 (setup_cmd a wsi st)" "kept R C st0 (hg_session_queue a wsi t st)"
    "kept R C st0 (queue_buffer a wsi r st)" "kept R C st0 (queue_cstring a wsi t st)" "kept R C st0 (hg_queue_line a l st)"
    "kept R C st0 (hg_queue_cstr a l st)" "kept R C st0 (hg_deliver_room room l e st)" "kept R C st0 (hg_deliver_all l e st)"
    "kept R C st0 (hg_emit_vitals_now a r' st)" "kept R C st0 (hg_emit_affects_now a st)"
    "kept R C st0 (hg_emit_room_actions_now a st)" "kept R C st0 (emit_vitals_here a st)" "kept R C st0 (dais_emit a st)"
    "kept R C st0 (hg_emit_forgiven_target_now a b m n st)" "kept R C st0 (hg_emit_forgiven_redeemed_now a b st)"
    "kept R C st0 (hg_emit_vitals_dyn a wsi st)" "kept R C st0 (hg_emit_affects_dyn a wsi st)"
    "kept R C st0 (hg_emit_equipment a wsi st)" "kept R C st0 (hg_emit_inventory a wsi st)"
    "kept R C st0 (emit_world_state a wsi st)" "kept R C st0 (scene a wsi st)" "kept R C st0 (hg_emit_dream_now a st)"
    "kept R C st0 (hg_whoami_reply a wsi i st)" "kept R C st0 (hg_emit_comm_gridcast_now a l g st)"
  by (rule kept_speaks [OF assms]; simp add: queue_cstring_def)+

lemma kept_saves [simp]:
  assumes "kept R C st0 st"
  shows "kept R C st0 (save h x a st)" "kept R C st0 (store_save h c a st)" "kept R C st0 (echo x n k t st)"
    "kept R C st0 (with_hub f st)" "kept R C st0 (shift_tide h d st)" "kept R C st0 (record_rescued h x w a st)"
  by (rule kept_beside [OF assms]; simp)+

lemma kept_town [simp]:
  assumes "kept R C st0 st"
  shows "kept R C st0 (add_deed a k st)" "kept R C st0 (st\<lparr>t_forgiven := ps\<rparr>)" "kept R C st0 (st\<lparr>t_kept := ps\<rparr>)"
    "kept R C st0 (st\<lparr>t_deeds := ds\<rparr>)" "kept R C st0 (st\<lparr>t_cells_ready := t\<rparr>)" "kept R C st0 (st\<lparr>t_transit_ready := t\<rparr>)"
  by (rule kept_beside [OF assms]; simp)+

lemma kept_node [simp]:
  "kept R C st0 st \<Longrightarrow> kept R C st0 (st\<lparr>n_grid := g\<rparr>)" "kept R C st0 st \<Longrightarrow> kept R C st0 (st\<lparr>n_heartbeat := t\<rparr>)"
  by (rule kept_beside; simp)+

text \<open>A \<open>let\<close> of a state needs only that the state is kept; the term itself is not copied.\<close>

lemma kept_let_state [law_intros]:
  "kept R C st0 t \<Longrightarrow> (\<And>st. kept R C st0 st \<Longrightarrow> kept R C st0 (f st)) \<Longrightarrow> kept R C st0 (let st = t in f st)"
  by simp

lemma kept_let [law_intros]: "(\<And>y. kept R C st0 (f y)) \<Longrightarrow> kept R C st0 (let y = t in f y)"
  by simp

lemma kept_if [law_intros]: "kept R C st0 s \<Longrightarrow> kept R C st0 t \<Longrightarrow> kept R C st0 (if P then s else t)"
  by simp

lemma kept_option [law_intros]:
  "kept R C st0 s \<Longrightarrow> (\<And>y. kept R C st0 (f y)) \<Longrightarrow> kept R C st0 (case z of None \<Rightarrow> s | Some y \<Rightarrow> f y)"
  by (cases z) simp_all

lemma kept_pair [law_intros]: "(\<And>y z. kept R C st0 (f y z)) \<Longrightarrow> kept R C st0 (case p of (y, z) \<Rightarrow> f y z)"
  by (cases p) simp

lemma kept_fold: "(\<And>y st. kept R C st0 st \<Longrightarrow> kept R C st0 (f y st)) \<Longrightarrow> kept R C st0 st \<Longrightarrow> kept R C st0 (fold f ys st)"
  by (induction ys arbitrary: st) simp_all

lemma kept_combat [simp]:
  assumes "kept R C st0 st"
  shows "kept R C st0 (hg_cmd_wield a wsi arg st)" "kept R C st0 (hg_cmd_remove a wsi arg st)"
    "kept R C st0 (hg_combat_arm t a wsi st)"
    "kept R C st0 (hg_cmd_rest a wsi st)" "kept R C st0 (hg_cmd_stand a wsi st)" "kept R C st0 (hg_cmd_sleep a wsi st)"
    "kept R C st0 (hg_cmd_look_mob a wsi arg st)" "kept R C st0 (hg_cmd_world a wsi st)"
    "kept R C st0 (hg_cmd_title h c a wsi arg st)" "kept R C st0 (hg_cmd_affects a wsi st)"
  unfolding hg_cmd_wield_def hg_cmd_remove_def hg_combat_arm_def hg_cmd_rest_def hg_cmd_stand_def hg_cmd_sleep_def
    hg_cmd_look_mob_def hg_cmd_world_def hg_cmd_title_def hg_cmd_affects_def
  by ((intro law_intros)?; simp add: assms)+

lemma kept_attack [simp]: "kept R C st0 st \<Longrightarrow> kept R C st0 (hg_cmd_attack c a wsi arg st)"
  unfolding hg_cmd_attack_def by (intro law_intros; simp)

lemma kept_social [simp]:
  assumes "kept R C st0 st"
  shows "kept R C st0 (hg_cmd_sense a wsi st)" "kept R C st0 (hg_cmd_list a wsi st)" "kept R C st0 (hg_cmd_sell a wsi arg st)"
    "kept R C st0 (hg_cmd_talk zf a wsi st)" "kept R C st0 (hg_cmd_emote a wsi arg st)" "kept R C st0 (hg_cmd_war h x a wsi st)"
    "kept R C st0 (hg_cmd_treat h x a wsi st)" "kept R C st0 (hg_cmd_mend a wsi arg st)"
    "kept R C st0 (hg_cmd_wall env a wsi arg st)"
  unfolding hg_cmd_sense_def hg_cmd_list_def hg_cmd_sell_def hg_cmd_talk_def hg_cmd_emote_def hg_cmd_war_def
    hg_cmd_treat_def hg_cmd_mend_def hg_cmd_wall_def
  by ((intro law_intros)?; simp add: assms)+

lemma kept_yell [simp]: "kept R C st0 st \<Longrightarrow> kept R C st0 (hg_cmd_yell zf a wsi arg st)"
  unfolding hg_cmd_yell_def by (intro law_intros kept_fold; simp)

lemma kept_arc [simp]:
  assumes "kept R C st0 st"
  shows "kept R C st0 (weigh n a st)" "kept R C st0 (freed_first who a st)"
    "s_strayed (sess st a) \<noteq> 0 \<Longrightarrow> kept R C st0 (resolve_return_h h x a st)"
    "kept R C st0 (moral_arc_h h x a st)" "kept R C st0 (hg_moral_arc_now h x a st)"
    "kept R C st0 (hg_join_record_oath x a st)"
proof -
  show w: "kept R C st0 (weigh n a st)" "kept R C st0 (freed_first who a st)"
    by (simp_all add: weigh_def freed_first_def assms)
  have ret: "kept R C st0 (resolve_return_h h x a st)" if "s_strayed (sess st a) \<noteq> 0" for x
  proof -
    have "R (sess st a) ((sess st a)\<lparr>s_redeemed := 1, s_title := t\<rparr>)" for t
      using R_trans [OF R_redeem [OF that] R_vital] by (simp add: vital_def)
    then have "kept R C st0 (upd_sess a (\<lambda>s. s\<lparr>s_redeemed := 1, s_title := (if s_title s = [] then the_returned else s_title s)\<rparr>) st)"
      by (intro kept_update [OF assms])
    then show ?thesis unfolding resolve_return_h_def by (intro law_intros; simp)
  qed
  then show "s_strayed (sess st a) \<noteq> 0 \<Longrightarrow> kept R C st0 (resolve_return_h h x a st)" .
  have red: "kept R C st0 (upd_sess a (\<lambda>s. s\<lparr>s_redeemed := 1\<rparr>) st)" if "s_strayed (sess st a) \<noteq> 0"
    by (intro kept_update [OF assms] R_redeem that)
  have stray: "kept R C st0 (upd_sess a (\<lambda>s. s\<lparr>s_strayed := 1\<rparr>) st)"
    by (intro kept_update [OF assms] R_stray)
  show "kept R C st0 (moral_arc_h h x a st)"
    using ret red stray assms by (auto simp: moral_arc_h_def Let_def)
  then show "kept R C st0 (hg_moral_arc_now h x a st)" by (simp add: hg_moral_arc_now_def)
  show "kept R C st0 (hg_join_record_oath x a st)" by (simp add: hg_join_record_oath_def Let_def assms)
qed

text \<open>The same with what the code knows of the value.\<close>

lemma kept_let_eq: "(\<And>y. y = t \<Longrightarrow> kept R C st0 (f y)) \<Longrightarrow> kept R C st0 (let y = t in f y)"
  by simp

lemma kept_if_known:
  "(P \<Longrightarrow> kept R C st0 s) \<Longrightarrow> (\<not> P \<Longrightarrow> kept R C st0 t) \<Longrightarrow> kept R C st0 (if P then s else t)"
  by simp

lemma kept_return:
  assumes "kept R C st0 st" and "s_strayed (sess st a) \<noteq> 0"
  shows "kept R C st0 (upd_sess a (\<lambda>s. s\<lparr>s_redeemed := 1, s_title := (if s_title s = [] then the_returned else s_title s)\<rparr>) st)"
proof -
  have "R (sess st a) ((sess st a)\<lparr>s_redeemed := 1, s_title := t\<rparr>)" for t
    using R_trans [OF R_redeem [OF assms(2)] R_vital] by (simp add: vital_def)
  then show ?thesis by (intro kept_update [OF assms(1)])
qed

lemma kept_forgive [simp]:
  assumes "kept R C st0 st" shows "kept R C st0 (forgive_now h x a b st)" "kept R C st0 (hg_cmd_forgive h x a wsi arg st)"
proof -
  have ab: "kept R C st0 (absolve h x a b st)" if "kept R C st0 st" for b st
    using that unfolding absolve_def Let_def by (intro kept_if_known) (simp_all add: kept_return)
  have f: "kept R C st0 (forgive_now h x a b st)" if "kept R C st0 st" for b and st
    unfolding forgive_now_def by (intro law_intros) (simp_all add: that ab)
  show "kept R C st0 (forgive_now h x a b st)" by (rule f [OF assms])
  show "kept R C st0 (hg_cmd_forgive h x a wsi arg st)"
    unfolding hg_cmd_forgive_def by (intro law_intros) (simp_all add: assms f)
qed

lemma kept_moral [simp]:
  assumes "kept R C st0 st"
  shows "kept R C st0 (hg_cmd_free h x a wsi st)" "kept R C st0 (hg_cmd_shelter h x a wsi st)"
    "kept R C st0 (snd (hg_cmd_look_player a wsi arg st))" "kept R C st0 (hg_cmd_reckoning a wsi st)"
    "kept R C st0 (witness_now h x a r st)" "kept R C st0 (oath_told h x a t u st)" 
  unfolding hg_cmd_free_def free_pit_now_def free_cells_now_def hg_cmd_shelter_def hg_cmd_reckoning_def
    hg_emit_char_reckoning_now_def witness_now_def oath_told_def
  by ((intro law_intros kept_fold)?; simp add: assms hg_cmd_look_player_def Let_def)+

lemma kept_ash [simp]: "kept R C st0 st \<Longrightarrow> kept R C st0 (upd_sess a (\<lambda>s. s\<lparr>s_ashsworn := 1\<rparr>) st)"
  by (rule kept_update) (simp_all add: R_ash)

lemma kept_oaths [simp]:
  assumes "kept R C st0 st"
  shows "kept R C st0 (hg_dais_pledge h x a st)" "kept R C st0 (hg_cmd_join h x a wsi st)"
    "kept R C st0 (hg_cmd_defend h x a wsi st)" "kept R C st0 (hg_cmd_defy h x a wsi st)"
proof -
  have p: "kept R C st0 (hg_dais_pledge h x a st)" if "kept R C st0 st" for st
    unfolding hg_dais_pledge_def by (intro law_intros; simp add: that)
  show "kept R C st0 (hg_dais_pledge h x a st)" by (rule p [OF assms])
  show "kept R C st0 (hg_cmd_join h x a wsi st)"
    unfolding hg_cmd_join_def by (intro law_intros; simp add: assms p)
  show "kept R C st0 (hg_cmd_defend h x a wsi st)"
    unfolding hg_cmd_defend_def by (intro law_intros; simp add: assms)
  show "kept R C st0 (hg_cmd_defy h x a wsi st)"
    unfolding hg_cmd_defy_def by (intro kept_let_state kept_let_eq kept_if_known) (auto simp: assms)
qed

text \<open>Commands that may fault.\<close>

lemma keeps_law_ebind [law_intros]:
  "keeps_law R C st0 r \<Longrightarrow> (\<And>st. kept R C st0 st \<Longrightarrow> keeps_law R C st0 (f st)) \<Longrightarrow> keeps_law R C st0 (ebind r f)"
  by (cases r) simp_all

lemma keeps_law_after: "(\<And>y. r = Inr y \<Longrightarrow> keeps_law R C st0 (f y)) \<Longrightarrow> keeps_law R C st0 (ebind r f)"
  by (cases r) simp_all

lemma keeps_law_speaks: "only_speaks st r \<Longrightarrow> kept R C st0 st \<Longrightarrow> keeps_law R C st0 r"
  using kept_speaks by (auto simp: keeps_law_def only_speaks_def)

lemma keeps_law_queue_buf [simp]: "kept R C st0 st \<Longrightarrow> keeps_law R C st0 (queue_buf cap a wsi r st)"
  by (rule keeps_law_speaks) simp_all

lemma keeps_law_Inr [law_intros]: "kept R C st0 st \<Longrightarrow> keeps_law R C st0 (Inr st)"
  by simp

lemma keeps_law_let_state [law_intros]:
  "kept R C st0 t \<Longrightarrow> (\<And>st. kept R C st0 st \<Longrightarrow> keeps_law R C st0 (f st)) \<Longrightarrow> keeps_law R C st0 (let st = t in f st)"
  by simp

lemma keeps_law_let [law_intros]: "(\<And>y. keeps_law R C st0 (f y)) \<Longrightarrow> keeps_law R C st0 (let y = t in f y)"
  by simp

lemma keeps_law_if [law_intros]: "keeps_law R C st0 s \<Longrightarrow> keeps_law R C st0 t \<Longrightarrow> keeps_law R C st0 (if P then s else t)"
  by simp

lemma keeps_law_option [law_intros]:
  "keeps_law R C st0 s \<Longrightarrow> (\<And>y. keeps_law R C st0 (f y)) \<Longrightarrow> keeps_law R C st0 (case z of None \<Rightarrow> s | Some y \<Rightarrow> f y)"
  by (cases z) simp_all

lemma keeps_law_pair [law_intros]:
  "(\<And>y z. keeps_law R C st0 (f y z)) \<Longrightarrow> keeps_law R C st0 (case p of (y, z) \<Rightarrow> f y z)"
  by (cases p) simp

lemma keeps_law_pair2 [law_intros]:
  "(\<And>x y z. keeps_law R C st0 (f x y z)) \<Longrightarrow> keeps_law R C st0 ((case p of (x, y) \<Rightarrow> \<lambda>z. f x y z) z')"
  by (cases p) simp

lemma keeps_law_remove:
  assumes "kept R C st0 st" and "\<And>s. kept R C st0 (upd_sess a (\<lambda>_. s) st) \<Longrightarrow> keeps_law R C st0 (f s)"
  shows "keeps_law R C st0 (ebind (inv_remove_slot up i (sess st a)) f)"
proof (rule keeps_law_after)
  fix s assume "inv_remove_slot up i (sess st a) = Inr s"
  then have "R (sess st a) s" by (rule R_remove)
  then show "keeps_law R C st0 (f s)" by (intro assms(2) kept_update [OF assms(1)])
qed

lemma keeps_law_give [simp]: "kept R C st0 st \<Longrightarrow> keeps_law R C st0 (hg_cmd_give h x a wsi arg st)"
  unfolding hg_cmd_give_def by (intro keeps_law_remove law_intros; simp)

lemma keeps_law_found:
  "(\<And>w. keeps_law R C st0 (f w)) \<Longrightarrow> keeps_law R C st0 (ebind (grid_match_world u rows target) f)"
  by (cases "grid_match_world u rows target") simp_all

lemma keeps_law_kept_words:
  "(\<And>v w. keeps_law R C st0 (f v w)) \<Longrightarrow> keeps_law R C st0 (case u of Inl p \<Rightarrow> Inl (Stray_address p) | Inr (v, w) \<Rightarrow> f v w)"
  by (cases u) (simp_all add: case_prod_beta)

lemma keeps_law_report:
  assumes "kept R C st0 st" and "\<And>g. keeps_law R C st0 (fst (f g st))" shows "keeps_law R C st0 (report f st)"
  unfolding report_def using assms(2) [of "n_grid st"] by (auto simp: case_prod_beta intro!: law_intros)

lemma keeps_law_rolls [simp]:
  assumes "kept R C st0 st"
  shows "keeps_law R C st0 (report (hg_emit_saved_roll_now env a) st)"
    "keeps_law R C st0 (report (hg_emit_fallen_roll_now env a) st)"
    "keeps_law R C st0 (report (hg_emit_gridstats_cmd_now env a) st)"
    "keeps_law R C st0 (report (hg_emit_gridprune_cmd_now env a) st)"
  using assms by (intro keeps_law_report keeps_law_speaks [of st]; simp)+

lemma keeps_law_grid:
  assumes "kept R C st0 st"
  shows "keeps_law R C st0 (fst (hg_cmd_ping env low a wsi arg g st))" "keeps_law R C st0 (fst (hg_cmd_listen env rnd a wsi g st))"
    "keeps_law R C st0 (fst (hg_cmd_worlds env clock now zf a wsi g st))"
    "keeps_law R C st0 (fst (hg_cmd_travel env clock now zf a wsi arg g st))"
proof -
  have w: "keeps_law R C st0 (fst (hg_cmd_worlds env clock now zf a wsi g st))" if "kept R C st0 st" for st
    using that by (auto simp: hg_cmd_worlds_def Let_def split: prod.split)
  show "keeps_law R C st0 (fst (hg_cmd_worlds env clock now zf a wsi g st))" by (rule w [OF assms])
  show "keeps_law R C st0 (fst (hg_cmd_listen env rnd a wsi g st))"
    using assms by (auto simp: hg_cmd_listen_def Let_def split: prod.split option.split)
  show "keeps_law R C st0 (fst (hg_cmd_travel env clock now zf a wsi arg g st))"
    using assms by (auto simp: hg_cmd_travel_def Let_def w split: prod.split option.split
        intro!: keeps_law_found keeps_law_kept_words keeps_law_ebind)
  show "keeps_law R C st0 (fst (hg_cmd_ping env low a wsi arg g st))"
    using assms by (auto simp: hg_cmd_ping_def ping_all_remote_def Let_def split: prod.split)
qed

lemma keeps_law_tell: "kept R C st0 st \<Longrightarrow> keeps_law R C st0 (tell_impl a arg st)"
  unfolding tell_impl_def by ((intro law_intros)?; simp)

lemma keeps_law_commands [simp]:
  assumes "kept R C st0 st"
  shows "keeps_law R C st0 (hg_cmd_consider a wsi arg st)" "keeps_law R C st0 (hg_cmd_exits a wsi st)"
    "keeps_law R C st0 (hg_cmd_tell a wsi arg st)" "keeps_law R C st0 (hg_cmd_reply a wsi arg st)"
    "keeps_law R C st0 (hg_cmd_gridcast h a wsi arg st)" "keeps_law R C st0 (hg_cmd_saved h a wsi st)"
    "keeps_law R C st0 (hg_cmd_gridstats h a wsi st)" "keeps_law R C st0 (hg_cmd_gridprune h a wsi st)"
    "keeps_law R C st0 (hg_cmd_witness h x a wsi arg st)" "keeps_law R C st0 (hg_cmd_inscribe h c a wsi arg st)"
  unfolding hg_cmd_consider_def hg_cmd_exits_def hg_cmd_tell_def hg_cmd_reply_def hg_cmd_gridcast_def hg_cmd_saved_def
    hg_cmd_gridstats_def hg_cmd_gridprune_def hg_cmd_witness_def hg_cmd_inscribe_def
  by ((intro law_intros keeps_law_tell)?; simp add: assms)+

lemma kept_whoami [simp]: "kept R C st0 st \<Longrightarrow> kept R C st0 (fst (hg_cmd_whoami env a wsi g st))"
  by (auto simp: hg_cmd_whoami_def Let_def case_prod_beta)

lemma kept_who [simp]: "kept R C st0 st \<Longrightarrow> kept R C st0 (hg_cmd_who h a wsi st)"
  by (auto simp: hg_cmd_who_def Let_def case_prod_beta intro!: kept_node kept_speaks [OF _ speaks_world(4) [OF speaks_refl]])

text \<open>Every command of the table but the five that move gold.\<close>

lemma run_verb_law:
  assumes "kept R C st0 st" and "v \<notin> {V_buy, V_cache, V_gather, V_steal, V_ability}"
  shows "keeps_law R C st0 (run_verb v h x a wsi arg st)"
  using assms
  by (cases v) (simp_all add: keeps_law_report keeps_law_grid way_from_def go_to_def case_prod_beta Let_def)

text \<open>The heartbeat keeps every law.\<close>

lemma kept_rat [simp]:
  assumes "kept R C st0 st"
  shows "kept R C st0 (st\<lparr>rat_alive := n\<rparr>)" "kept R C st0 (st\<lparr>n_rat_died := n\<rparr>)" "kept R C st0 (st\<lparr>n_rat_hp := n\<rparr>)"
    "kept R C st0 (st\<lparr>world_tick := n\<rparr>)" "kept R C st0 (st\<lparr>rat_alive := n, n_rat_died := m\<rparr>)"
    "kept R C st0 (st\<lparr>n_heartbeat := m, world_tick := n\<rparr>)" "kept R C st0 (st\<lparr>n_rat_hp := n, rat_alive := m, n_rat_died := k\<rparr>)"
  by (rule kept_beside [OF assms]; simp)+

lemma kept_queue_flush [simp]:
  "kept R C st0 st \<Longrightarrow> kept R C st0 (queue_counted b w r st)" "kept R C st0 st \<Longrightarrow> kept R C st0 (hg_session_flush a st)"
  "kept R C st0 st \<Longrightarrow> kept R C st0 (hg_emit_scene a wsi st)"
  by (simp_all add: queue_counted_def hg_session_flush_def kept_speaks)

lemmas kept_flush = kept_queue_flush(2)

lemma kept_fight [simp]:
  assumes "kept R C st0 st"
  shows "kept R C st0 (rat_killed h c a wsi st)" "kept R C st0 (player_died h c a wsi st)"
    "kept R C st0 (hg_combat_round h c a wsi st)"
proof -
  have vital: "vital (s\<lparr>s_in_combat := 0, s_target := 0, s_xp := n\<rparr>) = vital s" for s :: session and n
    by (simp add: vital_def)
  have k: "kept R C st0 (rat_killed h c a wsi st)" if "kept R C st0 st" for st
    unfolding rat_killed_def kill_hub_record_def by (intro law_intros; simp add: that vital)
  have d: "kept R C st0 (player_died h c a wsi st)" if "kept R C st0 st" for st
    unfolding player_died_def by (intro law_intros; simp add: that)
  show "kept R C st0 (rat_killed h c a wsi st)" "kept R C st0 (player_died h c a wsi st)" by (rule k [OF assms], rule d [OF assms])
  show "kept R C st0 (hg_combat_round h c a wsi st)"
    unfolding hg_combat_round_def by (intro law_intros; simp add: assms k d)
qed

lemma kept_heartbeat:
  assumes "kept R C st0 st" shows "kept R C st0 (hg_heartbeat h c now st)"
proof -
  have p: "kept R C st0 (combat_pulse h c now a st)" if "kept R C st0 st" for a st
    unfolding combat_pulse_def hg_session_pulse_def Let_def by (intro law_intros kept_flush; simp add: that)
  have t: "kept R C st0 (beat_session a st)" if "kept R C st0 st" for a st
    unfolding beat_session_def tick_session_def by (intro law_intros kept_flush; simp add: that)
  show ?thesis
    unfolding hg_heartbeat_def rat_respawn_def by (intro law_intros kept_fold p t; simp add: assms kept_fold p t)
qed

text \<open>A line of a player, but for the five commands.\<close>

lemma world_command_law:
  assumes "kept R C st0 st" and "\<And>v arg. dispatch command_table line = Some (v, arg) \<Longrightarrow> v \<notin> {V_buy, V_cache, V_gather, V_steal, V_ability}"
  shows "keeps_law R C st0 (hg_world_command h x a wsi line st)"
  using assms(1) assms(2) kept_moral(3) [OF assms(1)]
  by (auto simp: hg_world_command_def go_to_def Let_def case_prod_beta split: option.split intro!: run_verb_law)

text \<open>The five apart.\<close>

lemma world_command_cases:
  assumes "kept R C st0 st"
  shows "keeps_law R C st0 (hg_world_command h x a wsi line st) \<or>
    (\<exists>v arg. v \<in> {V_buy, V_cache, V_gather, V_steal, V_ability} \<and> hg_world_command h x a wsi line st = run_verb v h x a wsi arg st)"
proof (cases "\<exists>v arg. v \<in> {V_buy, V_cache, V_gather, V_steal, V_ability} \<and> hg_world_command h x a wsi line st = run_verb v h x a wsi arg st")
  case False
  then show ?thesis using assms kept_moral(3) [OF assms]
    by (auto simp: hg_world_command_def go_to_def Let_def case_prod_beta split: option.splits if_splits intro!: run_verb_law)
qed simp

end

text \<open>A law that does not speak of gold.\<close>

locale free_law = law +
  assumes R_gold: "R s (s\<lparr>s_gold := g\<rparr>)" and C_any: "C c c'"
begin

lemma kept_gold [simp]: "kept R C st0 st \<Longrightarrow> R (sess st a) (f (sess st a)) \<Longrightarrow> kept R C st0 (upd_sess a f st)"
  by (rule kept_update)

lemma kept_any: "kept R C st0 st \<Longrightarrow> sess st' = sess st \<Longrightarrow> kept R C st0 st'"
  by (simp add: kept_def C_any)

lemma R_pay: "R s (inv_add_internal item (s\<lparr>s_gold := g\<rparr>))" and R_ability: "R s (s\<lparr>s_gold := g, s_trait_ready := t\<rparr>)"
  using R_trans [OF R_gold R_add] R_trans [OF R_gold R_vital] vital_update(18) by simp_all

lemma kept_five [simp]:
  assumes "kept R C st0 st"
  shows "kept R C st0 (hg_cmd_buy h x a wsi arg st)" "kept R C st0 (hg_cmd_steal h x a wsi st)"
    "kept R C st0 (hg_cmd_cache h x a wsi arg st)" "kept R C st0 (hg_cmd_gather h x a wsi st)"
    "kept R C st0 (hg_emit_ability now a wsi st)"
  unfolding hg_cmd_buy_def buy_workshop_def pay_def hg_cmd_steal_def hg_cmd_cache_def hg_cmd_gather_def hg_emit_ability_def
    hg_cache_gold_add_def hg_cache_gold_take_def
  by ((intro law_intros)?; simp add: assms R_gold R_pay R_ability kept_any)+

lemma play_line_law:
  assumes "kept R C st0 st" shows "keeps_law R C st0 (play_line h x a wsi line st)"
proof -
  have v: "keeps_law R C st0 (run_verb v h x a wsi arg st)" if "kept R C st0 st" for v arg st
    using run_verb_law [OF that, of v h x a wsi arg] that by (cases v) simp_all
  have "keeps_law R C st0 (hg_world_command h x a wsi l st)" if "kept R C st0 st" for l st
    using that v kept_moral(3) [OF that]
    by (auto simp: hg_world_command_def go_to_def Let_def case_prod_beta split: option.split)
  then show ?thesis using kept_says(5) [OF assms] by (simp add: play_line_def setup_cmd_def)
qed

end

end
