(* ===== verification/Town.thy ===== *)
theory Town
  imports World
begin

text \<open>
  What the commands of a player can do and cannot: which line runs which command, which lines stop the node, what
  happens to gold, items and moral marks over any play.
\<close>

section \<open>Which line runs which command\<close>

definition head_word :: "string \<Rightarrow> string" where
  "head_word line = takeWhile (\<lambda>c. c \<noteq> CHR '' '') line"

text \<open>What the table sees of a line: its first word in small letters, and whether a blank follows.\<close>

definition key :: "string \<Rightarrow> string \<times> bool" where
  "key line = (map to_lower (head_word line), CHR '' '' \<in> set line)"

definition row_key :: "string \<times> nat option \<times> verb \<Rightarrow> string \<times> bool" where
  "row_key row = (case row of (w, off, _) \<Rightarrow> if off = None then (w, False) else (butlast w, True))"

definition row_ok :: "string \<times> nat option \<times> verb \<Rightarrow> bool" where
  "row_ok row \<longleftrightarrow> map to_lower (fst (row_key row)) = fst (row_key row) \<and> CHR '' '' \<notin> set (fst (row_key row)) \<and>
     (fst (snd row) \<noteq> None \<longrightarrow> fst row \<noteq> [] \<and> last (fst row) = CHR '' '')"

lemma to_lower_blank: "to_lower c = CHR '' '' \<longleftrightarrow> c = CHR '' ''"
proof -
  have "c = CHR '' ''" if "to_lower c = CHR '' ''" "65 \<le> (of_char c :: nat)" "(of_char c :: nat) \<le> 90"
  proof -
    have "(of_char (to_lower c) :: nat) = of_char c + 32" using that(2, 3) by (simp add: to_lower_def)
    then show ?thesis using that by simp
  qed
  then show ?thesis by (auto simp: to_lower_def Let_def split: if_splits)
qed

lemma blank_lower: "CHR '' '' \<in> set (map to_lower t) \<longleftrightarrow> CHR '' '' \<in> set t"
proof (induction t)
  case (Cons c t)
  then show ?case using to_lower_blank [of c] by (simp only: list.map list.set insert_iff) metis
qed simp

lemma head_word_id: "CHR '' '' \<notin> set line \<Longrightarrow> head_word line = line"
  unfolding head_word_def takeWhile_eq_all_conv by auto

lemma head_word_append: "CHR '' '' \<notin> set p \<Longrightarrow> head_word (p @ CHR '' '' # r) = p"
  unfolding head_word_def by (subst takeWhile_append2) auto

lemma head_word_split:
  assumes "CHR '' '' \<in> set line" obtains r where "line = head_word line @ CHR '' '' # r" "CHR '' '' \<notin> set (head_word line)"
proof -
  obtain p r where "line = p @ CHR '' '' # r" "CHR '' '' \<notin> set p" using split_list_first [OF assms] by blast
  with head_word_append [of p r] that show thesis by simp
qed

lemma word_match:
  assumes "map to_lower w = w" and "CHR '' '' \<notin> set w"
  shows "case_eq line w \<longleftrightarrow> (w, False) = key line"
proof -
  have "case_eq line w \<longleftrightarrow> map to_lower line = w" using assms(1) by (simp add: case_eq_def)
  moreover have "CHR '' '' \<notin> set line" if "map to_lower line = w" using that assms(2) blank_lower by metis
  ultimately show ?thesis using head_word_id [of line] by (auto simp: key_def)
qed

lemma start_match:
  assumes "map to_lower u = u" and "CHR '' '' \<notin> set u"
  shows "ncase_eq (length (u @ '' '')) line (u @ '' '') \<longleftrightarrow> (u, True) = key line"
proof -
  have b: "to_lower (CHR '' '') = CHR '' ''" by (simp add: to_lower_blank)
  have l: "ncase_eq (length (u @ '' '')) line (u @ '' '') \<longleftrightarrow> map to_lower (take (Suc (length u)) line) = u @ '' ''"
    using assms(1) b by (simp add: ncase_eq_def case_eq_def)
  show ?thesis
  proof
    assume "ncase_eq (length (u @ '' '')) line (u @ '' '')"
    then have m: "map to_lower (take (Suc (length u)) line) = u @ '' ''" using l by simp
    then obtain p c where p: "take (Suc (length u)) line = p @ [c]" "map to_lower p = u" "to_lower c = CHR '' ''"
      by (auto simp: map_eq_append_conv)
    then have c: "c = CHR '' ''" and "CHR '' '' \<notin> set p" using to_lower_blank blank_lower assms(2) by metis+
    have "line = p @ CHR '' '' # drop (Suc (length u)) line"
      using p(1) c append_take_drop_id [of "Suc (length u)" line] by simp
    then have "head_word line = p" "CHR '' '' \<in> set line"
      using head_word_append [OF \<open>CHR '' '' \<notin> set p\<close>] by (metis, metis in_set_conv_decomp)
    then show "(u, True) = key line" using p(2) by (simp add: key_def)
  next
    assume "(u, True) = key line"
    then have u: "map to_lower (head_word line) = u" "CHR '' '' \<in> set line" by (simp_all add: key_def)
    then obtain r where r: "line = head_word line @ CHR '' '' # r" using head_word_split by blast
    have "length (head_word line) = length u" using u(1) by (metis length_map)
    then have "take (Suc (length u)) line = head_word line @ '' ''" by (subst r) simp
    then show "ncase_eq (length (u @ '' '')) line (u @ '' '')"
      using l b u(1) by simp
  qed
qed

lemma matches_key: "row_ok row \<Longrightarrow> matches line row \<longleftrightarrow> row_key row = key line"
proof -
  obtain w off v where row: "row = (w, off, v)" by (cases row)
  assume ok: "row_ok row"
  show ?thesis
  proof (cases off)
    case None
    then show ?thesis using ok word_match [of w line] by (simp add: row row_ok_def row_key_def matches_def)
  next
    case (Some n)
    then have "butlast w @ '' '' = w" using ok append_butlast_last_id [of w] by (simp add: row row_ok_def)
    then show ?thesis using ok start_match [of "butlast w" line] Some by (simp add: row row_ok_def row_key_def matches_def)
  qed
qed

lemma table_ok: "list_all row_ok command_table" and table_distinct: "distinct (map row_key command_table)"
  by code_simp+

lemma dispatch_hit:
  assumes "row \<in> set rows" and "matches line row" and "list_all row_ok rows" and "distinct (map row_key rows)"
  shows "dispatch rows line = Some (snd (snd row), map_option (\<lambda>n. drop n line) (fst (snd row)))"
  using assms
proof (induction rows)
  case (Cons r rows)
  show ?case
  proof (cases "r = row")
    case True
    then show ?thesis using Cons.prems by simp
  next
    case False
    then have "row \<in> set rows" "row_key r \<noteq> row_key row" using Cons.prems(1, 4) by (auto simp: image_iff)
    moreover have "row_key row = key line" using Cons.prems matches_key [of row line] \<open>row \<in> set rows\<close> by (auto simp: list_all_iff)
    ultimately have "\<not> matches line r" using Cons.prems(3) matches_key [of r line] by simp
    then show ?thesis using Cons \<open>row \<in> set rows\<close> by simp
  qed
qed simp

lemma dispatch_none: "(\<forall>row \<in> set rows. \<not> matches line row) \<Longrightarrow> dispatch rows line = None"
  by (induction rows) simp_all

lemma directions_ok: "list_all (\<lambda>d. map to_lower d = d \<and> CHR '' '' \<notin> set d) directions"
  by code_simp

lemma exits_directions: "list_all (\<lambda>(r, d, r'). d \<in> set directions) exits"
  by code_simp

lemma exit_loop_case: "exit_loop es r d = Some b \<Longrightarrow> \<exists>(x, e, y) \<in> set es. case_eq d e"
  by (induction es r d rule: exit_loop.induct) (auto split: if_splits)

lemma no_move:
  assumes "\<And>d. d \<in> set directions \<Longrightarrow> key line \<noteq> (d, False)"
  shows "hg_room_move room line = -1"
proof -
  have no: "\<not> case_eq line d" if "d \<in> set directions" for d
    using assms [OF that] word_match [of d line] directions_ok that by (auto simp: list_all_iff)
  then have "exit_loop exits (unat room) line = None"
    using exit_loop_case [of exits "unat room" line] exits_directions by (cases "exit_loop exits (unat room) line") (auto simp: list_all_iff)
  then show ?thesis using no by (auto simp: hg_room_move_def)
qed

lemma special_keys:
  "case_eq line ''look'' \<longleftrightarrow> key line = (''look'', False)" "case_eq line ''l'' \<longleftrightarrow> key line = (''l'', False)"
  "ncase_eq 5 line ''look '' \<longleftrightarrow> key line = (''look'', True)" "ncase_eq 3 line ''go '' \<longleftrightarrow> key line = (''go'', True)"
proof -
  have w: "map to_lower ''look'' = ''look''" "map to_lower ''l'' = ''l''" "map to_lower ''go'' = ''go''" by code_simp+
  show "case_eq line ''look'' \<longleftrightarrow> key line = (''look'', False)" using word_match [OF w(1), of line] by auto
  show "case_eq line ''l'' \<longleftrightarrow> key line = (''l'', False)" using word_match [OF w(2), of line] by auto
  show "ncase_eq 5 line ''look '' \<longleftrightarrow> key line = (''look'', True)" using start_match [OF w(1), of line] by (auto simp: numeral_eq_Suc)
  show "ncase_eq 3 line ''go '' \<longleftrightarrow> key line = (''go'', True)" using start_match [OF w(3), of line] by (auto simp: numeral_eq_Suc)
qed

lemma table_keys:
  "list_all (\<lambda>k. k \<notin> row_key ` set command_table) [(''look'', False), (''l'', False), (''look'', True), (''go'', True)]"
  "list_all (\<lambda>row. fst row = ''down'' \<or> fst row = ''up'' \<or> row_key row \<notin> (\<lambda>d. (d, False)) ` set directions) command_table"
  "list_all (\<lambda>(w, off, v). off = None \<or> off = Some (length w) \<or> w = ''unwield '') command_table"
  by code_simp+

lemma plain_line:
  assumes "key line \<notin> {(''look'', False), (''l'', False), (''look'', True), (''go'', True)}"
    and "key line \<notin> (\<lambda>d. (d, False)) ` set directions"
  shows "hg_world_command h x a wsi line st = (case dispatch command_table line of
      None \<Rightarrow> Inr (hg_session_queue a wsi hg_unknown_command st) | Some (v, arg) \<Rightarrow> run_verb v h x a wsi arg st)"
proof -
  have "hg_room_move (s_room (sess st a)) line = -1" using assms(2) by (intro no_move) auto
  then show ?thesis using assms(1) by (simp add: hg_world_command_def direction_of_def special_keys)
qed

lemma dictionary_row:
  assumes row: "(w, off, v) \<in> set command_table" "matches line (w, off, v)" "w \<noteq> ''down''" "w \<noteq> ''up''"
  shows "hg_world_command h x a wsi line st = run_verb v h x a wsi (map_option (\<lambda>n. drop n line) off) st"
    and "off = None \<or> off = Some (length w) \<or> w = ''unwield '' \<and> off = Some 7"
proof -
  have k: "row_key (w, off, v) = key line" using row table_ok matches_key by (auto simp: list_all_iff)
  have "key line \<in> row_key ` set command_table" using k row(1) by (metis imageI)
  then have "key line \<notin> {(''look'', False), (''l'', False), (''look'', True), (''go'', True)}" using table_keys(1) by auto
  moreover have "key line \<notin> (\<lambda>d. (d, False)) ` set directions" using table_keys(2) row k by (fastforce simp: list_all_iff)
  ultimately have "hg_world_command h x a wsi line st = run_verb v h x a wsi (map_option (\<lambda>n. drop n line) off) st"
    by (simp add: plain_line dispatch_hit [OF row(1, 2) table_ok table_distinct])
  moreover have "off = None \<or> off = Some (length w) \<or> w = ''unwield ''" using table_keys(3) row(1) by (auto simp: list_all_iff)
  moreover have "w = ''unwield '' \<Longrightarrow> off = Some 7"
    using row(1) by (simp add: command_table_def)
  ultimately show "off = None \<or> off = Some (length w) \<or> w = ''unwield '' \<and> off = Some 7"
    and "hg_world_command h x a wsi line st = run_verb v h x a wsi (map_option (\<lambda>n. drop n line) off) st" by blast+
qed

text \<open>C4. The chain of comparisons is a dictionary.  No row of the command table hides another: a line that matches a row, in
  any letter case, runs the command of that row, whatever stands before it, except the rows of down and up, which no
  line reaches, as a move is tried first.  The argument is NULL for a bare word and otherwise what follows the blank
  (for unwield it starts one byte early, at the blank).  A line that is no look, no move and in no row is answered as unknown.\<close>

theorem command_dictionary:
  "(\<forall>(w, off, v) \<in> set command_table. matches line (w, off, v) \<and> w \<noteq> ''down'' \<and> w \<noteq> ''up'' \<longrightarrow>
      hg_world_command h x a wsi line st = run_verb v h x a wsi (map_option (\<lambda>n. drop n line) off) st \<and>
      (off = None \<or> off = Some (length w) \<or> w = ''unwield '' \<and> off = Some 7)) \<and>
    (key line \<notin> {(''look'', False), (''l'', False), (''look'', True), (''go'', True)} \<and>
      key line \<notin> (\<lambda>d. (d, False)) ` set directions \<and> (\<forall>row \<in> set command_table. \<not> matches line row) \<longrightarrow>
      hg_world_command h x a wsi line st = Inr (hg_session_queue a wsi hg_unknown_command st))"
proof -
  have "hg_world_command h x a wsi line st = run_verb v h x a wsi (map_option (\<lambda>n. drop n line) off) st \<and>
      (off = None \<or> off = Some (length w) \<or> w = ''unwield '' \<and> off = Some 7)"
    if "(w, off, v) \<in> set command_table" "matches line (w, off, v)" "w \<noteq> ''down''" "w \<noteq> ''up''" for w off v
    using dictionary_row [OF that] by blast
  then have "\<forall>(w, off, v) \<in> set command_table. matches line (w, off, v) \<and> w \<noteq> ''down'' \<and> w \<noteq> ''up'' \<longrightarrow>
      hg_world_command h x a wsi line st = run_verb v h x a wsi (map_option (\<lambda>n. drop n line) off) st \<and>
      (off = None \<or> off = Some (length w) \<or> w = ''unwield '' \<and> off = Some 7)" by blast
  then show ?thesis using dispatch_none [of command_table line] by (simp add: plain_line)
qed

section \<open>A missing argument\<close>

definition no_null :: "mem_error + 'a \<Rightarrow> bool" where
  "no_null r \<longleftrightarrow> r \<noteq> Inl (Bad_address 0)"

named_theorems no_null_intros

lemma no_null_Inr [no_null_intros, simp]: "no_null (Inr x)"
  by (simp add: no_null_def)

lemma no_null_bounds [no_null_intros, simp]: "no_null (Inl (Out_of_bounds m n))"
  by (simp add: no_null_def)

lemma no_null_ebind [no_null_intros]: "no_null r \<Longrightarrow> (\<And>y. no_null (f y)) \<Longrightarrow> no_null (ebind r f)"
  by (cases r) (auto simp: no_null_def)

lemma no_null_queue_buf [no_null_intros, simp]: "no_null (queue_buf cap a wsi r st)"
  by (cases r) (simp add: queue_buf_def no_null_def Let_def)

lemma no_null_stray [no_null_intros, simp]: "no_null (Inl (Stray_address p))" "no_null (Inl (Overlapping n))"
  by (simp_all add: no_null_def)

lemma no_null_kept_words [no_null_intros]:
  "(\<And>v w. no_null (f v w)) \<Longrightarrow> no_null (case u of Inl p \<Rightarrow> Inl (Stray_address p) | Inr (v, w) \<Rightarrow> f v w)"
  by (cases u) (simp_all add: case_prod_beta)

lemma no_null_lower [no_null_intros]: "no_null (grid_lower u p t)"
  by (induction u p t rule: grid_lower.induct) (simp_all add: no_null_ebind)

lemma no_null_match [no_null_intros]: "no_null (grid_match_world u rows target)"
proof -
  have "no_null (match_part u t rows i)" for t rows i
    by (induction u t rows i rule: match_part.induct) (auto intro!: no_null_intros)
  then show ?thesis by (simp add: grid_match_world_def split: option.split)
qed

lemma no_null_remove [no_null_intros]: "no_null (inv_remove_slot up i s)"
  by (simp add: inv_remove_slot_def Let_def)

lemma no_null_give [no_null_intros]: "no_null (hg_cmd_give h x a wsi arg st)"
  by (auto simp: hg_cmd_give_def Let_def split: option.split intro!: no_null_intros)

lemma no_null_put_item: "no_null (put_item cap acc t)"
  by (cases acc) (simp add: put_item_def no_null_def)

lemma no_null_close_array: "no_null (close_array cap acc)"
  by (cases acc) (simp add: close_array_def no_null_def)

lemma no_null_roll_loop: "no_null (roll_loop cap f item i rows acc st)"
  by (induction cap f item i rows acc st rule: roll_loop.induct) (auto intro!: no_null_intros no_null_put_item)

lemma no_null_roll [no_null_intros]: "no_null (roll cap f item rows st)"
  unfolding roll_def
  by (auto intro!: no_null_intros no_null_roll_loop no_null_put_item no_null_close_array split: prod.split)

lemma no_null_report [no_null_intros]: "no_null (fst (f (n_grid st) st)) \<Longrightarrow> no_null (report f st)"
  by (auto simp: report_def split: prod.split intro!: no_null_intros)

lemma no_null_emitters [no_null_intros]:
  "no_null (fst (hg_emit_saved_roll_now env a g st))" "no_null (fst (hg_emit_fallen_roll_now env a g st))"
  "no_null (fst (hg_emit_gridstats_cmd_now env a g st))" "no_null (fst (hg_emit_gridprune_cmd_now env a g st))"
  by (auto simp: hg_emit_saved_roll_now_def hg_emit_fallen_roll_now_def emit_fallen_roll_def hg_emit_gridstats_cmd_now_def
      hg_emit_gridprune_cmd_now_def Let_def split: prod.split option.split intro!: no_null_intros)

lemma no_null_commands [no_null_intros]:
  "no_null (fst (hg_cmd_ping env low a wsi arg g st))" "no_null (fst (hg_cmd_listen env rnd a wsi g st))"
  "no_null (fst (hg_cmd_worlds env clock now zf a wsi g st))" "no_null (fst (hg_cmd_travel env clock now zf a wsi arg g st))"
  "no_null (hg_cmd_inscribe h c a wsi arg st1)" "no_null (hg_cmd_exits a wsi st)"
proof -
  have remote: "no_null (fst (ping_all_remote env low g))" for env :: "('j, 'w) env" and low g
    by (simp add: ping_all_remote_def no_null_def split: prod.split)
  show "no_null (fst (hg_cmd_ping env low a wsi arg g st))"
    using remote [of env low g]
    by (auto simp: hg_cmd_ping_def Let_def split: prod.split intro!: no_null_intros)
  show "no_null (fst (hg_cmd_listen env rnd a wsi g st))"
    by (auto simp: hg_cmd_listen_def Let_def split: prod.split option.split)
  have worlds: "no_null (fst (hg_cmd_worlds env clock now zf a wsi g st))" for st
    by (auto simp: hg_cmd_worlds_def Let_def split: prod.split)
  then show "no_null (fst (hg_cmd_worlds env clock now zf a wsi g st))" .
  show "no_null (fst (hg_cmd_travel env clock now zf a wsi arg g st))"
    by (auto simp: hg_cmd_travel_def Let_def worlds split: prod.split option.split intro!: no_null_intros)
  show "no_null (hg_cmd_inscribe h c a wsi arg st1)"
    by (auto simp: hg_cmd_inscribe_def Let_def intro!: no_null_intros)
  show "no_null (hg_cmd_exits a wsi st)" by (simp add: hg_cmd_exits_def Let_def)
qed

lemma no_null_tell: "no_null (tell_impl a arg st)"
  by (auto simp: tell_impl_def Let_def split: prod.split intro!: no_null_intros)

lemma no_null_social [no_null_intros]:
  "no_null (hg_cmd_tell a wsi arg st)" "no_null (hg_cmd_reply a wsi arg st)"
  "no_null (hg_cmd_saved h a wsi st1)" "no_null (hg_cmd_gridstats h a wsi st1)" "no_null (hg_cmd_gridprune h a wsi st1)"
  "no_null (hg_cmd_witness h x a wsi arg st2)"
  by (auto simp: hg_cmd_tell_def hg_cmd_reply_def hg_cmd_saved_def hg_cmd_gridstats_def hg_cmd_gridprune_def
      hg_cmd_witness_def Let_def split: prod.split option.split intro!: no_null_intros no_null_tell)

lemma run_verb_no_null:
  assumes "v \<noteq> V_gridcast" and "v \<noteq> V_consider"
  shows "no_null (run_verb v h x a wsi arg st)"
  using assms by (cases v) (simp_all add: no_null_intros)

lemma run_verb_null:
  assumes "run_verb v h x a wsi arg st = Inl (Bad_address 0)"
  shows "arg = None \<and> (v = V_gridcast \<or> v = V_consider \<and> rat_here a st)"
proof -
  have here: "rat_here a (setup_cmd a wsi st) = rat_here a st" by (simp add: rat_here_def setup_cmd_def)
  have "v = V_gridcast \<or> v = V_consider"
    using assms run_verb_no_null [of v h x a wsi arg st] by (auto simp: no_null_def)
  then show ?thesis
    using assms here by (auto simp: hg_cmd_gridcast_def hg_cmd_consider_def Let_def split: option.splits if_splits prod.splits)
qed

lemma dispatch_some:
  "dispatch rows line = Some (v, arg) \<Longrightarrow> \<exists>(w, off, v') \<in> set rows. v' = v \<and> matches line (w, off, v) \<and> arg = map_option (\<lambda>n. drop n line) off"
  by (induction rows) (auto split: if_splits)

lemma null_rows:
  "filter (\<lambda>(w, off, v). off = None \<and> (v = V_gridcast \<or> v = V_consider)) command_table =
     [(''consider'', None, V_consider), (''con'', None, V_consider), (''gridcast'', None, V_gridcast), (''gc'', None, V_gridcast)]"
  by (simp add: command_table_def)

lemma null_row: "(w, None, v) \<in> set command_table \<and> (v = V_gridcast \<or> v = V_consider) \<longleftrightarrow>
    v = V_consider \<and> (w = ''consider'' \<or> w = ''con'') \<or> v = V_gridcast \<and> (w = ''gridcast'' \<or> w = ''gc'')"
  using arg_cong [OF null_rows, of "\<lambda>rows. (w, None, v) \<in> set rows"] by auto

text \<open>C19. A bare word can stop the node.  Of all lines, exactly these make a command follow the NULL it gets for a
  missing argument: gridcast or gc alone, for any player anywhere, and consider or con alone while the glow-rat
  is in the room.  Every other command tests its argument first.\<close>

theorem null_argument_stops:
  "hg_world_command h x a wsi line st = Inl (Bad_address 0) \<longleftrightarrow>
     case_eq line ''gridcast'' \<or> case_eq line ''gc'' \<or> (case_eq line ''consider'' \<or> case_eq line ''con'') \<and> rat_here a st"
proof
  assume f: "hg_world_command h x a wsi line st = Inl (Bad_address 0)"
  then obtain v arg where d: "dispatch command_table line = Some (v, arg)" "run_verb v h x a wsi arg st = Inl (Bad_address 0)"
    by (auto simp: hg_world_command_def Let_def split: if_splits prod.splits option.splits)
  then have v: "arg = None" "v = V_gridcast \<or> v = V_consider \<and> rat_here a st" using run_verb_null by blast+
  from dispatch_some [OF d(1)] obtain w where w: "(w, None, v) \<in> set command_table" "matches line (w, None, v)"
    using v(1) by auto
  then have "case_eq line w" by (simp add: matches_def)
  moreover have "v = V_gridcast \<and> w \<in> {''gridcast'', ''gc''} \<or> v = V_consider \<and> w \<in> {''consider'', ''con''}"
    using null_row [of w v] w(1) v(2) by auto
  ultimately show "case_eq line ''gridcast'' \<or> case_eq line ''gc'' \<or>
      (case_eq line ''consider'' \<or> case_eq line ''con'') \<and> rat_here a st" using v(2) by auto
next
  assume l: "case_eq line ''gridcast'' \<or> case_eq line ''gc'' \<or> (case_eq line ''consider'' \<or> case_eq line ''con'') \<and> rat_here a st"
  have here: "rat_here a (setup_cmd a wsi st) = rat_here a st" by (simp add: rat_here_def setup_cmd_def)
  have rows: "(''gridcast'', None, V_gridcast) \<in> set command_table" "(''gc'', None, V_gridcast) \<in> set command_table"
      "(''consider'', None, V_consider) \<in> set command_table" "(''con'', None, V_consider) \<in> set command_table"
    by (simp_all add: null_row [THEN iffD2, THEN conjunct1])
  have run: "hg_world_command h x a wsi line st = run_verb v h x a wsi None st"
    if "(w, None, v) \<in> set command_table" "case_eq line w" "w \<noteq> ''down''" "w \<noteq> ''up''" for w v
    using dictionary_row(1) [OF that(1) _ that(3, 4)] that(2) by (simp add: matches_def)
  from l show "hg_world_command h x a wsi line st = Inl (Bad_address 0)"
  proof (elim disjE conjE)
    assume "case_eq line ''gridcast''" then show ?thesis using run [OF rows(1)] by (simp add: hg_cmd_gridcast_def)
  next
    assume "case_eq line ''gc''" then show ?thesis using run [OF rows(2)] by (simp add: hg_cmd_gridcast_def)
  next
    assume "case_eq line ''consider''" "rat_here a st"
    then show ?thesis using run [OF rows(3)] here by (simp add: hg_cmd_consider_def)
  next
    assume "case_eq line ''con''" "rat_here a st"
    then show ?thesis using run [OF rows(4)] here by (simp add: hg_cmd_consider_def)
  qed
qed

section \<open>The login and the world\<close>

text \<open>The command that \<open>Login\<close> leaves open; after a fault there is no state, and what stands here for it is never used.\<close>

definition world_of :: "('j, 'w) host \<Rightarrow> outside \<Rightarrow> ('w, 'b) town_scheme \<Rightarrow> addr \<Rightarrow> addr \<Rightarrow> string \<Rightarrow> ('w, 'b) town_scheme" where
  "world_of h x st a wsi line = (case hg_world_command h x a wsi line st of Inr st' \<Rightarrow> st' | Inl e \<Rightarrow> st)"

lemma receive_plays:
  assumes "s_state (sess st a) = HG_LOGIN_PLAY" and "play_line h x a wsi input st = Inr st'"
  shows "app_receive h (\<lambda>a wsi line st. world_of h x st a wsi line) (o_call x) a wsi input st = st'"
  using assms by (simp add: app_receive_def play_line_def world_of_def Let_def HG_LOGIN_NAME_def HG_LOGIN_PLAY_def
      HG_LOGIN_RACE_def HG_LOGIN_PASSPHRASE_def HG_LOGIN_TOKEN_def)

section \<open>A small town\<close>

definition calm :: outside where
  "calm = \<lparr>o_call = at_clock 1000, o_zf = (\<lambda>s t. s = t), o_zfcase = case_eq, o_stale = (\<lambda>_. []), o_junk = 0,
     o_clock = (\<lambda>_. 0), o_rand = 0, o_low = 0\<rparr>"

text \<open>Two players, in any room.\<close>

definition stage :: "session \<Rightarrow> session \<Rightarrow> unit town" where
  "stage s t = \<lparr>sess = (\<lambda>_. zero_session)(7 := s, 8 := t), writable = [], undefs_of = tame, table = 7 # 8 # replicate 30 0,
     wsi_table = 3 # 4 # replicate 30 0, session_count = 2, world_tick = 0, rat_alive = 1, cache_gold = replicate 64 0,
     n_grid = remote_grid (), n_fs = \<lparr>files = (\<lambda>_. None)\<rparr>, n_rat_hp = 12, n_rat_died = 0, n_heartbeat = 0,
     t_deeds = [], t_forgiven = [], t_kept = [], t_cells_ready = 0, t_transit_ready = 0\<rparr>"

lemma stage_cells [simp]:
  "sess (stage s t) = (\<lambda>_. zero_session)(7 := s, 8 := t)" "table (stage s t) = 7 # 8 # replicate 30 0"
  "cache_gold (stage s t) = replicate 64 0" "t_forgiven (stage s t) = []"
  by (simp_all add: stage_def)

theorem command_dictionary_witness:
  "hg_world_command lone_host calm 7 3 ''GIVE rope zed'' (stage mira mira) =
     run_verb V_give lone_host calm 7 3 (Some ''rope zed'') (stage mira mira) \<and>
   hg_world_command lone_host calm 7 3 ''dance'' (stage mira mira) =
     Inr (hg_session_queue 7 3 hg_unknown_command (stage mira mira))"
proof
  have row: "(''give '', Some 5, V_give) \<in> set command_table" by (simp add: command_table_def)
  have m: "matches ''GIVE rope zed'' (''give '', Some 5, V_give)" by code_simp
  show "hg_world_command lone_host calm 7 3 ''GIVE rope zed'' (stage mira mira) =
      run_verb V_give lone_host calm 7 3 (Some ''rope zed'') (stage mira mira)"
    using command_dictionary [of "''GIVE rope zed''" lone_host calm 7 3 "stage mira mira", THEN conjunct1, rule_format, OF row] m by simp
  have "list_all (\<lambda>row. \<not> matches ''dance'' row) command_table" "key ''dance'' \<notin> {(''look'', False), (''l'', False), (''look'', True), (''go'', True)}"
      "list_all (\<lambda>d. key ''dance'' \<noteq> (d, False)) directions" by code_simp+
  then show "hg_world_command lone_host calm 7 3 ''dance'' (stage mira mira) =
      Inr (hg_session_queue 7 3 hg_unknown_command (stage mira mira))"
    using command_dictionary [of "''dance''" lone_host calm 7 3 "stage mira mira", THEN conjunct2] by (auto simp: list_all_iff)
qed

end
