(* ===== verification/Market.thy ===== *)
theory Market
  imports Laws Town
begin

text \<open>
  What a whole play can do to a player: the moral marks, the gold, the things carried.  The laws of
  \<open>Laws\<close> are interpreted on the marks and on the gold.
\<close>

section \<open>Marks\<close>

definition marks_hold :: "session \<Rightarrow> session \<Rightarrow> bool" where
  "marks_hold s s' \<longleftrightarrow> (s_ashsworn s \<noteq> 0 \<longrightarrow> s_ashsworn s' \<noteq> 0) \<and> (s_strayed s \<noteq> 0 \<longrightarrow> s_strayed s' \<noteq> 0) \<and>
     (s_redeemed s \<noteq> 0 \<longrightarrow> s_redeemed s' \<noteq> 0) \<and> (s_redeemed s' \<noteq> 0 \<longrightarrow> s_redeemed s \<noteq> 0 \<or> s_strayed s' \<noteq> 0)"

interpretation marks: free_law marks_hold "\<lambda>_ _. True"
  by unfold_locales (auto simp: marks_hold_def vital_def inv_add_internal_def inv_remove_slot_def Let_def split: if_splits)

section \<open>Gold\<close>

interpretation purses: law "\<lambda>s s'. s_gold s' = s_gold s" "\<lambda>c c'. c' = c"
  by unfold_locales (auto simp: vital_def inv_add_internal_def inv_remove_slot_def Let_def split: if_splits)

abbreviation same_purses :: "'a wstate_scheme \<Rightarrow> 'a wstate_scheme \<Rightarrow> bool" where
  "same_purses \<equiv> kept (\<lambda>s s'. s_gold s' = s_gold s) (\<lambda>c c'. c' = c)"

text \<open>What a player and all caches hold together; it may change by \<open>d\<close> while nobody else's gold does.\<close>

definition wealth :: "addr \<Rightarrow> 'a wstate_scheme \<Rightarrow> i64" where
  "wealth a st = s_gold (sess st a) + sum_list (cache_gold st)"

definition moved :: "i64 \<Rightarrow> addr \<Rightarrow> 'a wstate_scheme \<Rightarrow> 'a wstate_scheme \<Rightarrow> bool" where
  "moved d a st st' \<longleftrightarrow> wealth a st' = wealth a st + d \<and> (\<forall>b. b \<noteq> a \<longrightarrow> s_gold (sess st' b) = s_gold (sess st b)) \<and>
     length (cache_gold st') = length (cache_gold st)"

lemma moved_then: "moved d a st st1 \<Longrightarrow> same_purses st1 st2 \<Longrightarrow> moved d a st st2"
  by (simp add: moved_def kept_def wealth_def)

lemma moved_after: "same_purses st st1 \<Longrightarrow> moved d a st1 st2 \<Longrightarrow> moved d a st st2"
  by (simp add: moved_def kept_def wealth_def)

lemma moved_same: "same_purses st st1 \<Longrightarrow> moved 0 a st st1"
  by (simp add: moved_def kept_def wealth_def)

text \<open>By what it may change in a room: requisition, a drink, a theft, the three wares of the workshop.\<close>

definition sums :: "i64 \<Rightarrow> i64 list" where
  "sums room = [0, 15] @ (if room = 1 then [-10] else if room = 2 then [12] else if room = 4 then [-14, -18, -20] else [])"

lemma moved_pay: "moved (- price) a st (pay h x a price item st)"
  by (simp add: moved_def wealth_def pay_def inv_add_internal_def)

lemma moved_buy: "\<exists>d \<in> set (sums (s_room (sess st a))). moved d a st (hg_cmd_buy h x a wsi arg st)"
proof -
  let ?st = "setup_cmd a wsi st"
  have s: "same_purses st ?st" by simp
  have room: "s_room (sess ?st a) = s_room (sess st a)" by (simp add: setup_cmd_def)
  have w: "\<exists>d \<in> {0, -14, -18, -20}. moved d a ?st (buy_workshop h x a arg ?st)"
  proof (cases "first_index (\<lambda>(item, _). case_eq item (skip_spaces (or_default arg []))) wares 0")
    case (Some i)
    then have "i < 3" using first_index_bound [OF Some] by (simp add: wares_def)
    then have "i = 0 \<or> i = 1 \<or> i = 2" by linarith
    moreover have "moved (- price) a ?st (emit_vitals_here a (line_buf 160 a t (pay h x a price item ?st)))" for price t item
      by (rule moved_then [of _ _ _ "pay h x a price item ?st", OF moved_pay]) simp
    moreover have "moved 0 a ?st (line_buf 160 a t ?st)" for t by (rule moved_same) simp
    moreover have "buy_workshop h x a arg ?st = (let (item, price, pretty) = wares ! i in
        if s_gold (sess ?st a) <s price then line_buf 160 a (buy_cant_afford (sint price) (sint (s_gold (sess ?st a)))) ?st
        else emit_vitals_here a (line_buf 160 a (buy_hand pretty) (pay h x a price item ?st)))"
      by (simp add: buy_workshop_def Some)
    ultimately show ?thesis by (auto simp: wares_def)
  next
    case None
    then show ?thesis using moved_same [of ?st] by (simp add: buy_workshop_def)
  qed
  have "moved (- 10) a ?st (emit_vitals_here a (line_buf 160 a t (pay h x a 10 item ?st)))" for t item
    by (rule moved_then [of _ _ _ "pay h x a 10 item ?st", OF moved_pay]) simp
  moreover have "moved 0 a ?st (say_line a t ?st)" for t by (rule moved_same) simp
  ultimately have "\<exists>d \<in> set (sums (s_room (sess st a))). moved d a ?st (hg_cmd_buy h x a wsi arg st)"
    using w room by (auto simp: hg_cmd_buy_def Let_def sums_def)
  then show ?thesis using moved_after [OF s] by blast
qed

lemma moved_gold:
  assumes "\<And>s. s_gold (f s) = s_gold s + d" shows "moved d a st (upd_sess a f st)"
  by (simp add: moved_def wealth_def assms)

lemma moved_steal: "\<exists>d \<in> set (sums (s_room (sess st a))). moved d a st (hg_cmd_steal h x a wsi st)"
proof -
  let ?st = "setup_cmd a wsi st"
  let ?paid = "upd_sess a (\<lambda>s. s\<lparr>s_gold := s_gold s + 12\<rparr>) (weigh (-8) a ?st)"
  have room: "s_room (sess ?st a) = s_room (sess st a)" by (simp add: setup_cmd_def)
  have "same_purses ?paid (hg_cmd_steal h x a wsi st)" if "s_room (sess ?st a) = 2"
    using that unfolding hg_cmd_steal_def Let_def by simp
  moreover have "moved 12 a st ?paid"
    by (rule moved_after [of _ "weigh (-8) a ?st"]) (simp_all add: moved_gold)
  moreover have "moved 0 a st (hg_cmd_steal h x a wsi st)" if "s_room (sess ?st a) \<noteq> 2"
    using that by (intro moved_same) (simp add: hg_cmd_steal_def Let_def)
  ultimately have "moved (if s_room (sess st a) = 2 then 12 else 0) a st (hg_cmd_steal h x a wsi st)"
    using moved_then [of 12 a st ?paid] room by auto
  then show ?thesis by (cases "s_room (sess st a) = 2") (auto simp: sums_def)
qed

lemma moved_ability: "\<exists>d \<in> {0, 15}. moved d a st (hg_emit_ability now a wsi st)"
proof -
  let ?st = "setup_cmd a wsi st"
  let ?paid = "upd_sess a (\<lambda>s. s\<lparr>s_gold := s_gold s + 15, s_trait_ready := now + 180000\<rparr>) ?st"
  have "moved 15 a st ?paid" by (rule moved_after [of _ ?st]) (simp_all add: moved_gold)
  then have "moved 15 a st (queue_buffer a wsi r (hg_session_queue a wsi t ?paid))" for r t by (rule moved_then) simp
  moreover have "moved 0 a st (queue_buffer a wsi r ?st)" for r by (rule moved_same) simp
  ultimately show ?thesis by (auto simp: hg_emit_ability_def Let_def)
qed

lemma unat_nonneg: "0 \<le> sint (n :: i64) \<Longrightarrow> unat n = nat (sint n)"
proof -
  assume "0 \<le> sint n"
  moreover have "uint n = sint n mod 2 ^ 64" using uint_word_of_int [of "sint n", where 'a = 64] by simp
  moreover have "sint n < 2 ^ 63" using sint_lt [of n] by simp
  ultimately show ?thesis by (simp flip: nat_uint_eq)
qed

lemma room_index:
  assumes "\<not> (room <s 0 \<or> 64 \<le>s room)" shows "unat (room :: i64) < 64"
proof -
  have "0 \<le> sint room" "sint room < 64" using assms by (auto simp: word_sless_alt word_sle_eq not_less)
  then show ?thesis by (simp add: unat_nonneg)
qed

lemma sum_list_put: "i < length xs \<Longrightarrow> sum_list (xs[i := y]) = sum_list xs - xs ! i + (y :: i64)"
  by (induction xs arbitrary: i) (auto split: nat.split)

lemma moved_cache:
  assumes "length (cache_gold st) = 64" shows "moved 0 a st (hg_cmd_cache h x a wsi arg st)"
proof -
  let ?st = "setup_cmd a wsi st" let ?n = "atoll (skip_spaces (or_default arg []))" let ?room = "s_room (sess ?st a)"
  let ?put = "weigh 2 a (hg_cache_gold_add ?room ?n (upd_sess a (\<lambda>s. s\<lparr>s_gold := s_gold s - ?n\<rparr>) ?st))"
  show ?thesis
  proof (cases "(?room <s 0 \<or> 64 \<le>s ?room) \<or> arg = None \<or> ?n \<le>s 0 \<or> s_gold (sess ?st a) <s ?n")
    case True
    then show ?thesis by (intro moved_same) (auto simp: hg_cmd_cache_def Let_def)
  next
    case False
    then have "\<not> (?room <s 0 \<or> 64 \<le>s ?room)" by blast
    then have "moved 0 a ?st ?put" using room_index [of ?room] assms
      by (simp add: moved_def wealth_def hg_cache_gold_add_def weigh_def sum_list_put setup_cmd_def)
    moreover have "same_purses ?put (hg_cmd_cache h x a wsi arg st)"
      using False unfolding hg_cmd_cache_def Let_def by auto
    ultimately have "moved 0 a ?st (hg_cmd_cache h x a wsi arg st)" by (rule moved_then)
    then show ?thesis by (rule moved_after [rotated]) simp
  qed
qed

lemma moved_gather:
  assumes "length (cache_gold st) = 64" shows "moved 0 a st (hg_cmd_gather h x a wsi st)"
proof -
  let ?st = "setup_cmd a wsi st" let ?room = "s_room (sess ?st a)" let ?n = "hg_cache_gold_peek ?room ?st"
  let ?put = "upd_sess a (\<lambda>s. s\<lparr>s_gold := s_gold s + ?n\<rparr>) (snd (hg_cache_gold_take ?room ?st))"
  show ?thesis
  proof (cases "?n \<le>s 0")
    case True
    then show ?thesis by (intro moved_same) (simp add: hg_cmd_gather_def Let_def)
  next
    case False
    then have r: "\<not> (?room <s 0 \<or> 64 \<le>s ?room)" by (auto simp: hg_cache_gold_peek_def)
    then have "moved 0 a ?st ?put" using room_index [OF r] assms
      by (simp add: moved_def wealth_def hg_cache_gold_take_def hg_cache_gold_peek_def sum_list_put setup_cmd_def)
    moreover have "same_purses ?put (hg_cmd_gather h x a wsi st)"
      using False unfolding hg_cmd_gather_def Let_def by simp
    ultimately have "moved 0 a ?st (hg_cmd_gather h x a wsi st)" by (rule moved_then)
    then show ?thesis by (rule moved_after [rotated]) simp
  qed
qed

section \<open>Things carried\<close>

definition carried :: "session \<Rightarrow> string list" where
  "carried s = take (nat (sint (s_inv_count s))) (s_inventory s)"

definition bag_ok :: "session \<Rightarrow> bool" where
  "bag_ok s \<longleftrightarrow> length (s_inventory s) = 16 \<and> (\<forall>it \<in> set (s_inventory s). length it < 16) \<and>
     0 \<le> sint (s_inv_count s) \<and> sint (s_inv_count s) \<le> 16"

lemma length_copy_cap_16: "length (copy_cap 16 t) < 16"
  by (simp add: copy_cap_def)

lemma count_step:
  assumes "0 \<le> sint (n :: i64)" and "sint n \<le> 16"
  shows "sint n < 16 \<Longrightarrow> sint (n + 1) = sint n + 1" and "0 < sint n \<Longrightarrow> sint (n - 1) = sint n - 1"
  using assms by (simp_all add: sint_word_ariths signed_take_bit_int_eq_self_iff)

lemma length_carried: "bag_ok s \<Longrightarrow> length (carried s) = nat (sint (s_inv_count s))"
  by (auto simp: bag_ok_def carried_def)

lemma carried_add:
  assumes "bag_ok s" and "thing \<noteq> []"
  shows "carried (inv_add_internal thing s) = (if length (carried s) < 16 then carried s @ [copy_cap 16 thing] else carried s)"
    and "bag_ok (inv_add_internal thing s)"
proof -
  let ?n = "sint (s_inv_count s)"
  have n: "0 \<le> ?n" "?n \<le> 16" "length (s_inventory s) = 16" using assms(1) by (simp_all add: bag_ok_def)
  have k: "\<not> s_inv_count s <s 0" "16 \<le>s s_inv_count s \<longleftrightarrow> 16 \<le> ?n" "unat (s_inv_count s) = nat ?n"
    using n by (simp_all add: word_sless_alt word_sle_eq unat_nonneg)
  have l: "length (carried s) < 16 \<longleftrightarrow> ?n < 16" using n length_carried [OF assms(1)] by auto
  have add: "take (Suc (nat ?n)) ((s_inventory s)[nat ?n := y]) = take (nat ?n) (s_inventory s) @ [y]" if "?n < 16" for y
    using n that by (simp add: take_Suc_conv_app_nth)
  show "carried (inv_add_internal thing s) = (if length (carried s) < 16 then carried s @ [copy_cap 16 thing] else carried s)"
    using assms(2) k l count_step [OF n(1, 2)] add n by (auto simp: inv_add_internal_def carried_def nat_add_distrib)
  show "bag_ok (inv_add_internal thing s)"
    using assms k count_step [OF n(1, 2)] n length_copy_cap_16
    by (auto simp: inv_add_internal_def bag_ok_def dest!: set_update_subset_insert [THEN subsetD])
qed

text \<open>Of the bag after a removal: the items behind have moved down.\<close>

definition without :: "nat \<Rightarrow> session \<Rightarrow> session" where
  "without i s = s\<lparr>s_inv_count := s_inv_count s - 1,
     s_inventory := take i (s_inventory s) @ take (unat (s_inv_count s) - i - 1) (drop (Suc i) (s_inventory s)) @ [[]] @
       drop (unat (s_inv_count s)) (s_inventory s)\<rparr>"

lemma removed:
  assumes "bag_ok s" and "i < length (carried s)"
  shows "inv_remove_slot up i s =
    (if up \<or> length (carried s) \<le> i + 2 then Inr (without i s) else Inl (Overlapping (16 * (length (carried s) - i - 1))))"
proof -
  have "length (carried s) = unat (s_inv_count s)" "int i < sint (s_inv_count s)"
    using assms length_carried [OF assms(1)] by (auto simp: bag_ok_def unat_nonneg carried_def)
  then show ?thesis by (simp add: inv_remove_slot_def without_def Let_def not_less_eq_eq) linarith
qed

lemma carried_remove:
  assumes "bag_ok s" and "i < length (carried s)"
  shows "carried (without i s) = take i (carried s) @ drop (Suc i) (carried s)" and "bag_ok (without i s)"
proof -
  let ?n = "sint (s_inv_count s)"
  have n: "0 \<le> ?n" "?n \<le> 16" "length (s_inventory s) = 16" using assms(1) by (simp_all add: bag_ok_def)
  have i: "int i < ?n" "i < nat ?n" using assms(2) n by (simp_all add: carried_def)
  have k: "unat (s_inv_count s) = nat ?n" "sint (s_inv_count s - 1) = ?n - 1"
    using n i count_step [OF n(1, 2)] by (simp_all add: unat_nonneg)
  let ?A = "take i (s_inventory s)" let ?B = "take (nat ?n - i - 1) (drop (Suc i) (s_inventory s))"
  have "nat (?n - 1) = length ?A + length ?B" using i n by auto
  moreover have "take (length ?A + length ?B) (?A @ ?B @ zs) = ?A @ ?B" for zs
    by (metis append.assoc append_eq_conv_conj length_append)
  ultimately have "take (nat (?n - 1)) (?A @ ?B @ zs) = ?A @ ?B" for zs by metis
  then show "carried (without i s) = take i (carried s) @ drop (Suc i) (carried s)"
    using i k n by (simp add: carried_def without_def drop_take min_def)
  show "bag_ok (without i s)"
    using i k n assms(1) by (auto simp: bag_ok_def without_def dest: in_set_takeD in_set_dropD)
qed

lemma bag_kept:
  assumes "bag_ok s" shows "bag_ok (inv_add_internal item s)" and "inv_remove_slot up i s = Inr s' \<Longrightarrow> bag_ok s'"
proof -
  show "bag_ok (inv_add_internal item s)"
    using assms carried_add(2) [OF assms, of item] by (cases "item = []") (simp_all add: inv_add_internal_def)
  show "bag_ok s'" if "inv_remove_slot up i s = Inr s'"
  proof (cases "i < length (carried s)")
    case True
    then show ?thesis using that carried_remove(2) [OF assms] by (auto simp: removed [OF assms] split: if_splits)
  next
    case False
    then have "\<not> int i < sint (s_inv_count s)" using assms length_carried [OF assms] by (auto simp: bag_ok_def)
    then show ?thesis using assms that by (simp add: inv_remove_slot_def Let_def)
  qed
qed

interpretation bags: free_law "\<lambda>s s'. bag_ok s \<longrightarrow> bag_ok s'" "\<lambda>_ _. True"
proof unfold_locales
  show "bag_ok s \<longrightarrow> bag_ok s'" if "vital s = vital s'" for s s' using that by (simp add: vital_def bag_ok_def)
qed (auto simp: bag_kept, simp_all add: bag_ok_def)

section \<open>Play\<close>

text \<open>What happens on a node between two logins: lines of players and heartbeats.\<close>

datatype happening = Line outside addr addr string | Beat call i64

fun live :: "('j, 'w) host \<Rightarrow> happening list \<Rightarrow> ('w, 'b) town_scheme \<Rightarrow> mem_error + ('w, 'b) town_scheme" where
  "live h [] st = Inr st"
| "live h (Line x a wsi input # hs) st = ebind (play_line h x a wsi input st) (live h hs)"
| "live h (Beat c now # hs) st = live h hs (hg_heartbeat h c now st)"

context free_law
begin

lemma live_law: "kept R C st0 st \<Longrightarrow> keeps_law R C st0 (live h hs st)"
proof (induction h hs st rule: live.induct)
  case (2 h x a wsi input hs st)
  show ?case unfolding live.simps by (rule keeps_law_ebind [OF play_line_law [OF 2(2)] 2(1)])
next
  case (3 h c now hs st)
  then show ?case by (simp add: kept_heartbeat)
qed simp

end

text \<open>C12. Gold is not made up.  A line of a player leaves everybody else's gold alone, and changes what the player and all
  caches hold together only by requisition (15), in the tavern by the price of a drink, in the market by a theft (12),
  and in the workshop by the price of one of its three wares; leaving gold in a cache and gathering it move it only.\<close>

theorem gold_moves:
  assumes "play_line h x a wsi input st = Inr st'" and "length (cache_gold st) = 64"
  shows "(\<exists>d \<in> set (sums (s_room (sess st a))). wealth a st' = wealth a st + d) \<and>
    (\<forall>b. b \<noteq> a \<longrightarrow> s_gold (sess st' b) = s_gold (sess st b))"
proof -
  let ?st = "setup_cmd a wsi st"
  have s: "same_purses st ?st" by simp
  have room: "s_room (sess ?st a) = s_room (sess st a)" by (simp add: setup_cmd_def)
  have len: "length (cache_gold ?st) = 64" using assms(2) by (simp add: setup_cmd_def)
  have run: "hg_world_command h x a wsi (cstr (trim_line input)) ?st = Inr st'"
    using assms(1) by (simp add: play_line_def setup_cmd_def)
  have "\<exists>d \<in> set (sums (s_room (sess st a))). moved d a ?st st'"
    using purses.world_command_cases [OF purses.kept_refl, of ?st h x a wsi "cstr (trim_line input)"]
  proof
    assume "keeps_law (\<lambda>s s'. s_gold s' = s_gold s) (\<lambda>c c'. c' = c) ?st
      (hg_world_command h x a wsi (cstr (trim_line input)) ?st)"
    then have "moved 0 a ?st st'" using run by (intro moved_same) simp
    then show ?thesis by (auto simp: sums_def)
  next
    assume "\<exists>v arg. v \<in> {V_buy, V_cache, V_gather, V_steal, V_ability} \<and>
      hg_world_command h x a wsi (cstr (trim_line input)) ?st = run_verb v h x a wsi arg ?st"
    then obtain v arg where v: "v \<in> {V_buy, V_cache, V_gather, V_steal, V_ability}" "run_verb v h x a wsi arg ?st = Inr st'"
      using run by metis
    have "0 \<in> set (sums r)" "15 \<in> set (sums r)" for r by (simp_all add: sums_def)
    then show ?thesis
      using v room moved_buy [of ?st a h x wsi arg] moved_steal [of ?st a h x wsi] moved_ability [of a ?st "c_now (o_call x)" wsi]
        moved_cache [OF len, of a h x wsi arg] moved_gather [OF len, of a h x wsi]
      by (cases v) auto
  qed
  then show ?thesis using moved_after [OF s] by (auto simp: moved_def)
qed

text \<open>C6. The ash does not wash off.  Whatever lines the players send and however many heartbeats pass, in any order:
  nobody who swore to the Front as one of the hunted loses the mark, nobody who strayed is ever unmarked, nobody who
  was redeemed falls from it, and nobody is redeemed who had not strayed.\<close>

theorem marks_never_wash_off:
  assumes "live h hs st = Inr st'"
  shows "(s_ashsworn (sess st b) \<noteq> 0 \<longrightarrow> s_ashsworn (sess st' b) \<noteq> 0) \<and> (s_strayed (sess st b) \<noteq> 0 \<longrightarrow> s_strayed (sess st' b) \<noteq> 0) \<and>
    (s_redeemed (sess st b) \<noteq> 0 \<longrightarrow> s_redeemed (sess st' b) \<noteq> 0) \<and>
    (s_redeemed (sess st' b) \<noteq> 0 \<longrightarrow> s_redeemed (sess st b) \<noteq> 0 \<or> s_strayed (sess st' b) \<noteq> 0)"
proof -
  have "kept marks_hold (\<lambda>_ _. True) st st'" using marks.live_law [OF marks.kept_refl, of st h hs] assms by simp
  then show ?thesis by (simp add: kept_def marks_hold_def)
qed

text \<open>C13. Nobody's bag bursts.  Whatever the players type and however long the node beats, every inventory stays an array
  of sixteen things of at most fifteen bytes with a count from 0 to 16: no purchase, gift, rescue or oath ever writes
  past it or counts past its end.\<close>

theorem bags_never_burst:
  assumes "live h hs st = Inr st'" and "bag_ok (sess st b)"
  shows "bag_ok (sess st' b) \<and> length (carried (sess st' b)) = nat (sint (s_inv_count (sess st' b))) \<and> length (carried (sess st' b)) \<le> 16"
proof -
  have "kept (\<lambda>s s'. bag_ok s \<longrightarrow> bag_ok s') (\<lambda>_ _. True) st st'"
    using bags.live_law [OF bags.kept_refl, of st h hs] assms(1) by simp
  then have "bag_ok (sess st' b)" using assms(2) by (simp add: kept_def)
  moreover have "length (carried s) \<le> 16" if "bag_ok s" for s
    using that length_carried [OF that] by (simp add: bag_ok_def nat_le_iff)
  ultimately show ?thesis using length_carried by blast
qed

definition laden_with :: "string \<Rightarrow> nat \<Rightarrow> session \<Rightarrow> session" where
  "laden_with thing n s = s\<lparr>s_inventory := replicate n thing @ replicate (16 - n) [], s_inv_count := word_of_nat n\<rparr>"

lemma bag_laden [simp]:
  "length t < 16 \<Longrightarrow> bag_ok (laden_with t (Suc 0) s)" "length t < 16 \<Longrightarrow> bag_ok (laden_with t 16 s)"
  "carried (laden_with t (Suc 0) s) = [t]" "carried (laden_with t 16 s) = replicate 16 t"
  "s_name (laden_with t n s) = s_name s" "s_room (laden_with t n s) = s_room s"
  by (simp_all add: bag_ok_def laden_with_def carried_def)

text \<open>A line that names a command of the table, and a player who asks for help while the node beats.\<close>

lemma line_runs:
  assumes "cstr (trim_line w) = w" and "(w, None, v) \<in> set command_table" and "matches w (w, None, v)" and "w \<noteq> ''down''" "w \<noteq> ''up''"
  shows "play_line h x a wsi w st = run_verb v h x a wsi None (upd_sess a (\<lambda>s. s\<lparr>s_wsi := wsi\<rparr>) st)"
  using assms by (simp add: play_line_def dictionary_row(1) [OF assms(2, 3)])

lemma help_and_beat: "\<exists>st'. live h [Line x a wsi ''help'', Beat c now] st = Inr st'"
proof -
  have "cstr (trim_line ''help'') = ''help''" "matches ''help'' (''help'', None, V_help)" by code_simp+
  moreover have "(''help'', None, V_help) \<in> set command_table" by (simp add: command_table_def)
  ultimately show ?thesis by (simp add: line_runs)
qed

text \<open>A thief in the market, and an ash-sworn player who asks for help while the node beats.\<close>

theorem gold_moves_witness:
  "\<exists>st'. play_line lone_host calm 7 3 ''steal'' (stage (mira\<lparr>s_room := 2\<rparr>) mira) = Inr st' \<and>
     (\<exists>d \<in> set (sums 2). wealth 7 st' = wealth 7 (stage (mira\<lparr>s_room := 2\<rparr>) mira) + d) \<and> s_gold (sess st' 8) = s_gold mira"
proof -
  let ?st = "stage (mira\<lparr>s_room := 2\<rparr>) mira"
  have "cstr (trim_line ''steal'') = ''steal''" "matches ''steal'' (''steal'', None, V_steal)" by code_simp+
  moreover have "(''steal'', None, V_steal) \<in> set command_table" by (simp add: command_table_def)
  ultimately obtain st' where r: "play_line lone_host calm 7 3 ''steal'' ?st = Inr st'" by (simp add: line_runs)
  show ?thesis using gold_moves [OF r] r by auto
qed

theorem marks_never_wash_off_witness:
  "\<exists>st'. live lone_host [Line calm 7 3 ''help'', Beat (at_clock 3000) 3000] (stage (mira\<lparr>s_ashsworn := 1\<rparr>) mira) = Inr st' \<and>
     s_ashsworn (sess st' 7) \<noteq> 0"
proof -
  let ?st = "stage (mira\<lparr>s_ashsworn := 1\<rparr>) mira"
  obtain st' where r: "live lone_host [Line calm 7 3 ''help'', Beat (at_clock 3000) 3000] ?st = Inr st'"
    using help_and_beat by blast
  have "s_ashsworn (sess st' 7) \<noteq> 0" using marks_never_wash_off [OF r, of 7] by simp
  with r show ?thesis by blast
qed

theorem bags_never_burst_witness:
  "\<exists>st'. live lone_host [Line calm 7 3 ''help'', Beat (at_clock 3000) 3000] (stage (laden_with ''rope'' 16 mira) mira) = Inr st' \<and>
     length (carried (sess st' 7)) \<le> 16"
proof -
  let ?st = "stage (laden_with ''rope'' 16 mira) mira"
  obtain st' where r: "live lone_host [Line calm 7 3 ''help'', Beat (at_clock 3000) 3000] ?st = Inr st'"
    using help_and_beat by blast
  have "bag_ok (sess ?st 7)" by simp
  from bags_never_burst [OF r this] r show ?thesis by blast
qed

end
