(* ===== verification/Mercy.thy ===== *)
theory Mercy
  imports Market
begin

text \<open>
  Who is meant by a name, what becomes of a thing that is given, and two ways to be good that cost nothing.
\<close>

section \<open>Who is meant\<close>

lemma unique_loop_filter:
  "unique_loop P as found = (case filter (\<lambda>b. b \<noteq> 0 \<and> P b) as of [] \<Rightarrow> found | b # bs \<Rightarrow> if found \<noteq> 0 \<or> bs \<noteq> [] then 0 else b)"
  by (induction P as found rule: unique_loop.induct) (auto split: list.splits)

text \<open>The players of a room whose name starts so, in any letter case.\<close>

definition meant :: "i64 \<Rightarrow> string \<Rightarrow> string option \<Rightarrow> 'a wstate_scheme \<Rightarrow> addr list" where
  "meant room p except st = filter (\<lambda>b. b \<noteq> 0 \<and> s_room (sess st b) = room \<and> s_name (sess st b) \<noteq> [] \<and>
     (case except of None \<Rightarrow> True | Some e \<Rightarrow> \<not> case_eq (s_name (sess st b)) e) \<and> ncase_eq (length p) (s_name (sess st b)) p)
     (slots_of st)"

lemma find_player_meant:
  assumes "0 \<le>s room" and "p \<noteq> []"
  shows "find_player_prefix room (Some p) except st = (case meant room p except st of [b] \<Rightarrow> b | _ \<Rightarrow> 0)"
proof -
  have "\<not> room <s 0" using assms(1) by (simp add: word_sless_alt word_sle_eq)
  then show ?thesis using assms(2)
    by (simp add: find_player_prefix_def or_default_def unique_loop_filter meant_def Let_def conj_assoc split: list.split)
qed

lemma meant_start:
  assumes "c \<in> set (meant room p except st)" and "d \<in> set (meant room (s_name (sess st c)) except st)"
  shows "d \<in> set (meant room p except st)"
proof -
  let ?n = "map to_lower (s_name (sess st c))" and ?m = "map to_lower (s_name (sess st d))"
  have c: "take (length p) ?n = map to_lower p" using assms(1) by (simp add: meant_def ncase_eq_def case_eq_def take_map)
  then have "length p \<le> length ?n" by (metis length_map length_take min.cobounded1)
  moreover have "take (length ?n) ?m = ?n" using assms(2) by (simp add: meant_def ncase_eq_def case_eq_def take_map)
  ultimately have "take (length p) ?m = map to_lower p" using c by (metis min_def take_take)
  then show ?thesis using assms(2) by (simp add: meant_def ncase_eq_def case_eq_def take_map)
qed

text \<open>C40. Names that start alike shadow each other.  mend, give, look and forgive mean the one player of the room whose
  name starts with the word, in any letter case, and nobody when there are two.  So a player whose whole name is the
  start of the name of another one in the room can be meant by no word at all.\<close>

theorem names_shadowed:
  assumes "0 \<le>s room" and "p \<noteq> []"
  shows "(find_player_prefix room (Some p) except st = b \<and> b \<noteq> 0 \<longleftrightarrow> meant room p except st = [b] \<and> b \<noteq> 0) \<and>
    (\<forall>c d. c \<noteq> d \<and> c \<in> set (meant room p except st) \<and> d \<in> set (meant room (s_name (sess st c)) except st) \<longrightarrow>
       find_player_prefix room (Some p) except st = 0)"
proof -
  have f: "find_player_prefix room (Some p) except st = (case meant room p except st of [b] \<Rightarrow> b | _ \<Rightarrow> 0)"
    by (rule find_player_meant [OF assms])
  have "find_player_prefix room (Some p) except st = b \<and> b \<noteq> 0 \<longleftrightarrow> meant room p except st = [b] \<and> b \<noteq> 0"
    unfolding f by (auto split: list.splits)
  moreover have "find_player_prefix room (Some p) except st = 0"
    if "c \<noteq> d" "c \<in> set (meant room p except st)" "d \<in> set (meant room (s_name (sess st c)) except st)" for c d
    using that(1, 2) meant_start [OF that(2, 3)] unfolding f by (auto split: list.splits)
  ultimately show ?thesis by blast
qed

section \<open>Giving\<close>

lemma find_player_spec:
  assumes "find_player_prefix room pre except st = b" and "b \<noteq> 0"
  shows "except = Some e \<Longrightarrow> \<not> case_eq (s_name (sess st b)) e" and "s_room (sess st b) = room \<or> room <s 0"
  using assms by (auto simp: find_player_prefix_def unique_loop_filter Let_def filter_eq_Cons_iff split: if_splits list.splits)

lemma carried_speaks:
  assumes "speaks st (st' :: 'a wstate_scheme)" shows "carried (sess st' c) = carried (sess st c)"
proof -
  have "carried s = carried s'" if "core s = core s'" for s s'
    using that by (cases s, cases s') (simp add: core_def carried_def)
  then show ?thesis using speaks_cells(1) [OF assms] by blast
qed

lemma setup_cells [simp]:
  "carried (s\<lparr>s_wsi := w\<rparr>) = carried s" "bag_ok (s\<lparr>s_wsi := w\<rparr>) = bag_ok s"
  "inv_find_slot f i (s\<lparr>s_wsi := w\<rparr>) = inv_find_slot f i s"
  by (simp_all add: carried_def bag_ok_def inv_find_slot_def)

lemma find_player_setup [simp]: "find_player_prefix room p e (setup_cmd a w st) = find_player_prefix room p e st"
proof -
  have "slots_of (setup_cmd a w st) = slots_of st" by (simp add: slots_of_def setup_cmd_def hg_session_at_def)
  moreover have "s_room (sess (setup_cmd a w st) c) = s_room (sess st c)" "s_name (sess (setup_cmd a w st) c) = s_name (sess st c)" for c
    by (simp_all add: setup_cmd_def)
  ultimately show ?thesis unfolding find_player_prefix_def Let_def by presburger
qed

lemma find_slot_bound: "inv_find_slot f item s = Some i \<Longrightarrow> i < length (carried s)"
proof -
  have "slot_loop f arg k its = Some i \<Longrightarrow> k \<le> i \<and> i < k + length its" for arg k its
    by (induction f arg k its rule: slot_loop.induct) (auto split: if_splits)
  then show "inv_find_slot f item s = Some i \<Longrightarrow> i < length (carried s)"
    by (fastforce simp: inv_find_slot_def carried_def split: if_splits)
qed

text \<open>C21. A gift arrives or is lost.  When the line names a thing the player carries and one other player of the room,
  the giver loses exactly that thing, and its first 15 letters become the last thing the other one carries; if the other
  one already carries 16 things, the gift is gone.  Nobody else's things change.  This is so when the thing is the last
  or the last but one that the giver carries, or when \<^verbatim>\<open>memcpy\<close> copies upwards; otherwise the code lets
  \<^verbatim>\<open>memcpy\<close> copy between overlapping ranges, of which nothing is known.\<close>

theorem gift_arrives_or_is_lost:
  assumes "give_parts (take 199 (skip_spaces t)) = Some (item, who)"
    and "inv_find_slot (o_stale x) (Some item) (sess st a) = Some i"
    and "find_player_prefix (s_room (sess st a)) (Some who) (Some (s_name (sess st a))) st = b" and "b \<noteq> 0"
    and "bag_ok (sess st a)" and "bag_ok (sess st b)" and "carried (sess st a) ! i \<noteq> []" and "carried (sess st a) ! i = thing"
  shows "if u_memcpy_up (undefs_of st) \<or> length (carried (sess st a)) \<le> i + 2 then
      \<exists>st'. hg_cmd_give h x a wsi (Some t) st = Inr st' \<and>
        carried (sess st' a) = take i (carried (sess st a)) @ drop (Suc i) (carried (sess st a)) \<and>
        carried (sess st' b) = (if length (carried (sess st b)) < 16 then carried (sess st b) @ [take 15 thing] else carried (sess st b)) \<and>
        (\<forall>c. c \<noteq> a \<and> c \<noteq> b \<longrightarrow> carried (sess st' c) = carried (sess st c))
    else hg_cmd_give h x a wsi (Some t) st = Inl (Overlapping (16 * (length (carried (sess st a)) - i - 1)))"
proof -
  let ?st = "setup_cmd a wsi st" let ?thing = "copy_cap 16 thing"
  let ?put = "upd_sess b (inv_add_internal ?thing) (upd_sess a (\<lambda>_. without i (sess ?st a)) ?st)"
  have i: "i < length (carried (sess st a))" by (rule find_slot_bound [OF assms(2)])
  have "\<not> case_eq (s_name (sess st b)) (s_name (sess st a))" by (rule find_player_spec(1) [OF assms(3, 4) refl])
  then have "a \<noteq> b" by (auto simp: case_eq_def)
  have item: "s_inventory (sess ?st a) ! i = thing" using assms(8) i by (simp add: carried_def setup_cmd_def)
  have un: "undefs_of ?st = undefs_of st" by (simp add: setup_cmd_def)
  have bag: "bag_ok (sess ?st a)" "carried (sess ?st a) = carried (sess st a)" using assms(5) by (simp_all add: setup_cmd_def)
  have r: "inv_remove_slot up i (sess ?st a) = (if up \<or> length (carried (sess st a)) \<le> i + 2 then Inr (without i (sess ?st a))
      else Inl (Overlapping (16 * (length (carried (sess st a)) - i - 1))))" for up
    using removed [OF bag(1), of i up] i by (simp add: bag(2))
  have give: "hg_cmd_give h x a wsi (Some t) st = ebind (inv_remove_slot (u_memcpy_up (undefs_of st)) i (sess ?st a)) (\<lambda>s.
      let st = save h x b (save h x a (upd_sess b (inv_add_internal ?thing) (upd_sess a (\<lambda>_. s) ?st)));
          st = line_buf 160 a (give_you ?thing (s_name (sess st b))) st
      in Inr (tell_buf 160 b (give_target (s_name (sess st a)) ?thing) st))"
    using assms(1-4) item by (simp add: hg_cmd_give_def Let_def or_default_def un)
  show ?thesis
  proof (cases "u_memcpy_up (undefs_of st) \<or> length (carried (sess st a)) \<le> i + 2")
    case False
    then show ?thesis unfolding give r by simp
  next
    case True
    define u v where "u = s_name (sess (save h x b (save h x a ?put)) b)" and "v = s_name (sess (line_buf 160 a (give_you ?thing u)
        (save h x b (save h x a ?put))) a)"
    define st' where "st' = tell_buf 160 b (give_target v ?thing) (line_buf 160 a (give_you ?thing u) (save h x b (save h x a ?put)))"
    have st': "hg_cmd_give h x a wsi (Some t) st = Inr st'"
      unfolding give r using True by (simp add: st'_def u_def v_def Let_def)
    have "speaks (save h x b (save h x a ?put)) st'" unfolding st'_def by simp
    then have c: "carried (sess st' c) = carried (sess ?put c)" for c using carried_speaks by fastforce
    have "?thing \<noteq> []" "copy_cap 16 thing = take 15 thing" "copy_cap 16 (take 15 thing) = take 15 thing"
      using assms(7, 8) by (simp_all add: copy_cap_def)
    then have "carried (sess st' a) = take i (carried (sess st a)) @ drop (Suc i) (carried (sess st a))"
        "carried (sess st' b) = (if length (carried (sess st b)) < 16 then carried (sess st b) @ [take 15 thing] else carried (sess st b))"
        "\<And>c. c \<noteq> a \<Longrightarrow> c \<noteq> b \<Longrightarrow> carried (sess st' c) = carried (sess st c)"
      using \<open>a \<noteq> b\<close> assms(6) i carried_add(1) [of "sess ?st b" ?thing] carried_remove(1) [OF bag(1), of i] bag(2) by (simp_all add: c)
    with True st' show ?thesis by simp
  qed
qed

section \<open>Cheap goodness\<close>

lemma core_cells:
  assumes "core s = core s'" shows "s_redeemed s = s_redeemed s'" "s_morality s = s_morality s'" "s_inventory s = s_inventory s'"
    "s_inv_count s = s_inv_count s'" "s_room s = s_room s'" "s_name s = s_name s'"
  using assms by (cases s, cases s', simp add: core_def)+

lemma core_says [simp]:
  "core (sess (line_buf cap a t st) c) = core (sess st c)" "core (sess (tell_buf cap a t st) c) = core (sess st c)"
  "core (sess (hg_emit_affects_now a st) c) = core (sess st c)"
  "core (sess (hg_deliver_room room m e st) c) = core (sess st c)"
  "core (sess (hg_emit_forgiven_redeemed_now a b st) c) = core (sess st c)"
  by (rule speaksD(2), simp)+

text \<open>C38. The longer, lonelier road has a short cut.  forgive refuses a player's own name, but compares the whole word
  with it, while it looks the player up by the start of the name.  A strayed player, the only one of the room whose name
  starts with the word, who gives any shorter start of that name is the one forgiven: seven better at once, and redeemed.\<close>

theorem own_name_forgives:
  assumes "first_word (skip_spaces t) = w" and "w \<noteq> []" and "\<not> case_eq w (s_name (sess st a))"
    and "find_player_prefix (s_room (sess st a)) (Some w) None st = a" and "a \<noteq> 0"
    and "s_strayed (sess st a) \<noteq> 0" and "s_redeemed (sess st a) = 0" and "s_ashsworn (sess st a) = 0"
    and "s_faction (sess st a) \<noteq> ''front''" and "\<not> hg_forgiven_has (s_name (sess st a)) (s_name (sess st a)) (t_forgiven (st :: ('w, 'b) town_scheme))"
  shows "s_redeemed (sess (hg_cmd_forgive h x a wsi (Some t) st) a) = 1 \<and>
    s_morality (sess (hg_cmd_forgive h x a wsi (Some t) st) a) = s_morality (sess st a) + 7"
proof -
  let ?st = "setup_cmd a wsi st"
  have c: "s_strayed (sess ?st a) \<noteq> 0" "s_redeemed (sess ?st a) = 0" "s_ashsworn (sess ?st a) = 0" "s_faction (sess ?st a) \<noteq> ''front''"
      "s_name (sess ?st a) = s_name (sess st a)" "t_forgiven ?st = t_forgiven st" "s_morality (sess ?st a) = s_morality (sess st a)"
    using assms(6-9) by (simp_all add: setup_cmd_def) (simp add: upd_sess_def)
  have f: "hg_cmd_forgive h x a wsi (Some t) st = forgive_now h x a a ?st"
    using assms c by (simp add: hg_cmd_forgive_def Let_def or_default_def needs_mercy_def)
  let ?m = "weigh 2 a (weigh 5 a (?st\<lparr>t_forgiven := hg_forgiven_mark (s_name (sess ?st a)) (s_name (sess ?st a)) (t_forgiven ?st),
      t_deeds := hg_deed_add_str (Some (s_name (sess ?st a))) (Some ''forgave'') (t_deeds ?st)\<rparr>))"
  let ?e = "echo x (room_or a ''market'' ?m) ''grace'' (snd (snprintf 160 (grace (s_name (sess ?st a)) (s_name (sess ?st a))))) ?m"
  obtain m :: "('w, 'b) town_scheme" where m: "core (sess (forgive_now h x a a ?st) a) = core (sess (absolve h x a a m) a)"
      "sess m a = (sess ?st a)\<lparr>s_morality := s_morality (sess st a) + 7\<rparr>"
  proof (rule that [of ?e])
    show "core (sess (forgive_now h x a a ?st) a) = core (sess (absolve h x a a ?e) a)"
      unfolding forgive_now_def Let_def by (simp only: core_says) simp
    show "sess ?e a = (sess ?st a)\<lparr>s_morality := s_morality (sess st a) + 7\<rparr>"
      using c(7) by (simp add: weigh_def add.assoc)
  qed
  have "core (sess (absolve h x a a m) a) = core ((sess m a)\<lparr>s_redeemed := 1,
      s_title := (if s_title (sess m a) = [] then the_returned else s_title (sess m a))\<rparr>)"
    using c m(2) by (simp add: absolve_def Let_def)
  then have "core (sess (forgive_now h x a a ?st) a) = core ((sess m a)\<lparr>s_redeemed := 1,
      s_title := (if s_title (sess m a) = [] then the_returned else s_title (sess m a))\<rparr>)" using m(1) by simp
  from core_cells(1, 2) [OF this] show ?thesis using f m(2) by simp
qed

lemma slot_none:
  assumes "\<forall>it \<in> set its. \<not> case_eq it arg" and "\<forall>i. \<not> ncase_eq (length arg) (stale i) arg"
  shows "slot_loop stale arg i its = None"
  using assms by (induction stale arg i its rule: slot_loop.induct) auto

definition laden :: "session \<Rightarrow> bool" where
  "laden s \<longleftrightarrow> s_room s = 3 \<and> bag_ok s \<and> sint (s_inv_count s) = 16 \<and> (\<forall>it \<in> set (carried s). \<not> case_eq it ''antidote'')"

lemma laden_core: "core s = core s' \<Longrightarrow> laden s = laden s'"
  by (simp add: laden_def bag_ok_def carried_def core_cells [of s s'])

lemma free_laden:
  assumes "laden (sess st a)" and "\<forall>i. \<not> ncase_eq 8 (o_stale x i) ''antidote''"
  shows "laden (sess (hg_cmd_free h x a wsi st) a) \<and>
    s_morality (sess (hg_cmd_free h x a wsi st) a) = s_morality (sess st a) + 12"
proof -
  let ?st = "setup_cmd a wsi st" and ?s = "sess st a"
  have l: "s_room ?s = 3" "bag_ok ?s" "sint (s_inv_count ?s) = 16" "\<forall>it \<in> set (carried ?s). \<not> case_eq it ''antidote''"
    using assms(1) by (simp_all add: laden_def)
  have eight: "\<forall>i. \<not> ncase_eq (length ''antidote'') (o_stale x i) ''antidote''" using assms(2) by (simp add: numeral_eq_Suc)
  from l have "inv_find_slot (o_stale x) (Some ''antidote'') ?s = None"
    using slot_none [OF _ eight, of "take 16 (s_inventory ?s)" 0] by (simp add: inv_find_slot_def or_default_def carried_def)
  then have f: "hg_cmd_free h x a wsi st = free_pit_now h x a ?st"
    using l(1) by (simp add: hg_cmd_free_def Let_def setup_cmd_def)
  have full: "inv_add_internal ''antidote'' (sess ?st a) = sess ?st a"
    using l(3) by (simp add: inv_add_internal_def word_sle_eq setup_cmd_def)
  obtain u where u: "sess (freed_first ''Mira'' a (weigh 12 a (upd_sess a (inv_add_internal ''antidote'') ?st))) a =
      ?s\<lparr>s_wsi := wsi, s_morality := s_morality ?s + 12, s_last_freed := u\<rparr>"
    using full by (simp add: freed_first_def weigh_def setup_cmd_def)
  have "core (sess (free_pit_now h x a ?st) a) = core (?s\<lparr>s_wsi := wsi, s_morality := s_morality ?s + 12, s_last_freed := u\<rparr>)"
    unfolding free_pit_now_def Let_def by (simp add: u)
  then have "core (sess (free_pit_now h x a ?st) a) = core (?s\<lparr>s_morality := s_morality ?s + 12, s_last_freed := u\<rparr>)"
    by (simp add: core_def)
  note c = this
  have "laden (?s\<lparr>s_morality := s_morality ?s + 12, s_last_freed := u\<rparr>)"
    using l by (simp add: laden_def bag_ok_def carried_def)
  with laden_core [OF c] core_cells(2) [OF c] show ?thesis unfolding f by simp
qed

text \<open>C39. The maiden is saved for ever.  The pit knows that it was emptied only by the vial in the rescuer's hands.  Who
  carries sixteen other things gets no vial, and every further free is a rescue again, at any pace: twelve better each
  time, as often as one likes.\<close>

theorem pit_pays_forever:
  assumes "laden (sess st a)" and "\<forall>x \<in> set xs. \<forall>i. \<not> ncase_eq 8 (o_stale x i) ''antidote''"
  shows "s_morality (sess (fold (\<lambda>x. hg_cmd_free h x a wsi) xs st) a) = s_morality (sess st a) + 12 * word_of_nat (length xs)"
  using assms
proof (induction xs arbitrary: st)
  case (Cons x xs)
  have "laden (sess (hg_cmd_free h x a wsi st) a)" "s_morality (sess (hg_cmd_free h x a wsi st) a) = s_morality (sess st a) + 12"
    using free_laden [OF Cons.prems(1), of x h wsi] Cons.prems(2) by simp_all
  then show ?case using Cons.IH [of "hg_cmd_free h x a wsi st"] Cons.prems(2) by (simp add: algebra_simps)
qed simp

section \<open>Two players in the market\<close>

lemma slots_of_table: "length (table st) = MAX_SESSIONS \<Longrightarrow> slots_of st = table st"
proof -
  assume l: "length (table st) = MAX_SESSIONS"
  then have "slots_of st = map (\<lambda>i. table st ! i) [0..<length (table st)]" by (simp add: slots_of_def hg_session_at_def)
  then show "slots_of st = table st" by (simp add: map_nth)
qed

lemma slots_stage [simp]: "slots_of (stage s t) = 7 # 8 # replicate 30 0"
  by (simp add: slots_of_table MAX_SESSIONS_def)

lemma filter_absent [simp]: "filter (\<lambda>b. b \<noteq> 0 \<and> P b) (replicate n (0 :: nat)) = []"
  by (induction n) simp_all

lemma loop_absent [simp]: "unique_loop P (replicate n 0) found = found"
  by (induction n) simp_all

definition here :: "string \<Rightarrow> session" where
  "here name = mira\<lparr>s_name := name, s_room := 2\<rparr>"

lemma here_cells [simp]: "s_name (here n) = n" "s_room (here n) = 2"
  by (simp_all add: here_def)

theorem names_shadowed_witness:
  "find_player_prefix 2 (Some ''MIR'') None (stage (here ''Mir'') (here ''Mira'')) = 0"
proof -
  have m: "ncase_eq 3 ''Mir'' ''MIR''" "ncase_eq 3 ''Mira'' ''Mir''" "ncase_eq 3 ''Mir'' ''Mir''" by code_simp+
  have "0 \<le>s (2 :: i64)" by (simp add: word_sle_eq)
  from names_shadowed [OF this, of "''MIR''" None "stage (here ''Mir'') (here ''Mira'')" 7, THEN conjunct2, rule_format, of 7 8]
  show ?thesis using m by (simp add: meant_def numeral_eq_Suc)
qed

text \<open>Zed already carries sixteen ropes: Ann's charm is gone.\<close>

theorem gift_arrives_or_is_lost_witness:
  "\<exists>st'. hg_cmd_give lone_host calm 7 3 (Some ''charm to ZE'') (stage (laden_with ''charm'' 1 (here ''Ann'')) (laden_with ''rope'' 16 (here ''Zed''))) = Inr st' \<and>
     carried (sess st' 7) = [] \<and> carried (sess st' 8) = replicate 16 ''rope''"
proof -
  let ?st = "stage (laden_with ''charm'' 1 (here ''Ann'')) (laden_with ''rope'' 16 (here ''Zed''))"
  have p: "give_parts (take 199 (skip_spaces ''charm to ZE'')) = Some (''charm'', ''ZE'')"
    by (simp add: give_parts_def skip_spaces_def tokens.simps white_def Let_def case_eq_def to_lower_def)
  have n: "ncase_eq 2 ''Zed'' ''ZE''" "\<not> ncase_eq 2 ''Ann'' ''ZE''" "\<not> case_eq ''Zed'' ''Ann''" "case_eq ''charm'' ''charm''" by code_simp+
  have f: "find_player_prefix 2 (Some ''ZE'') (Some ''Ann'') ?st = 8"
    using n by (simp add: find_player_prefix_def or_default_def numeral_eq_Suc case_eq_def)
  have s: "inv_find_slot (o_stale calm) (Some ''charm'') (sess ?st 7) = Some 0"
    using n by (simp add: inv_find_slot_def or_default_def laden_with_def)
  from gift_arrives_or_is_lost [OF p s, of 8 "''charm''" lone_host 3] f show ?thesis by (fastforce simp: Let_def)
qed

theorem own_name_forgives_witness:
  "s_redeemed (sess (hg_cmd_forgive lone_host calm 7 3 (Some ''mir'') (stage ((here ''Mira'')\<lparr>s_strayed := 1\<rparr>) (here ''Zed''))) 7) = 1"
proof -
  let ?st = "stage ((here ''Mira'')\<lparr>s_strayed := 1\<rparr>) (here ''Zed'')"
  have w: "first_word (skip_spaces ''mir'') = ''mir''" "\<not> case_eq ''mir'' ''Mira''" "ncase_eq 3 ''Mira'' ''mir''" "\<not> ncase_eq 3 ''Zed'' ''mir''"
    by code_simp+
  have f: "find_player_prefix 2 (Some ''mir'') None ?st = 7"
    using w by (simp add: find_player_prefix_def or_default_def numeral_eq_Suc)
  have z: "s_redeemed (here ''Mira'') = 0" "s_ashsworn (here ''Mira'') = 0" "s_faction (here ''Mira'') = []"
    by (simp_all add: here_def mira_def zero_session_def)
  show ?thesis
    using own_name_forgives [OF w(1), of ?st 7 lone_host calm 3] w(2) f z by (simp add: hg_forgiven_has_def)
qed

theorem pit_pays_forever_witness:
  "s_morality (sess (fold (\<lambda>x. hg_cmd_free lone_host x 7 3) [calm, calm, calm]
     (stage ((laden_with ''rope'' 16 mira)\<lparr>s_room := 3\<rparr>) mira)) 7) = s_morality mira + 36"
proof -
  let ?s = "(laden_with ''rope'' 16 mira)\<lparr>s_room := 3\<rparr>"
  have r: "\<not> case_eq ''rope'' ''antidote''" "\<not> ncase_eq 8 [] ''antidote''" by code_simp+
  have "laden ?s" using r(1) by (simp add: laden_def bag_ok_def carried_def laden_with_def)
  then have l: "laden (sess (stage ?s mira) 7)" by simp
  have "s_morality ?s = s_morality mira" by (simp add: laden_with_def)
  then show ?thesis
    using pit_pays_forever [OF l, of "[calm, calm, calm]" lone_host 3] r(2) by (simp add: calm_def)
qed

end
