(* ===== verification/Startup.thy ===== *)
theory Startup
  imports Moral Shim
begin

text \<open>
  \<^verbatim>\<open>asm/main.asm\<close>: the settings come from the environment and from the options, the options win; then
  the store, the keeper token, the hub and the world are set up in this order, and the service loop is entered.
\<close>

section \<open>Texts\<close>

definition default_addr :: string where "default_addr = ''0.0.0.0:8793''"
definition default_data :: string where "default_data = ''data''"
definition hg_default_world :: string where "hg_default_world = ''Basalt Relay''"
definition invalid_addr :: string where "invalid_addr = ''invalid --addr, expected HOST:PORT''"
definition store_error :: string where "store_error = ''failed to initialize character store''"
definition admin_token_error :: string where "admin_token_error = ''FATAL: ADMIN_TOKEN must be set'' @ [CHR 0x0A]"

definition lf :: string where "lf = [CHR 0x0A]"

definition usage :: string where
  "usage = ''hollow-grid-asm -- Basalt Relay world server'' @ lf @
     ''Usage: hollow-grid-asm [--addr HOST:PORT] [--world-name NAME] [--data DIR]'' @ lf @
     ''                       [--grid-hub-url URL] [--world-url URL]'' @ lf @
     ''Environment: LISTEN_ADDR, WORLD_NAME, DATA_DIR, GRID_HUB_URL,'' @ lf @
     ''             GRID_HUB_TOKEN, WORLD_URL'' @ lf @ ''Contract: the-hollow-grid/docs/protocol.md''"

definition world_url_text :: "int \<Rightarrow> string" where
  "world_url_text x = sprintf [L ''ws://127.0.0.1:'', I x, L ''/ws'']"

section \<open>Settings\<close>

record settings =
  b_addr :: string
  b_world :: string
  b_data :: string
  b_hub_url :: "string option"
  b_token :: "string option"
  b_world_url :: "string option"

definition from_env :: "(string \<Rightarrow> string option) \<Rightarrow> settings" where
  "from_env getenv = \<lparr>b_addr = or_default (getenv ''LISTEN_ADDR'') default_addr,
     b_world = or_default (getenv ''WORLD_NAME'') hg_default_world, b_data = or_default (getenv ''DATA_DIR'') default_data,
     b_hub_url = getenv ''GRID_HUB_URL'', b_token = getenv ''GRID_HUB_TOKEN'', b_world_url = getenv ''WORLD_URL''\<rparr>"

text \<open>The loop over the options ends the program for help and for what it cannot use.\<close>

datatype stop = Show_help | Bad

definition take_option :: "string \<Rightarrow> (string \<Rightarrow> settings \<Rightarrow> settings) option" where
  "take_option opt =
     (if opt = ''--addr'' then Some (\<lambda>v s. s\<lparr>b_addr := v\<rparr>)
      else if opt = ''--world-name'' then Some (\<lambda>v s. s\<lparr>b_world := v\<rparr>)
      else if opt = ''--data'' then Some (\<lambda>v s. s\<lparr>b_data := v\<rparr>)
      else if opt = ''--grid-hub-url'' then Some (\<lambda>v s. s\<lparr>b_hub_url := Some v\<rparr>)
      else if opt = ''--world-url'' then Some (\<lambda>v s. s\<lparr>b_world_url := Some v\<rparr>)
      else None)"

fun args_loop :: "string list \<Rightarrow> settings \<Rightarrow> stop + settings" where
  "args_loop [] s = Inr s"
| "args_loop (opt # rest) s =
     (if opt = ''--help'' \<or> opt = ''-h'' then Inl Show_help
      else case take_option opt of
        None \<Rightarrow> Inl Bad
      | Some put \<Rightarrow> (case rest of [] \<Rightarrow> Inl Bad | v # vs \<Rightarrow> args_loop vs (put v s)))"

text \<open>\<^verbatim>\<open>sscanf(t, "%127[^:]:%d")\<close> with both fields filled; a number out of range is cut to 32 bits from the
  nearest one of 64.\<close>

definition scan_addr :: "string \<Rightarrow> (string \<times> i32) option" where
  "scan_addr t =
     (let host = take 127 (takeWhile (\<lambda>c. c \<noteq> CHR '':'') t); rest = drop (length host) t; n = dropWhile isspace (tl rest);
          n = (if n \<noteq> [] \<and> (hd n = CHR ''-'' \<or> hd n = CHR ''+'') then tl n else n)
      in if host = [] \<or> rest = [] \<or> hd rest \<noteq> CHR '':'' \<or> n = [] \<or> \<not> is_digit (hd n) then None
         else Some (host, ucast (atoll (tl rest))))"

section \<open>Start\<close>

text \<open>The program ends with a status and a text, or serves the world at an address.  \<open>mkdir_ok\<close>, \<open>curl_up\<close> and
  \<open>handle\<close> are what the calls of the host answer, \<open>admin\<close> is the keeper token of the environment.\<close>

datatype outcome = Exit int string | Serve string i32 string

definition hg_main ::
  "(string \<Rightarrow> string option) \<Rightarrow> string list \<Rightarrow> (string \<Rightarrow> bool) \<Rightarrow> string option \<Rightarrow> (nat \<Rightarrow> i64) \<Rightarrow> bool \<Rightarrow> bool \<Rightarrow> string
     \<Rightarrow> ('w, 'b) node_scheme \<Rightarrow> outcome \<times> string \<times> ('w, 'b) node_scheme" where
  "hg_main getenv argv mkdir_ok admin clock curl_up handle root st =
     (case args_loop argv (from_env getenv) of
        Inl Show_help \<Rightarrow> (Exit 0 usage, root, st)
      | Inl Bad \<Rightarrow> (Exit 2 invalid_addr, root, st)
      | Inr s \<Rightarrow>
          (case scan_addr (b_addr s) of
             None \<Rightarrow> (Exit 2 invalid_addr, root, st)
           | Some (host, port) \<Rightarrow>
               if port <s 1 \<or> 65535 <s port then (Exit 2 invalid_addr, root, st)
               else
                 let url = or_default (b_world_url s) (snd (snprintf 160 (world_url_text (sint port))));
                     (rc, root) = hg_store_init mkdir_ok (b_data s) root
                 in if rc \<noteq> 0 then (Exit 1 store_error, root, st)
                    else if hg_auth_require_admin_token admin \<noteq> 0 then (Exit 1 admin_token_error, root, st)
                    else
                      let st = st\<lparr>n_grid := hg_grid_boot clock curl_up handle (Some (b_world s)) (Some url) (b_hub_url s)
                                   (b_token s) (n_grid st)\<rparr>
                      in (Serve host port (b_world s), root, hg_world_boot st)))"

section \<open>What the options mean\<close>

text \<open>The settings are those of the environment, then the options one after the other: the last one of a kind counts.\<close>

lemma options_in_order:
  assumes "\<forall>(opt, v) \<in> set os. take_option opt \<noteq> None"
  shows "args_loop (concat (map (\<lambda>(opt, v). [opt, v]) os)) s = Inr (fold (\<lambda>(opt, v). the (take_option opt) v) os s)"
  using assms
proof (induction os arbitrary: s)
  case (Cons ov os)
  obtain opt v put where o: "ov = (opt, v)" "take_option opt = Some put" using Cons.prems by (cases ov) auto
  then have "opt \<noteq> ''--help''" "opt \<noteq> ''-h''" by (auto simp: take_option_def)
  then show ?case using Cons o by simp
qed simp

lemma digit_plain: "is_digit c \<Longrightarrow> \<not> isspace c \<and> c \<noteq> CHR ''-'' \<and> c \<noteq> CHR ''+''"
  by (auto simp: is_digit_def isspace_def Let_def)

lemma nat_dec_head: "is_digit (hd (nat_dec n))" "dropWhile isspace (nat_dec n) = nat_dec n"
proof -
  show "is_digit (hd (nat_dec n))" using nat_dec_digits [of n] by (meson hd_in_set nat_dec_nonempty)
  then show "dropWhile isspace (nat_dec n) = nat_dec n"
    using digit_plain by (cases "nat_dec n") (auto dest: nat_dec_nonempty [THEN notE])
qed

lemma atoll_nat_dec: "n < 2 ^ 63 \<Longrightarrow> atoll (nat_dec n) = word_of_nat n"
proof -
  assume n: "n < 2 ^ 63"
  have digits: "takeWhile is_digit (nat_dec n) = nat_dec n" using nat_dec_digits [of n] takeWhile_eq_all_conv by metis
  have "atoll (nat_dec n) = word_of_int (max (- (2 ^ 63)) (min (2 ^ 63 - 1) (int n)))"
    using nat_dec_head [of n] digit_plain [of "hd (nat_dec n)"] by (simp add: atoll_def Let_def digits)
  moreover have "max (- (2 ^ 63)) (min (2 ^ 63 - 1) (int n)) = int n" using n by simp
  ultimately show ?thesis by simp
qed

text \<open>The port that is written is the port that is read.\<close>

lemma scan_addr_written:
  assumes "host \<noteq> []" and "length host \<le> 127" and "CHR '':'' \<notin> set host" and "port < 2 ^ 31"
  shows "scan_addr (host @ '':'' @ nat_dec port) = Some (host, word_of_nat port)"
proof -
  have "takeWhile (\<lambda>c. c \<noteq> CHR '':'') (host @ '':'' @ nat_dec port) = host"
    using assms(3) by (subst takeWhile_append2) auto
  then show ?thesis
    using assms(1, 2, 4) nat_dec_head [of port] digit_plain [of "hd (nat_dec port)"] atoll_nat_dec [of port]
    by (simp add: scan_addr_def Let_def unsigned_of_nat take_bit_nat_eq_self)
qed

text \<open>A port that is four thousand million too high is taken for the low one, and what follows it is ignored.\<close>

lemma scan_addr_cut: "scan_addr ''0.0.0.0:4294976089 or so'' = Some (''0.0.0.0'', 8793)"
  by (simp add: scan_addr_def atoll_def is_digit_def isspace_def dec_val_def digit_val_def Let_def)

text \<open>No node serves without a port, a store and a keeper token, and one that does starts with nobody in it and the rat alive.\<close>

lemma serves_only:
  assumes "hg_main getenv argv mkdir_ok admin clock curl_up handle root st = (Serve host port world, root', st')"
  shows "1 \<le> sint port \<and> sint port \<le> 65535 \<and> (\<exists>t. admin = Some t \<and> t \<noteq> []) \<and> mkdir_ok root' \<and>
    table st' = replicate MAX_SESSIONS 0 \<and> rat_alive st' = 1"
  using assms
  by (auto simp: hg_main_def Let_def hg_store_init_def make_dir_def hg_world_boot_def hg_auth_require_admin_token_def
      word_sless_alt not_less split: sum.splits stop.splits option.splits prod.splits if_splits)

end
