(* ===== verification/Spec2Isabelle.thy ===== *)
theory Spec2Isabelle
  imports Session Json_Escape Json Outbox Rooms Format Format_Grid Auth Policy Registry LocalHub GridHub
    Emit Rolls Voices Store GridPolicy Node Combat Fights Login Gate Shim
    Deeds Social Moral World Laws Town Market Mercy Startup
begin

text \<open>
  Hollow Grid is a text game served over WebSockets.  The engine is x86-64 assembly
  (\<^verbatim>\<open>asm/\<close>); a C layer (\<^verbatim>\<open>ffi/\<close>) formats every text and event, talks to
  libwebsockets, to \<^verbatim>\<open>crypt\<close> and, over HTTP, to a hub shared by several nodes.  This library
  models the C layer and the whole assembly.

  \<^bold>\<open>Parts and theories.\<close>
  \<^item> \<open>HG_Prelude\<close>: machine integers, C strings, \<^verbatim>\<open>snprintf\<close> with its returned
    length, \<^verbatim>\<open>strcasecmp\<close>, bounded copies and out-of-bounds writes as values.
  \<^item> \<open>Json\<close>: JSON values, their rendering and a parser with the round trip between them; it is the
    client's side, against which the events are stated.  \<open>Json_Escape\<close>: \<^verbatim>\<open>hg_json_escape\<close>.
  \<^item> \<open>Session\<close>: the block of one connection (\<^verbatim>\<open>include/hg_session.h\<close> and
    \<^verbatim>\<open>include/state.inc\<close>) as a record, and both tables of offsets.
  \<^item> \<open>Outbox\<close>: \<^verbatim>\<open>hg_session_queue\<close> of \<^verbatim>\<open>asm/session.asm\<close> and the queue
    functions of \<^verbatim>\<open>ffi/format.c\<close>; a store maps addresses to sessions.  The locale
    \<open>outbox\<close> states what a queueing operation promises.
  \<^item> \<open>Rooms\<close>: \<^verbatim>\<open>asm/rooms.asm\<close>, all 28 rooms, the exit table and the moves.
  \<^item> \<open>Format\<close>, \<open>Format_Grid\<close>: the formatters of \<^verbatim>\<open>ffi/format.c\<close>.
  \<^item> \<open>Auth\<close>: \<^verbatim>\<open>ffi/auth.c\<close>, over \<^verbatim>\<open>crypt\<close>, the salt generator and the
    random source as parameters.
  \<^item> \<open>Policy\<close>: \<^verbatim>\<open>asm/actions.asm\<close> (standing, dreams, menus, ambient kinds) and the keepers
    and the regard of \<^verbatim>\<open>asm/social_ledger.asm\<close>.
  \<^item> \<open>Registry\<close>: the session table of \<^verbatim>\<open>asm/combat.asm\<close> and what iterates over it in
    \<^verbatim>\<open>ffi/format.c\<close>: delivery to a room or to all, and the list of a room's players.
  \<^item> \<open>LocalHub\<close>: \<^verbatim>\<open>asm/grid_local.asm\<close>, the hub a node runs on its own.
  \<^item> \<open>GridHub\<close>: \<^verbatim>\<open>ffi/grid_hub.c\<close>, the client that sends every hub operation to the local
    hub or, in remote mode, to a server; libcurl and cJSON are parameters (\<open>env\<close>).
  \<^item> \<open>Emit\<close>, \<open>Rolls\<close>, \<open>Voices\<close>: the emitters of \<^verbatim>\<open>ffi/format.c\<close>, which compose
    formatting, room table, policy, registry and hub, and queue the result.
  \<^item> \<open>Store\<close>: \<^verbatim>\<open>asm/store.asm\<close>, the record file of a player; the files are a map from names to
    bytes, and a host says which of the calls of the kernel fail.
  \<^item> \<open>GridPolicy\<close>: \<^verbatim>\<open>asm/grid_policy.asm\<close>, the identity a player carries between nodes and the
    commands travel and ping, over an \<open>answers\<close> environment of the hub's replies.
  \<^item> \<open>Node\<close>: the whole node, its world, its files and its hub, and the emitters of \<^verbatim>\<open>asm/event.asm\<close>.
  \<^item> \<open>Combat\<close>: the fights, the heartbeat and the commands of \<^verbatim>\<open>asm/combat.asm\<close>; \<open>play\<close> is the game
    behind the text and \<open>p_round\<close>, \<open>p_heartbeat\<close> are its rules, which the detailed definitions refine.
    \<open>Fights\<close>: what the rules come to, over every sequence of rounds, heartbeats and commands.
  \<^item> \<open>Login\<close>: \<^verbatim>\<open>hg_app_callback\<close> of \<^verbatim>\<open>asm/session.asm\<close>, a connection from the banner to the
    world, over a parameter for the commands of a player in the world, which \<open>World\<close> gives.  \<open>Gate\<close>: what the login guarantees and what it does
    not; \<open>attempt\<close> is a connection's way through it.
  \<^item> \<open>Shim\<close>: \<^verbatim>\<open>ffi/lws_shim.c\<close>, the HTTP paths, the fragments of a WebSocket message, the beat
    and the service loop; libwebsockets is a parameter.
  \<^item> \<open>Deeds\<close>: the tables of \<^verbatim>\<open>asm/social_ledger.asm\<close> (deeds, who forgave whom, whose memory
    was kept, caches, cooldowns), the moral arc, inventories and who a word means.  \<open>town\<close> extends a node by these tables;
    \<open>outside\<close> is what a command reads that no routine wrote.  \<open>Social\<close>: the commands of \<^verbatim>\<open>asm/social.asm\<close>.
    \<open>Moral\<close>: those of \<^verbatim>\<open>asm/social_grid.asm\<close> and \<^verbatim>\<open>asm/social_ledger.asm\<close>.
  \<^item> \<open>World\<close>: \<^verbatim>\<open>hg_world_command\<close> of \<^verbatim>\<open>asm/world.asm\<close>, the 122 comparisons
    as a table and the command that each runs.  \<open>Town\<close>: which line runs which command, and which lines stop the node.
  \<^item> \<open>Laws\<close>: the locale \<open>law\<close>, a relation of sessions and caches that every small update respects; each command
    is shown once to respect every law.  \<open>Market\<close> interprets it on the moral marks, the gold
    and the things carried.
    \<open>Mercy\<close>: who is meant, what becomes of gifts, goodness that costs nothing.
  \<^item> \<open>Startup\<close>: \<^verbatim>\<open>asm/main.asm\<close>, settings, options and the order of the boot.

  \<^bold>\<open>State.\<close>  A connection is a \<open>session\<close>; a \<open>store\<close> holds the sessions by address;
  \<open>wstate\<close> extends it with the session table, the clock of the world, the rats alive and the caches; the hub's
  state is a \<open>grid\<close> with its \<open>local_hub\<close>.  Operations take the state and return it.

  \<^bold>\<open>What the lemmas show.\<close>  Round trips: an event is parsed by the client's parser to the state it
  announces.  Bounds: outbox, ledger, rows and cells stay in their arrays, or the write past them is shown as such
  (\<open>Rolls\<close>).  Error results: a formatter that can fail is all or nothing, an unreachable hub fails open.
  Refinement: the ledger array is the bounded history of the recordings; the outbox the bounded stream of what was
  queued.  Invariants: the registry is the set of the players; no hub operation changes the node's mode; health, stance
  and rat stay in order in every reachable world; no play washes a moral mark off, makes gold up
  or writes past an inventory.  Liveness and termination: fights end, the rat returns.

  \<^bold>\<open>Capacities\<close> are those of the code (an outbox of 16384 bytes, 32 sessions, 200 traces, buffers as
  declared).  Every function terminates; there is no fuel.

  \<^bold>\<open>The assembly's conventions.\<close>  A call of a library keeps the registers the System V ABI says it keeps, and
  no others.  Six routines read one of the others after a call, and none of these reads is taken for granted:
  \<^item> \<^verbatim>\<open>add_action\<close> (\<^verbatim>\<open>rsi\<close> after \<^verbatim>\<open>strlen\<close>): \<open>u_strlen_rsi\<close>;
  \<^item> \<^verbatim>\<open>grid_lower_inplace\<close> (\<^verbatim>\<open>rdi\<close> after \<^verbatim>\<open>tolower\<close>, which also gets
    its argument from the wrong register): \<open>u_tolower_rdi\<close>, \<open>u_tolower\<close>, \<open>u_stack\<close>;
  \<^item> \<^verbatim>\<open>hg_cmd_travel\<close> (\<^verbatim>\<open>r8\<close>) and \<^verbatim>\<open>hg_cmd_ping\<close> (\<^verbatim>\<open>rdi\<close>),
    both after \<^verbatim>\<open>strcmp\<close>: \<open>u_strcmp_r8\<close>, \<open>u_strcmp_rdi\<close>;
  \<^item> \<^verbatim>\<open>hg_store_save\<close> (\<^verbatim>\<open>rsi\<close> after \<^verbatim>\<open>write\<close>): \<open>w_rsi\<close>;
  \<^item> \<^verbatim>\<open>inv_find_slot\<close> (\<^verbatim>\<open>rcx\<close> after \<^verbatim>\<open>strcasecmp\<close> and
    \<^verbatim>\<open>strlen\<close>): \<open>o_stale\<close>.
  The first four stand, with the bytes behind a formatted text (\<open>u_behind\<close>) and the way \<^verbatim>\<open>memcpy\<close> goes
  between overlapping ranges (\<open>u_memcpy_up\<close>), in the record \<open>undefs\<close> of \<open>Outbox\<close>, which a store carries along.
  These values are arbitrary, but fixed functions of what is known at the call.  A theorem that needs a register kept
  says so in a hypothesis (\<open>strlen_keeps_rsi\<close>, \<open>strcmp_keeps_r8\<close>, \<open>write_keeps_rsi\<close>).  An access
  through a register that was not kept is the value \<open>Stray_address\<close>, an overlapping \<^verbatim>\<open>memcpy\<close> that does
  not copy upwards the value \<open>Overlapping\<close>.  The zero flag after \<^verbatim>\<open>strcmp\<close> (\<open>zf\<close>) and an unwritten
  stack word are parameters as well.

  \<^bold>\<open>Outcomes outside the program.\<close>  What the kernel answers to \<^verbatim>\<open>open\<close>, \<^verbatim>\<open>write\<close>
  and the others, and whether cJSON could add a member or an item to a record (which the code never checks), are fields
  of \<open>write_io\<close> and \<open>read_io\<close>.  Of \<^verbatim>\<open>crypt\<close> only what is documented of the bcrypt method is
  assumed (\<open>bcrypt_documented\<close>), of cJSON that a printed record parses back (\<open>json_faithful\<close>).

  \<^bold>\<open>Not modelled.\<close>  The clock itself, and the declarations of the headers.  The random source, the clock,
  libwebsockets, \<^verbatim>\<open>crypt\<close>, libcurl, cJSON and the kernel are outside of the repository and are parameters.
\<close>

end
